(* ===== verification/Prelude.thy ===== *)
theory Prelude
  imports Main "HOL-Library.Word"
begin

text \<open>
  What every component of the model shares: the outcome of a Go call (a value, an error, a
  panic, or a goroutine that waits for ever), byte strings, the big-endian integer layout of
  \<^verbatim>\<open>encoding/binary\<close>, and the collections of rewrite rules the component proofs use.
\<close>

unbundle bit_operations_syntax

named_theorems wire \<open>layout facts: lengths and read-backs of byte encodings\<close>
named_theorems frame \<open>what an operation leaves alone\<close>

section \<open>Outcomes of Go calls\<close>

text \<open>
  \<open>Ok v\<close> is a return with a nil error, \<open>Err e\<close> a return with an error, \<open>Panic\<close> a run-time
  panic (nil dereference, index out of range, send on a closed channel), \<open>Blocked\<close> a call that
  never returns because it waits for a lock its own goroutine holds.
\<close>

datatype ('e, 'a) outcome = Ok 'a | Err 'e | Panic | Blocked

primrec bindO :: "('e, 'a) outcome \<Rightarrow> ('a \<Rightarrow> ('e, 'b) outcome) \<Rightarrow> ('e, 'b) outcome" where
  "bindO (Ok a) f = f a"
| "bindO (Err e) f = Err e"
| "bindO Panic f = Panic"
| "bindO Blocked f = Blocked"

primrec is_ok :: "('e, 'a) outcome \<Rightarrow> bool" where
  "is_ok (Ok a) = True"
| "is_ok (Err e) = False"
| "is_ok Panic = False"
| "is_ok Blocked = False"

primrec mapErr :: "('e \<Rightarrow> 'f) \<Rightarrow> ('e, 'a) outcome \<Rightarrow> ('f, 'a) outcome" where
  "mapErr g (Ok a) = Ok a"
| "mapErr g (Err e) = Err (g e)"
| "mapErr g Panic = Panic"
| "mapErr g Blocked = Blocked"

lemma bindO_eq_Ok: "bindO m f = Ok b \<longleftrightarrow> (\<exists>a. m = Ok a \<and> f a = Ok b)"
  by (cases m) auto

lemma bindO_assoc: "bindO (bindO m f) g = bindO m (\<lambda>a. bindO (f a) g)"
  by (cases m) auto

lemma bindO_cong [fundef_cong]:
  "m = m' \<Longrightarrow> (\<And>a. m' = Ok a \<Longrightarrow> f a = f' a) \<Longrightarrow> bindO m f = bindO m' f'"
  by (cases m') auto

lemma mapErr_eq_Ok [simp]: "mapErr g m = Ok b \<longleftrightarrow> m = Ok b"
  by (cases m) auto

lemma mapErr_eq_Panic [simp]: "mapErr g m = Panic \<longleftrightarrow> m = Panic"
  by (cases m) auto

lemma is_ok_iff: "is_ok m \<longleftrightarrow> (\<exists>a. m = Ok a)"
  by (cases m) auto

section \<open>Bytes and big-endian integers\<close>

type_synonym byte = "8 word"
type_synonym bytes = "8 word list"
type_synonym u64 = "64 word"
type_synonym u32 = "32 word"

text \<open>The \<open>n\<close> low bytes of a word, most significant first.\<close>

primrec be_bytes :: "nat \<Rightarrow> 'a::len word \<Rightarrow> bytes" where
  "be_bytes 0 w = []"
| "be_bytes (Suc n) w = ucast (drop_bit (8 * n) w) # be_bytes n w"

text \<open>The word a byte string spells, most significant byte first.\<close>

primrec be_acc :: "'a::len word \<Rightarrow> bytes \<Rightarrow> 'a word" where
  "be_acc acc [] = acc"
| "be_acc acc (b # bs) = be_acc (push_bit 8 acc OR ucast b) bs"

definition be_word :: "bytes \<Rightarrow> 'a::len word" where
  "be_word bs = be_acc 0 bs"

lemma length_be_bytes [simp, wire]: "length (be_bytes n w) = n"
  by (induction n) auto

lemma be_bytes_eq_Nil [simp]: "be_bytes n w = [] \<longleftrightarrow> n = 0"
  by (cases n) auto

lemma be_acc_be_bytes:
  fixes w acc :: "'a::len word"
  shows "be_acc acc (be_bytes n w) = push_bit (8 * n) acc OR take_bit (8 * n) w"
proof (induction n arbitrary: acc)
  case 0
  then show ?case by simp
next
  case (Suc n)
  have "push_bit (8 * n) (push_bit 8 acc OR ucast (ucast (drop_bit (8 * n) w) :: 8 word))
      OR take_bit (8 * n) w
    = push_bit (8 * Suc n) acc OR take_bit (8 * Suc n) w"
    by (rule bit_eqI) (auto simp: bit_simps ac_simps not_le less_diff_conv2)
  with Suc.IH show ?case by simp
qed

lemma be_word_be_bytes [simp, wire]:
  fixes w :: "'a::len word"
  assumes "LENGTH('a) \<le> 8 * n"
  shows "be_word (be_bytes n w) = w"
proof -
  have "take_bit (8 * n) w = w"
    using assms by (metis take_bit_length_eq take_bit_take_bit min.absorb2)
  then show ?thesis by (simp add: be_word_def be_acc_be_bytes)
qed

lemma be_bytes_inject:
  fixes v w :: "'a::len word"
  assumes "LENGTH('a) \<le> 8 * n"
  shows "be_bytes n v = be_bytes n w \<longleftrightarrow> v = w"
  using assms by (metis be_word_be_bytes)

lemma be_bytes_64_inject [simp]: "be_bytes 8 (v :: u64) = be_bytes 8 w \<longleftrightarrow> v = w"
  by (rule be_bytes_inject) simp

lemma be_bytes_256_inject [simp]: "be_bytes 32 (v :: 256 word) = be_bytes 32 w \<longleftrightarrow> v = w"
  by (rule be_bytes_inject) simp

text \<open>The other direction: a byte string of the full length is the layout of the word it spells.\<close>

lemma be_acc_split:
  fixes acc :: "'a::len word"
  shows "be_acc acc bs = push_bit (8 * length bs) acc OR be_acc 0 bs"
proof (induction bs arbitrary: acc)
  case Nil
  then show ?case by simp
next
  case (Cons b bs)
  have "be_acc acc (b # bs) = push_bit (8 * length bs) (push_bit 8 acc OR ucast b) OR be_acc 0 bs"
    using Cons.IH[of "push_bit 8 acc OR ucast b"] by simp
  also have "\<dots> = push_bit (8 * length (b # bs)) acc
      OR (push_bit (8 * length bs) (ucast b) OR be_acc 0 bs)"
    by (simp add: push_bit_or ac_simps)
  also have "push_bit (8 * length bs) (ucast b) OR be_acc 0 bs = be_acc (0 :: 'a word) (b # bs)"
    using Cons.IH[of "ucast b"] by simp
  finally show ?case .
qed

lemma be_acc_0_take_bit: "take_bit (8 * length bs) (be_acc 0 bs) = (be_acc 0 bs :: 'a::len word)"
proof (induction bs)
  case Nil
  then show ?case by simp
next
  case (Cons b bs)
  have eq: "be_acc 0 (b # bs) = push_bit (8 * length bs) (ucast b) OR (be_acc 0 bs :: 'a word)"
    using be_acc_split[of "ucast b" bs] by simp
  have low: "bit (be_acc 0 bs :: 'a word) m \<Longrightarrow> m < 8 * length bs" for m
    by (subst (asm) Cons.IH[symmetric]) (simp add: bit_take_bit_iff)
  have high: "bit b m \<Longrightarrow> m < 8" for m
    using bit_imp_le_length[of b m] by simp
  show ?case
    unfolding eq by (rule bit_eqI) (fastforce simp: bit_simps dest: low high)
qed

lemma be_bytes_be_acc:
  fixes acc :: "'a::len word"
  assumes "8 * length bs \<le> LENGTH('a)"
  shows "be_bytes (length bs) (be_acc acc bs) = bs"
  using assms
proof (induction bs arbitrary: acc)
  case Nil
  then show ?case by simp
next
  case (Cons b bs)
  let ?acc = "push_bit 8 acc OR ucast b :: 'a word"
  have low: "bit (be_acc 0 bs :: 'a word) m \<Longrightarrow> m < 8 * length bs" for m
    by (subst (asm) be_acc_0_take_bit[symmetric]) (simp add: bit_take_bit_iff)
  have "ucast (drop_bit (8 * length bs) (be_acc ?acc bs)) = b"
    using Cons.prems
    by (subst be_acc_split, intro bit_eqI) (auto simp: bit_simps dest: low)
  with Cons show ?case by simp
qed

lemma be_bytes_be_word:
  "length bs = n \<Longrightarrow> 8 * n \<le> LENGTH('a) \<Longrightarrow> be_bytes n (be_word bs :: 'a::len word) = bs"
  using be_bytes_be_acc[of bs "0 :: 'a word"] by (auto simp: be_word_def)

text \<open>
  \<^verbatim>\<open>binary.BigEndian.PutUint64\<close> into an 8-byte buffer, and \<^verbatim>\<open>binary.BigEndian.Uint64\<close>,
  which panics on fewer than 8 bytes and reads the first 8.
\<close>

definition PutUint64 :: "u64 \<Rightarrow> bytes" where
  "PutUint64 v = be_bytes 8 v"

definition Uint64 :: "bytes \<Rightarrow> ('e, u64) outcome" where
  "Uint64 b = (if length b < 8 then Panic else Ok (be_word (take 8 b)))"

definition PutUint32 :: "u32 \<Rightarrow> bytes" where
  "PutUint32 v = be_bytes 4 v"

definition Uint32 :: "bytes \<Rightarrow> ('e, u32) outcome" where
  "Uint32 b = (if length b < 4 then Panic else Ok (be_word (take 4 b)))"

lemma length_PutUint64 [simp, wire]: "length (PutUint64 v) = 8"
  by (simp add: PutUint64_def)

lemma length_PutUint32 [simp, wire]: "length (PutUint32 v) = 4"
  by (simp add: PutUint32_def)

lemma PutUint64_inject [simp]: "PutUint64 v = PutUint64 w \<longleftrightarrow> v = w"
  by (simp add: PutUint64_def)

lemma Uint64_PutUint64 [simp, wire]: "Uint64 (PutUint64 v) = Ok v"
  by (simp add: Uint64_def PutUint64_def)

lemma Uint32_PutUint32 [simp, wire]: "Uint32 (PutUint32 v) = Ok v"
  by (simp add: Uint32_def PutUint32_def)

lemma Uint64_Ok_iff: "length b = 8 \<Longrightarrow> Uint64 b = Ok (be_word b)"
  by (simp add: Uint64_def)

section \<open>Lists\<close>

lemma append_same_length:
  "length a = length b \<Longrightarrow> a @ xs = b @ ys \<longleftrightarrow> a = b \<and> xs = ys"
  by simp

lemma concat_map_inj:
  assumes "\<And>x. length (f x) = n" and "0 < n" and "inj f"
    and "concat (map f xs) = concat (map f ys)"
  shows "xs = ys"
  using assms(4)
proof (induction xs arbitrary: ys)
  case Nil
  then show ?case
    using assms(1,2) by (cases ys) (auto, metis length_greater_0_conv list.size(3))
next
  case (Cons x xs)
  then obtain y ys' where ys: "ys = y # ys'"
    using assms(1,2) by (cases ys) (auto, metis length_greater_0_conv list.size(3))
  with Cons.prems have "f x = f y" "concat (map f xs) = concat (map f ys')"
    by (auto simp: append_eq_append_conv assms(1))
  with Cons.IH[of ys'] assms(3) ys show ?case by (auto dest: injD)
qed

end
