(* ===== verification/Hex.thy ===== *)
theory Hex
  imports Prelude
begin

text \<open>
  The part of \<^verbatim>\<open>encoding/hex\<close> and of \<^verbatim>\<open>fmt\<close>'s \<^verbatim>\<open>%x\<close> that the program uses: printing a byte
  string in lower-case hexadecimal and parsing one back (either case, an error on an odd length
  or on any other character), with the round trip.
\<close>

definition hexdigit :: "nat \<Rightarrow> char" where
  "hexdigit n = ''0123456789abcdef'' ! n"

text \<open>Go strings are byte sequences, so a \<open>char\<close> here is one byte of the string.\<close>

definition fromHexChar :: "char \<Rightarrow> nat option" where
  "fromHexChar c =
     (let n = (of_char c :: nat) in
      if 48 \<le> n \<and> n \<le> 57 then Some (n - 48)
      else if 97 \<le> n \<and> n \<le> 102 then Some (n - 97 + 10)
      else if 65 \<le> n \<and> n \<le> 70 then Some (n - 65 + 10)
      else None)"

definition hex_byte :: "byte \<Rightarrow> string" where
  "hex_byte b = [hexdigit (unat b div 16), hexdigit (unat b mod 16)]"

text \<open>\<^verbatim>\<open>hex.EncodeToString\<close>, and \<^verbatim>\<open>fmt.Sprintf("%x", b)\<close> on a byte slice.\<close>

definition hex_encode :: "bytes \<Rightarrow> string" where
  "hex_encode bs = concat (map hex_byte bs)"

text \<open>\<^verbatim>\<open>hex.DecodeString\<close>: \<open>None\<close> stands for its error.\<close>

fun hex_decode :: "string \<Rightarrow> bytes option" where
  "hex_decode [] = Some []"
| "hex_decode [c] = None"
| "hex_decode (c # d # s) =
     (case (fromHexChar c, fromHexChar d, hex_decode s) of
        (Some a, Some b, Some bs) \<Rightarrow> Some (word_of_nat (16 * a + b) # bs)
      | _ \<Rightarrow> None)"

lemma fromHexChar_hexdigit: "n < 16 \<Longrightarrow> fromHexChar (hexdigit n) = Some n"
proof -
  have "list_all (\<lambda>n. fromHexChar (hexdigit n) = Some n) [0..<16]"
    by code_simp
  then show "n < 16 \<Longrightarrow> fromHexChar (hexdigit n) = Some n"
    by (simp add: list_all_iff)
qed

lemma fromHexChar_bound: "fromHexChar c = Some n \<Longrightarrow> n < 16"
  by (auto simp: fromHexChar_def Let_def split: if_splits)

lemma length_hex_encode [simp, wire]: "length (hex_encode bs) = 2 * length bs"
  by (induction bs) (auto simp: hex_encode_def hex_byte_def)

lemma hex_decode_Cons_byte:
  "hex_decode (hex_byte b @ s) = map_option ((#) b) (hex_decode s)"
proof -
  have "unat b < 256" using unsigned_less[of b] by simp
  then have "unat b div 16 < 16" by (simp add: less_mult_imp_div_less)
  then show ?thesis
    by (auto simp: hex_byte_def fromHexChar_hexdigit mult.commute[of 16] split: option.splits)
qed

lemma hex_decode_encode [simp, wire]: "hex_decode (hex_encode bs) = Some bs"
proof (induction bs)
  case Nil
  then show ?case by (simp add: hex_encode_def)
next
  case (Cons b bs)
  have "hex_encode (b # bs) = hex_byte b @ hex_encode bs" by (simp add: hex_encode_def)
  with Cons show ?case by (simp add: hex_decode_Cons_byte)
qed

lemma hex_decode_length: "hex_decode s = Some bs \<Longrightarrow> length s = 2 * length bs"
  by (induction s arbitrary: bs rule: hex_decode.induct) (auto split: option.splits)

lemma hex_encode_inject: "hex_encode a = hex_encode b \<longleftrightarrow> a = b"
  by (metis hex_decode_encode option.inject)

end
