(* ===== verification/Core.thy ===== *)
theory Core
  imports Hex
begin

text \<open>
  \<^verbatim>\<open>internal/core\<close>: the data types of the ledger, its error values, its constants and the
  overflow-checked arithmetic on amounts.
\<close>

section \<open>Types (types.go)\<close>

text \<open>
  The fixed arrays \<^verbatim>\<open>[32]byte\<close> and \<^verbatim>\<open>[64]byte\<close> are words of 256 and 512 bits; the bytes of the
  array, in order, are \<open>be_bytes 32 h\<close> and \<open>be_bytes 64 s\<close>. Times and durations are integers in
  nanoseconds, as \<^verbatim>\<open>time.Duration\<close> counts them.
\<close>

type_synonym pubkey = "256 word"
type_synonym hash32 = "256 word"
type_synonym signature = "512 word"
type_synonym amount = u64
type_synonym gtime = int
type_synonym duration = int

abbreviation arr32 :: "256 word \<Rightarrow> bytes" where
  "arr32 h \<equiv> be_bytes 32 h"

abbreviation Second :: duration where
  "Second \<equiv> 1000000000"

definition IsZero :: "hash32 \<Rightarrow> bool" where
  "IsZero h \<longleftrightarrow> h = 0"

text \<open>\<^verbatim>\<open>TxStatus\<close> is an \<^verbatim>\<open>int\<close>: a decoded transaction may carry any value.\<close>

type_synonym txstatus = int

definition TxPending :: txstatus where "TxPending = 0"
definition TxConfirmed :: txstatus where "TxConfirmed = 1"
definition TxRejected :: txstatus where "TxRejected = 2"

record witness_signature =
  ws_WitnessPubKey :: pubkey
  ws_DAGTipAtSign :: hash32
  ws_NonceLockSeen :: bool
  ws_Sig :: signature

record transaction =
  tx_Hash :: hash32
  tx_Sequence :: u64
  tx_Nonce :: u64
  tx_From :: pubkey
  tx_To :: pubkey
  tx_Amount :: amount
  tx_SenderSig :: signature
  tx_ParentHashes :: "hash32 list"
  tx_WitnessSigs :: "witness_signature list"
  tx_CreatedAt :: gtime
  tx_Status :: txstatus

record witness =
  w_PubKey :: pubkey
  w_Addr :: string
  w_AddedAt :: gtime

record snapshot =
  sn_PubKey :: pubkey
  sn_Sequence :: u64
  sn_Balance :: amount
  sn_DAGTips :: "hash32 list"
  sn_CreatedAt :: gtime
  sn_ExpiresAt :: gtime

text \<open>\<^verbatim>\<open>time.Now().After(s.ExpiresAt)\<close>, the clock reading being an argument.\<close>

definition IsExpired :: "gtime \<Rightarrow> snapshot \<Rightarrow> bool" where
  "IsExpired now s \<longleftrightarrow> sn_ExpiresAt s < now"

type_synonym packet_type = byte

definition PacketPing :: packet_type where "PacketPing = 1"
definition PacketPong :: packet_type where "PacketPong = 2"
definition PacketTxVerify :: packet_type where "PacketTxVerify = 10"
definition PacketTxWitnessSig :: packet_type where "PacketTxWitnessSig = 11"
definition PacketTxConfirmed :: packet_type where "PacketTxConfirmed = 12"
definition PacketNonceLock :: packet_type where "PacketNonceLock = 13"
definition PacketHandshake :: packet_type where "PacketHandshake = 20"

lemmas packet_type_defs = PacketPing_def PacketPong_def PacketTxVerify_def
  PacketTxWitnessSig_def PacketTxConfirmed_def PacketNonceLock_def PacketHandshake_def

section \<open>Errors (errors.go)\<close>

text \<open>
  The sentinel errors, the \<^verbatim>\<open>ErrDAGCycle\<close> value with its two abbreviated hashes, and the errors
  built with \<^verbatim>\<open>fmt.Errorf\<close>: \<open>Errorf\<close> without and \<open>Wrapf\<close> with a wrapped error, each with its
  format string and its numeric arguments. \<open>ErrKeyNotFound\<close> is BadgerDB's sentinel; \<open>LibError\<close> is
  any other error a library returns.
\<close>

datatype error =
    ErrAmountZero | ErrAmountOverflow | ErrAmountUnderflow | ErrAmountExceedMax
  | ErrTxInvalidSignature | ErrTxInsufficientBal | ErrTxInvalidSequence
  | ErrTxAlreadyExists | ErrTxNonceLocked
  | ErrSnapshotNotFound | ErrSnapshotExpired
  | ErrDAGEdgeDuplicate
  | ErrWitnessNotFound | ErrQuorumNotMet
  | ErrDAGCycleDetected
  | ErrDAGCycle (cycle_From: string) (cycle_To: string)
  | ErrKeyNotFound
  | LibError string
  | Errorf string "int list"
  | Wrapf string "int list" error

type_synonym 'a result = "(error, 'a) outcome"

text \<open>\<^verbatim>\<open>errors.Is\<close>, with the \<^verbatim>\<open>Is\<close> method of \<^verbatim>\<open>ErrDAGCycle\<close>.\<close>

fun errors_Is :: "error \<Rightarrow> error \<Rightarrow> bool" where
  "errors_Is (Wrapf f a e) t \<longleftrightarrow> Wrapf f a e = t \<or> errors_Is e t"
| "errors_Is (ErrDAGCycle f g) t \<longleftrightarrow> ErrDAGCycle f g = t \<or> t = ErrDAGCycleDetected"
| "errors_Is e t \<longleftrightarrow> e = t"

section \<open>Constants (constants.go)\<close>

definition MaxAmount :: amount where "MaxAmount = 9000000000000000"
definition MaxPeers :: nat where "MaxPeers = 50"
definition HandshakeTimeout :: duration where "HandshakeTimeout = 5 * Second"
definition PingInterval :: duration where "PingInterval = 30 * Second"

lemma unat_MaxAmount: "unat MaxAmount = 9000000000000000"
  by (simp add: MaxAmount_def)

section \<open>Amounts (amount.go)\<close>

definition SafeAdd :: "amount \<Rightarrow> amount \<Rightarrow> amount result" where
  "SafeAdd a b =
     (if a > MaxAmount \<or> b > MaxAmount then Err ErrAmountExceedMax
      else if b > MaxAmount - a then Err ErrAmountOverflow
      else Ok (a + b))"

definition SafeSub :: "amount \<Rightarrow> amount \<Rightarrow> amount result" where
  "SafeSub a b = (if b > a then Err ErrAmountUnderflow else Ok (a - b))"

definition ValidateAmount :: "amount \<Rightarrow> error option" where
  "ValidateAmount a =
     (if a = 0 then Some ErrAmountZero
      else if a > MaxAmount then Some ErrAmountExceedMax
      else None)"

definition bondDivisor :: amount where "bondDivisor = 1000"

definition calcBond :: "amount \<Rightarrow> amount" where
  "calcBond amt = amt div bondDivisor"

definition BondAmount :: "amount \<Rightarrow> amount" where
  "BondAmount amt = calcBond amt"

lemma SafeAdd_Ok_iff:
  "SafeAdd a b = Ok c \<longleftrightarrow> unat a + unat b \<le> unat MaxAmount \<and> unat c = unat a + unat b"
proof (cases "a > MaxAmount \<or> b > MaxAmount")
  case True
  then show ?thesis
    by (auto simp: SafeAdd_def word_less_nat_alt)
next
  case False
  then have a: "unat a \<le> unat MaxAmount" and b: "unat b \<le> unat MaxAmount"
    by (auto simp: not_less word_le_nat_alt)
  have sub: "unat (MaxAmount - a) = unat MaxAmount - unat a"
    using a by (simp add: unat_sub word_le_nat_alt)
  have nov: "unat a + unat b < 2 ^ 64"
    using a b by (simp add: unat_MaxAmount)
  have sum: "unat (a + b) = unat a + unat b"
    using nov by (simp add: unat_word_ariths)
  show ?thesis
    using False a b by (auto simp: SafeAdd_def word_less_nat_alt sub sum word_unat_eq_iff not_less)
qed

lemma SafeAdd_not_Panic [simp]: "SafeAdd a b \<noteq> Panic" "SafeAdd a b \<noteq> Blocked"
  by (simp_all add: SafeAdd_def)

lemma SafeSub_Ok_iff:
  "SafeSub a b = Ok c \<longleftrightarrow> unat b \<le> unat a \<and> unat c = unat a - unat b"
  by (auto simp: SafeSub_def word_less_nat_alt word_unat_eq_iff unat_sub word_le_nat_alt not_less)

lemma unat_BondAmount: "unat (BondAmount a) = unat a div 1000"
  by (simp add: BondAmount_def calcBond_def bondDivisor_def unat_div)

text \<open>Checked addition is exact: it returns a value just when the true sum stays within
  \<open>MaxAmount\<close>, the value is then the true sum (so no 64-bit wrap-around happens), and otherwise it
  reports which bound was passed.\<close>

theorem SafeAdd_exact:
  "SafeAdd a b =
     (if unat MaxAmount < unat a \<or> unat MaxAmount < unat b then Err ErrAmountExceedMax
      else if unat MaxAmount < unat a + unat b then Err ErrAmountOverflow
      else Ok (word_of_nat (unat a + unat b)))"
proof -
  have "c = word_of_nat (unat a + unat b)" if "unat c = unat a + unat b" for c :: u64
    by (simp flip: that)
  moreover have "SafeAdd a b = Ok (a + b)" if "unat a + unat b \<le> unat MaxAmount"
    using that unat_MaxAmount by (subst SafeAdd_Ok_iff) (simp add: unat_word_ariths)
  moreover have "SafeAdd a b = Err ErrAmountExceedMax"
    if "unat MaxAmount < unat a \<or> unat MaxAmount < unat b"
    using that by (auto simp: SafeAdd_def word_less_nat_alt)
  moreover have "SafeAdd a b = Err ErrAmountOverflow"
    if "\<not> (unat MaxAmount < unat a \<or> unat MaxAmount < unat b)" "unat MaxAmount < unat a + unat b"
  proof -
    from that have "a \<le> MaxAmount" by (simp add: word_le_nat_alt)
    then have "unat (MaxAmount - a) = unat MaxAmount - unat a" by (rule unat_sub)
    with that show ?thesis by (simp add: SafeAdd_def word_less_nat_alt) arith
  qed
  moreover have "a + b = word_of_nat (unat a + unat b)" by simp
  ultimately show ?thesis by (simp only: if_split) (meson not_less)
qed

end
