(* ===== verification/Crypto.thy ===== *)
theory Crypto
  imports Core
begin

text \<open>
  \<^verbatim>\<open>internal/crypto\<close>: transaction hashing (hash.go), key pairs (keypair.go), and transaction,
  witness and quorum signatures (sign.go). Blake2b (golang.org/x/crypto) and Ed25519 are the
  parameter \<open>crypto_ops\<close>; what the program relies on of Ed25519 is \<open>ed25519_ok\<close>.
\<close>

section \<open>The primitives\<close>

text \<open>
  \<open>blake2b\<close> is \<^verbatim>\<open>blake2b.Sum256\<close>, and the digest of everything written to a \<^verbatim>\<open>New256(nil)\<close> hasher;
  \<open>ed_new_key\<close> is \<^verbatim>\<open>ed25519.NewKeyFromSeed\<close>, \<open>ed_sign\<close> and \<open>ed_verify\<close> are \<^verbatim>\<open>ed25519.Sign\<close> on a
  64-byte key and \<^verbatim>\<open>ed25519.Verify\<close>.
\<close>

record crypto_ops =
  blake2b :: "bytes \<Rightarrow> hash32"
  ed_new_key :: "bytes \<Rightarrow> bytes"
  ed_sign :: "bytes \<Rightarrow> bytes \<Rightarrow> signature"
  ed_verify :: "pubkey \<Rightarrow> bytes \<Rightarrow> signature \<Rightarrow> bool"

text \<open>\<^verbatim>\<open>priv.Public()\<close>: the last 32 of the 64 bytes of a private key.\<close>

definition ed_public :: "bytes \<Rightarrow> pubkey" where
  "ed_public priv = be_word (take 32 (drop 32 priv))"

text \<open>
  The documented behaviour of Ed25519: a key made from a seed is 64 bytes long, and a signature
  made with it verifies under its public half.
\<close>

definition ed25519_ok :: "crypto_ops \<Rightarrow> bool" where
  "ed25519_ok C \<longleftrightarrow>
     (\<forall>seed. length (ed_new_key C seed) = 64) \<and>
     (\<forall>seed m. ed_verify C (ed_public (ed_new_key C seed)) m (ed_sign C (ed_new_key C seed) m))"

section \<open>Hashing (hash.go)\<close>

definition Sum :: "crypto_ops \<Rightarrow> bytes \<Rightarrow> hash32" where
  "Sum C data = blake2b C data"

text \<open>The bytes \<^verbatim>\<open>HashTx\<close> writes to the hasher, in order.\<close>

definition tx_stream :: "u64 \<Rightarrow> u64 \<Rightarrow> pubkey \<Rightarrow> pubkey \<Rightarrow> amount \<Rightarrow> hash32 list \<Rightarrow> bytes" where
  "tx_stream seq nonce from to amt parents =
     PutUint64 seq @ PutUint64 nonce @ arr32 from @ arr32 to @ PutUint64 amt
       @ concat (map arr32 parents)"

definition HashTx ::
  "crypto_ops \<Rightarrow> u64 \<Rightarrow> u64 \<Rightarrow> pubkey \<Rightarrow> pubkey \<Rightarrow> amount \<Rightarrow> hash32 list \<Rightarrow> hash32" where
  "HashTx C seq nonce from to amt parents = blake2b C (tx_stream seq nonce from to amt parents)"

text \<open>The hash of a transaction's own fields, as \<^verbatim>\<open>SignTx\<close> and \<^verbatim>\<open>VerifyTx\<close> compute it.\<close>

definition tx_digest :: "crypto_ops \<Rightarrow> transaction \<Rightarrow> hash32" where
  "tx_digest C tx =
     HashTx C (tx_Sequence tx) (tx_Nonce tx) (tx_From tx) (tx_To tx) (tx_Amount tx)
       (tx_ParentHashes tx)"

section \<open>Key pairs (keypair.go)\<close>

record keypair =
  kp_Public :: pubkey
  kp_private :: bytes

text \<open>\<open>rnd\<close> is what \<^verbatim>\<open>rand.Reader\<close> delivers: an error, or the 32-byte seed.\<close>

definition Generate :: "crypto_ops \<Rightarrow> error + bytes \<Rightarrow> keypair result" where
  "Generate C rnd =
     (case rnd of
        Inl e \<Rightarrow> Err (Wrapf ''generate key: %w'' [] e)
      | Inr seed \<Rightarrow>
          (let priv = ed_new_key C seed
           in Ok \<lparr>kp_Public = ed_public priv, kp_private = priv\<rparr>))"

definition PrivateKeySize :: nat where "PrivateKeySize = 64"

definition LoadFromBytes :: "bytes \<Rightarrow> keypair result" where
  "LoadFromBytes privBytes =
     (if length privBytes \<noteq> PrivateKeySize
      then Err (Errorf ''invalid key size: %d'' [int (length privBytes)])
      else Ok \<lparr>kp_Public = ed_public privBytes, kp_private = privBytes\<rparr>)"

definition PrivateBytes :: "keypair \<Rightarrow> bytes" where
  "PrivateBytes kp = kp_private kp"

text \<open>\<^verbatim>\<open>ed25519.Sign\<close> panics on a private key of any other length.\<close>

definition Sign :: "crypto_ops \<Rightarrow> keypair \<Rightarrow> bytes \<Rightarrow> signature result" where
  "Sign C kp data =
     (if length (kp_private kp) \<noteq> PrivateKeySize then Panic
      else Ok (ed_sign C (kp_private kp) data))"

definition Verify :: "crypto_ops \<Rightarrow> pubkey \<Rightarrow> bytes \<Rightarrow> signature \<Rightarrow> bool" where
  "Verify C pub data sig = ed_verify C pub data sig"

definition PubKeyFromHex :: "string \<Rightarrow> pubkey result" where
  "PubKeyFromHex s =
     (case hex_decode s of
        None \<Rightarrow> Err (Errorf (''invalid pubkey hex: '' @ s) [])
      | Some b \<Rightarrow>
          if length b \<noteq> 32 then Err (Errorf (''invalid pubkey hex: '' @ s) [])
          else Ok (be_word b))"

section \<open>Signatures (sign.go)\<close>

definition SignTx :: "crypto_ops \<Rightarrow> keypair \<Rightarrow> transaction \<Rightarrow> transaction result" where
  "SignTx C kp tx =
     (let tx1 = tx\<lparr>tx_Hash := tx_digest C tx\<rparr> in
      bindO (mapErr (Wrapf ''sign tx: %w'' []) (Sign C kp (arr32 (tx_Hash tx1))))
        (\<lambda>sig. Ok (tx1\<lparr>tx_SenderSig := sig\<rparr>)))"

definition VerifyTx :: "crypto_ops \<Rightarrow> transaction \<Rightarrow> error option" where
  "VerifyTx C tx =
     (if tx_digest C tx \<noteq> tx_Hash tx then Some ErrTxInvalidSignature
      else if \<not> Verify C (tx_From tx) (arr32 (tx_Hash tx)) (tx_SenderSig tx)
      then Some ErrTxInvalidSignature
      else None)"

definition witnessMsg :: "hash32 \<Rightarrow> hash32 \<Rightarrow> bool \<Rightarrow> bytes" where
  "witnessMsg txHash dagTip seen = arr32 txHash @ arr32 dagTip @ [if seen then 1 else 0]"

definition SignAsWitness ::
  "crypto_ops \<Rightarrow> keypair \<Rightarrow> hash32 \<Rightarrow> hash32 \<Rightarrow> bool \<Rightarrow> witness_signature result" where
  "SignAsWitness C kp txHash dagTip seen =
     bindO (mapErr (Wrapf ''sign as witness: %w'' []) (Sign C kp (witnessMsg txHash dagTip seen)))
       (\<lambda>sig. Ok \<lparr>ws_WitnessPubKey = kp_Public kp, ws_DAGTipAtSign = dagTip,
                  ws_NonceLockSeen = seen, ws_Sig = sig\<rparr>)"

definition VerifyWitnessSig :: "crypto_ops \<Rightarrow> witness_signature \<Rightarrow> hash32 \<Rightarrow> error option" where
  "VerifyWitnessSig C ws txHash =
     (let msg = witnessMsg txHash (ws_DAGTipAtSign ws) (ws_NonceLockSeen ws) in
      if \<not> Verify C (ws_WitnessPubKey ws) msg (ws_Sig ws)
      then Some (Errorf ''invalid witness signature from %x''
                   (map uint (take 4 (arr32 (ws_WitnessPubKey ws)))))
      else None)"

text \<open>The loop of \<^verbatim>\<open>countValidSigs\<close>, with its \<^verbatim>\<open>counted\<close> set and its counter.\<close>

fun countLoop ::
  "crypto_ops \<Rightarrow> hash32 \<Rightarrow> pubkey set \<Rightarrow> witness_signature list \<Rightarrow> pubkey set \<Rightarrow> nat \<Rightarrow> nat" where
  "countLoop C txHash validSet [] counted valid = valid"
| "countLoop C txHash validSet (ws # sigs) counted valid =
     (if ws_WitnessPubKey ws \<in> counted then countLoop C txHash validSet sigs counted valid
      else if ws_WitnessPubKey ws \<notin> validSet then countLoop C txHash validSet sigs counted valid
      else if \<not> ws_NonceLockSeen ws then countLoop C txHash validSet sigs counted valid
      else if VerifyWitnessSig C ws txHash \<noteq> None
      then countLoop C txHash validSet sigs counted valid
      else countLoop C txHash validSet sigs (insert (ws_WitnessPubKey ws) counted) (valid + 1))"

definition countValidSigs ::
  "crypto_ops \<Rightarrow> witness_signature list \<Rightarrow> hash32 \<Rightarrow> pubkey set \<Rightarrow> nat" where
  "countValidSigs C sigs txHash validSet = countLoop C txHash validSet sigs {} 0"

definition VerifyQuorum ::
  "crypto_ops \<Rightarrow> witness_signature list \<Rightarrow> hash32 \<Rightarrow> pubkey set \<Rightarrow> int \<Rightarrow> error option" where
  "VerifyQuorum C sigs txHash validSet k =
     (let valid = countValidSigs C sigs txHash validSet in
      if int valid < k
      then Some (Wrapf ''%w: required %d, got %d'' [k, int valid] ErrQuorumNotMet)
      else None)"

section \<open>The signed byte strings determine what was signed\<close>

lemma inj_arr32: "inj (arr32 :: 256 word \<Rightarrow> bytes)"
  by (rule injI) simp

lemma length_tx_stream [wire]:
  "length (tx_stream seq nonce from to amt ps) = 88 + 32 * length ps"
proof -
  have "length (concat (map arr32 ps)) = 32 * length ps"
    by (induction ps) auto
  then show ?thesis by (simp add: tx_stream_def)
qed

text \<open>C40. The byte stream a transaction hash is computed over determines every field that goes into
  it: two transactions that differ in sequence, nonce, sender, receiver, amount or parents are
  hashed over different streams.\<close>

theorem tx_stream_inject:
  "tx_stream s n f t a ps = tx_stream s' n' f' t' a' ps' \<longleftrightarrow>
     s = s' \<and> n = n' \<and> f = f' \<and> t = t' \<and> a = a' \<and> ps = ps'"
proof
  assume "tx_stream s n f t a ps = tx_stream s' n' f' t' a' ps'"
  then have "s = s' \<and> n = n' \<and> f = f' \<and> t = t' \<and> a = a'
      \<and> concat (map arr32 ps) = concat (map arr32 ps')"
    by (simp add: tx_stream_def)
  moreover from this have "ps = ps'"
    using concat_map_inj[OF _ _ inj_arr32, of 32] by simp
  ultimately show "s = s' \<and> n = n' \<and> f = f' \<and> t = t' \<and> a = a' \<and> ps = ps'" by blast
qed auto

lemma length_witnessMsg [wire]: "length (witnessMsg h t s) = 65"
  by (simp add: witnessMsg_def)

lemma witnessMsg_inject:
  "witnessMsg h t s = witnessMsg h' t' s' \<longleftrightarrow> h = h' \<and> t = t' \<and> s = s'"
  by (auto simp: witnessMsg_def)

section \<open>A signer: what sign.go asks of keypair.go\<close>

text \<open>
  Signing succeeds for a usable key pair and the signature verifies under its public key. Both
  kinds of signature of sign.go rest on this contract alone.
\<close>

locale signer =
  fixes usable :: "'kp \<Rightarrow> bool"
    and public :: "'kp \<Rightarrow> pubkey"
    and sign :: "'kp \<Rightarrow> bytes \<Rightarrow> signature result"
    and verify :: "pubkey \<Rightarrow> bytes \<Rightarrow> signature \<Rightarrow> bool"
  assumes sign_Ok: "usable kp \<Longrightarrow> \<exists>sig. sign kp m = Ok sig"
    and sign_verifies: "usable kp \<Longrightarrow> sign kp m = Ok sig \<Longrightarrow> verify (public kp) m sig"
begin

lemma sign_then_verify:
  assumes "usable kp"
  obtains sig where "sign kp m = Ok sig" "verify (public kp) m sig"
  using assms sign_Ok sign_verifies by blast

lemma sign_not_Err: "usable kp \<Longrightarrow> is_ok (sign kp m)"
  using sign_Ok by (auto simp: is_ok_iff)

end

text \<open>A key pair is usable when its two halves come from one generated key.\<close>

definition kp_wf :: "crypto_ops \<Rightarrow> keypair \<Rightarrow> bool" where
  "kp_wf C kp \<longleftrightarrow>
     (\<exists>seed. kp_private kp = ed_new_key C seed) \<and> kp_Public kp = ed_public (kp_private kp)"

interpretation kps: signer "\<lambda>kp. ed25519_ok C \<and> kp_wf C kp" kp_Public "Sign C" "Verify C" for C
  by unfold_locales (auto simp: Sign_def Verify_def ed25519_ok_def kp_wf_def PrivateKeySize_def)

lemma Generate_wf: "Generate C rnd = Ok kp \<Longrightarrow> kp_wf C kp"
  by (auto simp: Generate_def kp_wf_def Let_def split: sum.splits)

lemma LoadFromBytes_PrivateBytes:
  "ed25519_ok C \<Longrightarrow> kp_wf C kp \<Longrightarrow> LoadFromBytes (PrivateBytes kp) = Ok kp"
  by (auto simp: LoadFromBytes_def PrivateBytes_def kp_wf_def ed25519_ok_def PrivateKeySize_def)

lemma VerifyTx_None_iff:
  "VerifyTx C tx = None \<longleftrightarrow>
     tx_Hash tx = tx_digest C tx \<and> Verify C (tx_From tx) (arr32 (tx_Hash tx)) (tx_SenderSig tx)"
  by (auto simp: VerifyTx_def)

lemma tx_digest_frame [simp]:
  "tx_digest C (tx\<lparr>tx_Hash := h\<rparr>) = tx_digest C tx"
  "tx_digest C (tx\<lparr>tx_SenderSig := sg\<rparr>) = tx_digest C tx"
  "tx_digest C (tx\<lparr>tx_WitnessSigs := wss\<rparr>) = tx_digest C tx"
  "tx_digest C (tx\<lparr>tx_Status := st\<rparr>) = tx_digest C tx"
  by (simp_all add: tx_digest_def)

lemma SignTx_Ok:
  "SignTx C kp tx = Ok tx' \<longleftrightarrow>
     (\<exists>sig. Sign C kp (arr32 (tx_digest C tx)) = Ok sig
        \<and> tx' = tx\<lparr>tx_Hash := tx_digest C tx, tx_SenderSig := sig\<rparr>)"
  by (auto simp: SignTx_def Let_def bindO_eq_Ok)

text \<open>A concrete instance of the primitives, to show that the hypotheses can hold.\<close>

definition sample_tag :: "pubkey \<Rightarrow> bytes \<Rightarrow> signature" where
  "sample_tag pub m = ucast pub + be_word m"

definition sample_crypto :: crypto_ops where
  "sample_crypto =
     \<lparr>blake2b = be_word,
      ed_new_key = (\<lambda>seed. arr32 (be_word seed) @ arr32 (be_word seed + 1)),
      ed_sign = (\<lambda>priv m. sample_tag (ed_public priv) m),
      ed_verify = (\<lambda>pub m sig. sig = sample_tag pub m)\<rparr>"

lemma sample_crypto_ok: "ed25519_ok sample_crypto"
  by (simp add: ed25519_ok_def sample_crypto_def)

definition sample_key :: keypair where
  "sample_key =
     \<lparr>kp_Public = ed_public (ed_new_key sample_crypto [7]), kp_private = ed_new_key sample_crypto [7]\<rparr>"

lemma sample_key_wf: "kp_wf sample_crypto sample_key"
  by (auto simp: kp_wf_def sample_key_def)

definition sample_tx :: transaction where
  "sample_tx =
     \<lparr>tx_Hash = 0, tx_Sequence = 1, tx_Nonce = 42, tx_From = kp_Public sample_key, tx_To = 5,
      tx_Amount = 1000, tx_SenderSig = 0, tx_ParentHashes = [], tx_WitnessSigs = [],
      tx_CreatedAt = 0, tx_Status = TxPending\<rparr>"

section \<open>Properties\<close>

lemma SignTx_verifies:
  assumes "ed25519_ok C" and "kp_wf C kp" and "tx_From tx = kp_Public kp"
  shows "\<exists>sig. SignTx C kp tx = Ok (tx\<lparr>tx_Hash := tx_digest C tx, tx_SenderSig := sig\<rparr>)
    \<and> VerifyTx C (tx\<lparr>tx_Hash := tx_digest C tx, tx_SenderSig := sig\<rparr>) = None"
proof -
  obtain sig where "Sign C kp (arr32 (tx_digest C tx)) = Ok sig"
    and "Verify C (kp_Public kp) (arr32 (tx_digest C tx)) sig"
    using kps.sign_then_verify[of C kp] assms(1,2) by blast
  with assms(3) show ?thesis by (auto simp: SignTx_Ok VerifyTx_None_iff)
qed

text \<open>Signing then verifying succeeds: for a usable key pair and a transaction from its own
  public key, \<open>SignTx\<close> returns a transaction that differs from its input only in hash and sender
  signature, and \<open>VerifyTx\<close> accepts it.\<close>

theorem SignTx_VerifyTx:
  assumes "ed25519_ok C" and "kp_wf C kp" and "tx_From tx = kp_Public kp"
  shows "\<exists>sig. SignTx C kp tx = Ok (tx\<lparr>tx_Hash := tx_digest C tx, tx_SenderSig := sig\<rparr>)
    \<and> VerifyTx C (tx\<lparr>tx_Hash := tx_digest C tx, tx_SenderSig := sig\<rparr>) = None"
  using SignTx_verifies[OF assms] .

theorem SignTx_VerifyTx_witness:
  "\<exists>sig. VerifyTx sample_crypto
     (sample_tx\<lparr>tx_Hash := tx_digest sample_crypto sample_tx, tx_SenderSig := sig\<rparr>) = None"
  using SignTx_VerifyTx[OF sample_crypto_ok sample_key_wf, of sample_tx]
  by (auto simp: sample_tx_def)

lemma SignAsWitness_Verify:
  assumes "ed25519_ok C" and "kp_wf C kp"
  shows "\<exists>ws. SignAsWitness C kp h tip seen = Ok ws \<and> VerifyWitnessSig C ws h = None
    \<and> ws_WitnessPubKey ws = kp_Public kp \<and> ws_DAGTipAtSign ws = tip \<and> ws_NonceLockSeen ws = seen"
proof -
  obtain sig where "Sign C kp (witnessMsg h tip seen) = Ok sig"
    and "Verify C (kp_Public kp) (witnessMsg h tip seen) sig"
    using kps.sign_then_verify[of C kp] assms by blast
  then show ?thesis by (simp add: SignAsWitness_def VerifyWitnessSig_def)
qed

text \<open>
  The witnesses whose signatures count: active, with a signature on this transaction that
  verifies and that says the nonce lock was seen.
\<close>

definition good_witnesses ::
  "crypto_ops \<Rightarrow> witness_signature list \<Rightarrow> hash32 \<Rightarrow> pubkey set \<Rightarrow> pubkey set" where
  "good_witnesses C sigs txHash validSet =
     {pk \<in> validSet. \<exists>ws \<in> set sigs. ws_WitnessPubKey ws = pk \<and> ws_NonceLockSeen ws
        \<and> VerifyWitnessSig C ws txHash = None}"

lemma good_witnesses_simps [simp]:
  "good_witnesses C [] h V = {}"
  "good_witnesses C (ws # sigs) h V =
     (if ws_WitnessPubKey ws \<in> V \<and> ws_NonceLockSeen ws \<and> VerifyWitnessSig C ws h = None
      then insert (ws_WitnessPubKey ws) (good_witnesses C sigs h V)
      else good_witnesses C sigs h V)"
  by (auto simp: good_witnesses_def)

lemma finite_good_witnesses [simp]: "finite (good_witnesses C sigs h V)"
  by (induction sigs) auto

lemma good_witnesses_subset: "good_witnesses C sigs h V \<subseteq> ws_WitnessPubKey ` set sigs"
  by (auto simp: good_witnesses_def)

lemma countLoop_card:
  "countLoop C h V sigs counted n = n + card (good_witnesses C sigs h V - counted)"
proof (induction sigs arbitrary: counted n)
  case Nil
  then show ?case by simp
next
  case (Cons ws sigs)
  let ?pk = "ws_WitnessPubKey ws" and ?G = "good_witnesses C sigs h V"
  show ?case
  proof (cases "?pk \<notin> counted \<and> ?pk \<in> V \<and> ws_NonceLockSeen ws \<and> VerifyWitnessSig C ws h = None")
    case True
    then have "insert ?pk ?G - counted = insert ?pk (?G - insert ?pk counted)" by auto
    with True Cons.IH show ?thesis by simp
  next
    case False
    then show ?thesis using Cons.IH by (auto simp: insert_Diff_if)
  qed
qed

lemma countValidSigs_card: "countValidSigs C sigs h V = card (good_witnesses C sigs h V)"
  by (simp add: countValidSigs_def countLoop_card)

text \<open>C3. The quorum check is exact: it passes just when at least \<open>k\<close> different active witnesses
  gave a valid signature with the lock seen; repeated, foreign, unlocked or invalid signatures
  never count, whatever their number and order, and a failure wraps \<open>ErrQuorumNotMet\<close>.\<close>

theorem VerifyQuorum_exact:
  "VerifyQuorum C sigs h V k =
     (if k \<le> int (card (good_witnesses C sigs h V)) then None
      else Some (Wrapf ''%w: required %d, got %d''
        [k, int (card (good_witnesses C sigs h V))] ErrQuorumNotMet))"
  by (simp add: VerifyQuorum_def countValidSigs_card)

lemma VerifyQuorum_None_iff:
  "VerifyQuorum C sigs h V k = None \<longleftrightarrow> k \<le> int (card (good_witnesses C sigs h V))"
  by (simp add: VerifyQuorum_def countValidSigs_card Let_def)

text \<open>A public key printed in hexadecimal parses back to itself, and whatever
  \<open>PubKeyFromHex\<close> accepts is the spelling of the 32 bytes of the key it returns.\<close>

theorem PubKeyFromHex_roundtrip:
  "PubKeyFromHex (hex_encode (arr32 pk)) = Ok pk \<and>
   (PubKeyFromHex s = Ok pk \<longleftrightarrow> hex_decode s = Some (arr32 pk))"
proof -
  have "PubKeyFromHex s = Ok pk \<longleftrightarrow> hex_decode s = Some (arr32 pk)" for s
    by (auto simp: PubKeyFromHex_def be_bytes_be_word split: option.splits if_splits)
  then show ?thesis by simp
qed

end
