(* ===== verification/Db.thy ===== *)
theory Db
  imports Core "HOL-Library.AList" "HOL-Library.List_Lexorder"
begin

text \<open>
  \<^verbatim>\<open>internal/storage/db.go\<close>: the wrapper over BadgerDB. BadgerDB itself is the parameter
  \<open>badger\<close>; its documented behaviour is \<open>badger_ok\<close>, stated over an abstraction of a database (and
  of an open transaction) as a map from keys to values with an optional expiry time. The wrapper's
  promise to the stores is the locale \<open>kv_store\<close>, interpreted on the wrapper.
\<close>

section \<open>BadgerDB as a parameter\<close>

text \<open>
  An iterator item or a found key is read with \<^verbatim>\<open>ValueCopy\<close>, which yields a slice (\<open>None\<close> is
  nil) and an error. \<open>bg_view\<close> is the transaction \<^verbatim>\<open>View\<close> hands to its function (or \<^verbatim>\<open>View\<close>'s own
  error), \<open>bg_update\<close> is \<^verbatim>\<open>Update\<close>; both get the clock reading of the call. \<open>txn_seek\<close> is what an
  iterator yields from the sought key on.
\<close>

type_synonym item = "bytes option \<times> error option"

record ('db, 'txn) badger =
  bg_open :: "string \<Rightarrow> bool \<Rightarrow> error + 'db"
  bg_view :: "'db \<Rightarrow> gtime \<Rightarrow> error + 'txn"
  bg_update :: "'db \<Rightarrow> gtime \<Rightarrow> ('txn \<Rightarrow> error option \<times> 'txn) \<Rightarrow> error option \<times> 'db"
  txn_get :: "'txn \<Rightarrow> bytes \<Rightarrow> error + item"
  txn_set :: "'txn \<Rightarrow> bytes \<Rightarrow> bytes \<Rightarrow> error option \<times> 'txn"
  txn_set_ttl :: "'txn \<Rightarrow> bytes \<Rightarrow> bytes \<Rightarrow> duration \<Rightarrow> error option \<times> 'txn"
  txn_delete :: "'txn \<Rightarrow> bytes \<Rightarrow> error option \<times> 'txn"
  txn_seek :: "'txn \<Rightarrow> bytes \<Rightarrow> (bytes \<times> item) list"

section \<open>The wrapper\<close>

record options =
  op_Path :: string
  op_InMemory :: bool

definition DB_Open :: "('db, 'txn) badger \<Rightarrow> options \<Rightarrow> 'db result" where
  "DB_Open B opts =
     (case bg_open B (op_Path opts) (op_InMemory opts) of
        Inl e \<Rightarrow> Err (Wrapf ''open db: %w'' [] e)
      | Inr db \<Rightarrow> Ok db)"

text \<open>\<^verbatim>\<open>Get\<close> returns the pair (value, error); an absent key is \<^verbatim>\<open>nil, nil\<close>.\<close>

definition DB_Get :: "('db, 'txn) badger \<Rightarrow> 'db \<Rightarrow> gtime \<Rightarrow> bytes \<Rightarrow> bytes option \<times> error option" where
  "DB_Get B db now key =
     (let (val, err) =
        (case bg_view B db now of
           Inl e \<Rightarrow> (None, Some e)
         | Inr txn \<Rightarrow> (case txn_get B txn key of Inl e \<Rightarrow> (None, Some e) | Inr it \<Rightarrow> it))
      in if err = Some ErrKeyNotFound then (None, None) else (val, err))"

definition DB_Set :: "('db, 'txn) badger \<Rightarrow> 'db \<Rightarrow> gtime \<Rightarrow> bytes \<Rightarrow> bytes \<Rightarrow> error option \<times> 'db" where
  "DB_Set B db now key val = bg_update B db now (\<lambda>txn. txn_set B txn key val)"

definition DB_SetWithTTL ::
  "('db, 'txn) badger \<Rightarrow> 'db \<Rightarrow> gtime \<Rightarrow> bytes \<Rightarrow> bytes \<Rightarrow> duration \<Rightarrow> error option \<times> 'db" where
  "DB_SetWithTTL B db now key val ttl = bg_update B db now (\<lambda>txn. txn_set_ttl B txn key val ttl)"

definition DB_AtomicWrite ::
  "('db, 'txn) badger \<Rightarrow> 'db \<Rightarrow> gtime \<Rightarrow> ('txn \<Rightarrow> error option \<times> 'txn) \<Rightarrow> error option \<times> 'db" where
  "DB_AtomicWrite B db now fn = bg_update B db now fn"

definition DB_Delete :: "('db, 'txn) badger \<Rightarrow> 'db \<Rightarrow> gtime \<Rightarrow> bytes \<Rightarrow> error option \<times> 'db" where
  "DB_Delete B db now key = bg_update B db now (\<lambda>txn. txn_delete B txn key)"

text \<open>Writes one after the other, stopping at the first error.\<close>

fun txn_sets ::
  "('db, 'txn) badger \<Rightarrow> (bytes \<times> bytes) list \<Rightarrow> 'txn \<Rightarrow> error option \<times> 'txn" where
  "txn_sets B [] txn = (None, txn)"
| "txn_sets B ((k, v) # kvs) txn =
     (case txn_set B txn k v of
        (Some e, txn') \<Rightarrow> (Some e, txn')
      | (None, txn') \<Rightarrow> txn_sets B kvs txn')"

text \<open>\<^verbatim>\<open>SetBatch\<close> ranges over a map: the list is its pairs in the order Go visits them.\<close>

definition DB_SetBatch ::
  "('db, 'txn) badger \<Rightarrow> 'db \<Rightarrow> gtime \<Rightarrow> (bytes \<times> bytes) list \<Rightarrow> error option \<times> 'db" where
  "DB_SetBatch B db now pairs = bg_update B db now (txn_sets B pairs)"

definition is_prefix :: "bytes \<Rightarrow> bytes \<Rightarrow> bool" where
  "is_prefix p k \<longleftrightarrow> take (length p) k = p"

definition DB_HasPrefix :: "('db, 'txn) badger \<Rightarrow> 'db \<Rightarrow> gtime \<Rightarrow> bytes \<Rightarrow> bool" where
  "DB_HasPrefix B db now p =
     (case bg_view B db now of
        Inl e \<Rightarrow> False
      | Inr txn \<Rightarrow> (case txn_seek B txn p of [] \<Rightarrow> False | (k, _) # _ \<Rightarrow> is_prefix p k))"

fun scan_loop :: "bytes \<Rightarrow> (bytes \<times> item) list \<Rightarrow> bytes option list \<Rightarrow> bytes option list \<times> error option" where
  "scan_loop p [] vals = (vals, None)"
| "scan_loop p ((k, v, e) # its) vals =
     (if is_prefix p k
      then (case e of
              Some err \<Rightarrow> (vals, Some err)
            | None \<Rightarrow> scan_loop p its (vals @ [v]))
      else (vals, None))"

definition DB_ScanPrefix ::
  "('db, 'txn) badger \<Rightarrow> 'db \<Rightarrow> gtime \<Rightarrow> bytes \<Rightarrow> bytes option list \<times> error option" where
  "DB_ScanPrefix B db now p =
     (case bg_view B db now of
        Inl e \<Rightarrow> ([], Some e)
      | Inr txn \<Rightarrow> scan_loop p (txn_seek B txn p) [])"

section \<open>What BadgerDB documents\<close>

type_synonym entry = "bytes \<times> gtime option"
type_synonym store = "bytes \<Rightarrow> entry option"

text \<open>A key reads as its value until its expiry time, if it has one.\<close>

definition live :: "gtime \<Rightarrow> entry \<Rightarrow> bool" where
  "live now e = (case snd e of None \<Rightarrow> True | Some x \<Rightarrow> now < x)"

definition visible :: "gtime \<Rightarrow> store \<Rightarrow> bytes \<Rightarrow> bytes option" where
  "visible now m k =
     (case m k of None \<Rightarrow> None | Some e \<Rightarrow> if live now e then Some (fst e) else None)"

record ('db, 'txn) badger_abs =
  ab_db :: "'db \<Rightarrow> store"
  ab_txn :: "'txn \<Rightarrow> store"
  ab_now :: "'txn \<Rightarrow> gtime"

text \<open>
  A read transaction sees the database as it is, at the time it was opened; \<^verbatim>\<open>View\<close>'s own errors
  are not the key-not-found one.
\<close>

definition view_ok :: "('db, 'txn) badger \<Rightarrow> ('db, 'txn) badger_abs \<Rightarrow> bool" where
  "view_ok B A \<longleftrightarrow>
     (\<forall>db now txn. bg_view B db now = Inr txn \<longrightarrow> ab_txn A txn = ab_db A db \<and> ab_now A txn = now) \<and>
     (\<forall>db now. bg_view B db now \<noteq> Inl ErrKeyNotFound)"

text \<open>
  A lookup finds the visible value (whose copy may still fail to be read, with no slice) or says
  that there is none; any other error says nothing.
\<close>

definition get_ok :: "('db, 'txn) badger \<Rightarrow> ('db, 'txn) badger_abs \<Rightarrow> bool" where
  "get_ok B A \<longleftrightarrow>
     (\<forall>txn k. case txn_get B txn k of
        Inl e \<Rightarrow> e = ErrKeyNotFound \<longrightarrow> visible (ab_now A txn) (ab_txn A txn) k = None
      | Inr (v, None) \<Rightarrow> v \<noteq> None \<and> visible (ab_now A txn) (ab_txn A txn) k = v
      | Inr (v, Some e) \<Rightarrow> v = None \<and> e \<noteq> ErrKeyNotFound)"

text \<open>
  A write in a transaction is seen by that transaction. An entry with a time to live expires at
  a whole second, no later than asked and less than a second before (BadgerDB keeps expiry times
  in Unix seconds).
\<close>

definition set_ok :: "('db, 'txn) badger \<Rightarrow> ('db, 'txn) badger_abs \<Rightarrow> bool" where
  "set_ok B A \<longleftrightarrow>
     (\<forall>txn k v txn'. txn_set B txn k v = (None, txn') \<longrightarrow>
        ab_txn A txn' = (ab_txn A txn)(k \<mapsto> (v, None)) \<and> ab_now A txn' = ab_now A txn) \<and>
     (\<forall>txn k txn'. txn_delete B txn k = (None, txn') \<longrightarrow>
        ab_txn A txn' = (ab_txn A txn)(k := None) \<and> ab_now A txn' = ab_now A txn) \<and>
     (\<forall>txn k v ttl txn'. txn_set_ttl B txn k v ttl = (None, txn') \<longrightarrow>
        (\<exists>x. ab_txn A txn' = (ab_txn A txn)(k \<mapsto> (v, Some x))
           \<and> x \<le> ab_now A txn + ttl \<and> ab_now A txn + ttl < x + Second)
        \<and> ab_now A txn' = ab_now A txn)"

text \<open>
  An update runs its function on a transaction over the current contents. When it returns no
  error the function returned none and its writes are all in the database; when it returns an
  error nothing was written.
\<close>

definition update_ok :: "('db, 'txn) badger \<Rightarrow> ('db, 'txn) badger_abs \<Rightarrow> bool" where
  "update_ok B A \<longleftrightarrow>
     (\<forall>db now fn db'. bg_update B db now fn = (None, db') \<longrightarrow>
        (\<exists>txn txn'. ab_txn A txn = ab_db A db \<and> ab_now A txn = now
           \<and> fn txn = (None, txn') \<and> ab_db A db' = ab_txn A txn')) \<and>
     (\<forall>db now fn e db'. bg_update B db now fn = (Some e, db') \<longrightarrow> ab_db A db' = ab_db A db)"

text \<open>An iterator visits the visible keys from the sought one on, in byte order.\<close>

definition seek_ok :: "('db, 'txn) badger \<Rightarrow> ('db, 'txn) badger_abs \<Rightarrow> bool" where
  "seek_ok B A \<longleftrightarrow>
     (\<forall>txn p. sorted_wrt (<) (map fst (txn_seek B txn p)) \<and>
        set (map fst (txn_seek B txn p))
          = {k. p \<le> k \<and> visible (ab_now A txn) (ab_txn A txn) k \<noteq> None} \<and>
        (\<forall>(k, v, e) \<in> set (txn_seek B txn p).
           e = None \<longrightarrow> v = visible (ab_now A txn) (ab_txn A txn) k))"

definition badger_ok :: "('db, 'txn) badger \<Rightarrow> ('db, 'txn) badger_abs \<Rightarrow> bool" where
  "badger_ok B A \<longleftrightarrow> view_ok B A \<and> get_ok B A \<and> set_ok B A \<and> update_ok B A \<and> seek_ok B A"

lemma visible_update [simp]:
  "visible now (m(k \<mapsto> (v, None))) k' = (if k' = k then Some v else visible now m k')"
  "visible now (m(k := None)) k' = (if k' = k then None else visible now m k')"
  by (auto simp: visible_def live_def)

lemma visible_ttl_update:
  "visible now (m(k \<mapsto> (v, Some x))) k' =
     (if k' = k then (if now < x then Some v else None) else visible now m k')"
  by (auto simp: visible_def live_def)

lemma update_done:
  assumes "badger_ok B A" and "bg_update B db now fn = (None, db')"
  obtains txn txn' where "ab_txn A txn = ab_db A db" "ab_now A txn = now"
    "fn txn = (None, txn')" "ab_db A db' = ab_txn A txn'"
  using assms unfolding badger_ok_def update_ok_def by metis

lemma update_failed:
  "badger_ok B A \<Longrightarrow> bg_update B db now fn = (Some e, db') \<Longrightarrow> ab_db A db' = ab_db A db"
  unfolding badger_ok_def update_ok_def by blast

lemma txn_set_done:
  "badger_ok B A \<Longrightarrow> txn_set B txn k v = (None, txn') \<Longrightarrow>
     ab_txn A txn' = (ab_txn A txn)(k \<mapsto> (v, None)) \<and> ab_now A txn' = ab_now A txn"
  unfolding badger_ok_def set_ok_def by blast

lemma txn_delete_done:
  "badger_ok B A \<Longrightarrow> txn_delete B txn k = (None, txn') \<Longrightarrow>
     ab_txn A txn' = (ab_txn A txn)(k := None)"
  unfolding badger_ok_def set_ok_def by blast

lemma txn_set_ttl_done:
  "badger_ok B A \<Longrightarrow> txn_set_ttl B txn k v ttl = (None, txn') \<Longrightarrow>
     \<exists>x. ab_txn A txn' = (ab_txn A txn)(k \<mapsto> (v, Some x))
       \<and> x \<le> ab_now A txn + ttl \<and> ab_now A txn + ttl < x + Second"
  unfolding badger_ok_def set_ok_def by blast

primrec store_sets :: "(bytes \<times> bytes) list \<Rightarrow> store \<Rightarrow> store" where
  "store_sets [] m = m"
| "store_sets (kv # kvs) m = store_sets kvs (m(fst kv \<mapsto> (snd kv, None)))"

lemma txn_sets_done:
  assumes "badger_ok B A" and "txn_sets B kvs txn = (None, txn')"
  shows "ab_txn A txn' = store_sets kvs (ab_txn A txn) \<and> ab_now A txn' = ab_now A txn"
  using assms(2)
proof (induction kvs arbitrary: txn)
  case Nil
  then show ?case by simp
next
  case (Cons kv kvs)
  obtain k v where kv: "kv = (k, v)" by (cases kv)
  with Cons.prems obtain t where t: "txn_set B txn k v = (None, t)" "txn_sets B kvs t = (None, txn')"
    by (auto split: prod.splits option.splits)
  show ?case
    using Cons.IH[OF t(2)] txn_set_done[OF assms(1) t(1)] by (simp add: kv fun_upd_def)
qed

lemma store_sets_notin: "k \<notin> fst ` set kvs \<Longrightarrow> store_sets kvs m k = m k"
  by (induction kvs arbitrary: m) auto

lemma visible_store_sets:
  "visible now (store_sets kvs m) k =
     (case map_of (rev kvs) k of Some v \<Rightarrow> Some v | None \<Rightarrow> visible now m k)"
proof (induction kvs arbitrary: m)
  case Nil
  then show ?case by simp
next
  case (Cons kv kvs)
  show ?case
    by (cases "map_of (rev kvs) k") (simp_all add: Cons.IH map_add_def split: option.splits)
qed

section \<open>The interface the stores rely on\<close>

text \<open>
  What the stores ask of the wrapper. \<open>contents\<close> is the map a database stands for, \<open>sound\<close> says
  that the database behaves. A read with no error is the visible value; a read error comes with
  a nil slice; a write either happens or reports an error and changes nothing.
\<close>

locale kv_store =
  fixes sound :: "'db \<Rightarrow> bool"
    and contents :: "'db \<Rightarrow> store"
    and get :: "'db \<Rightarrow> gtime \<Rightarrow> bytes \<Rightarrow> bytes option \<times> error option"
    and set1 :: "'db \<Rightarrow> gtime \<Rightarrow> bytes \<Rightarrow> bytes \<Rightarrow> error option \<times> 'db"
    and set_ttl :: "'db \<Rightarrow> gtime \<Rightarrow> bytes \<Rightarrow> bytes \<Rightarrow> duration \<Rightarrow> error option \<times> 'db"
    and delete :: "'db \<Rightarrow> gtime \<Rightarrow> bytes \<Rightarrow> error option \<times> 'db"
    and set_all :: "'db \<Rightarrow> gtime \<Rightarrow> (bytes \<times> bytes) list \<Rightarrow> error option \<times> 'db"
  assumes get_value: "sound db \<Longrightarrow> get db now k = (w, None) \<Longrightarrow> w = visible now (contents db) k"
    and get_error: "sound db \<Longrightarrow> get db now k = (w, Some e) \<Longrightarrow> w = None"
    and set1_done: "sound db \<Longrightarrow> set1 db now k v = (None, db') \<Longrightarrow>
      contents db' = (contents db)(k \<mapsto> (v, None))"
    and set1_failed: "sound db \<Longrightarrow> set1 db now k v = (Some e, db') \<Longrightarrow> contents db' = contents db"
    and set1_sound: "sound db \<Longrightarrow> sound (snd (set1 db now k v))"
    and set_ttl_done: "sound db \<Longrightarrow> set_ttl db now k v ttl = (None, db') \<Longrightarrow>
      \<exists>x. contents db' = (contents db)(k \<mapsto> (v, Some x)) \<and> x \<le> now + ttl \<and> now + ttl < x + Second"
    and set_ttl_failed: "sound db \<Longrightarrow> set_ttl db now k v ttl = (Some e, db') \<Longrightarrow>
      contents db' = contents db"
    and set_ttl_sound: "sound db \<Longrightarrow> sound (snd (set_ttl db now k v ttl))"
    and delete_done: "sound db \<Longrightarrow> delete db now k = (None, db') \<Longrightarrow>
      contents db' = (contents db)(k := None)"
    and delete_failed: "sound db \<Longrightarrow> delete db now k = (Some e, db') \<Longrightarrow> contents db' = contents db"
    and delete_sound: "sound db \<Longrightarrow> sound (snd (delete db now k))"
    and set_all_done: "sound db \<Longrightarrow> set_all db now kvs = (None, db') \<Longrightarrow>
      contents db' = store_sets kvs (contents db)"
    and set_all_failed: "sound db \<Longrightarrow> set_all db now kvs = (Some e, db') \<Longrightarrow>
      contents db' = contents db"
    and set_all_sound: "sound db \<Longrightarrow> sound (snd (set_all db now kvs))"
begin

lemma get_Some: "sound db \<Longrightarrow> get db now k = (Some v, e) \<Longrightarrow>
    visible now (contents db) k = Some v \<and> e = None"
  using get_error[of db now k "Some v"] get_value[of db now k "Some v"] by (cases e) auto

lemma get_after_set1:
  assumes "sound db" and "set1 db now k v = (None, db')" and "get db' now' k' = (w, None)"
  shows "w = (if k' = k then Some v else visible now' (contents db) k')"
proof -
  have "sound db'" using set1_sound[OF assms(1), of now k v] assms(2) by simp
  with assms show ?thesis using get_value[of db' now' k' w] set1_done[of db now k v db'] by simp
qed

lemma get_after_delete:
  assumes "sound db" and "delete db now k = (None, db')" and "get db' now' k = (w, None)"
  shows "w = None"
proof -
  have "sound db'" using delete_sound[OF assms(1), of now k] assms(2) by simp
  with assms show ?thesis using get_value[of db' now' k w] delete_done[of db now k db'] by simp
qed

text \<open>An entry with a time to live is readable for all but the last second of it, and not after.\<close>

lemma get_after_set_ttl:
  assumes "sound db" and "set_ttl db now k v ttl = (None, db')" and "get db' now' k = (w, None)"
  shows "now' \<le> now + ttl - Second \<Longrightarrow> w = Some v" and "now + ttl \<le> now' \<Longrightarrow> w = None"
proof -
  have "sound db'" using set_ttl_sound[OF assms(1), of now k v ttl] assms(2) by simp
  then have w: "w = visible now' (contents db') k" using assms(3) get_value by blast
  from set_ttl_done[OF assms(1,2)] obtain x where
    "contents db' = (contents db)(k \<mapsto> (v, Some x))" "x \<le> now + ttl" "now + ttl < x + Second"
    by blast
  with w show "now' \<le> now + ttl - Second \<Longrightarrow> w = Some v" "now + ttl \<le> now' \<Longrightarrow> w = None"
    by (simp_all add: visible_ttl_update)
qed

end

lemma txn_get_cases:
  assumes "badger_ok B A" and "bg_view B db now = Inr txn"
  shows "case txn_get B txn k of
        Inl e \<Rightarrow> e = ErrKeyNotFound \<longrightarrow> visible now (ab_db A db) k = None
      | Inr (v, None) \<Rightarrow> v \<noteq> None \<and> visible now (ab_db A db) k = v
      | Inr (v, Some e) \<Rightarrow> v = None \<and> e \<noteq> ErrKeyNotFound"
proof -
  have t: "ab_txn A txn = ab_db A db" "ab_now A txn = now"
    using assms by (auto simp: badger_ok_def view_ok_def)
  have "get_ok B A" using assms(1) by (simp add: badger_ok_def)
  note this[unfolded get_ok_def, THEN spec[of _ txn], THEN spec[of _ k]]
  then show ?thesis by (simp only: t)
qed

lemma DB_Get_cases:
  assumes "badger_ok B A"
  shows "case DB_Get B db now k of
      (v, None) \<Rightarrow> v = visible now (ab_db A db) k
    | (v, Some e) \<Rightarrow> v = None"
proof (cases "bg_view B db now")
  case (Inl e)
  moreover have "bg_view B db now \<noteq> Inl ErrKeyNotFound"
    using assms by (simp add: badger_ok_def view_ok_def)
  ultimately show ?thesis by (auto simp: DB_Get_def)
next
  case view: (Inr txn)
  show ?thesis
  proof (cases "txn_get B txn k")
    case (Inl e)
    with view txn_get_cases[OF assms view, of k] show ?thesis by (simp add: DB_Get_def)
  next
    case (Inr it)
    obtain v e where "it = (v, e)" by (cases it)
    with Inr view txn_get_cases[OF assms view, of k] show ?thesis
      by (cases e) (auto simp: DB_Get_def)
  qed
qed

lemma DB_Get_value:
  "badger_ok B A \<Longrightarrow> DB_Get B db now k = (v, None) \<Longrightarrow> v = visible now (ab_db A db) k"
  by (drule DB_Get_cases[where db = db and now = now and k = k]) simp

lemma DB_Get_error: "badger_ok B A \<Longrightarrow> DB_Get B db now k = (v, Some e) \<Longrightarrow> v = None"
  by (drule DB_Get_cases[where db = db and now = now and k = k]) simp

lemma DB_Set_done:
  assumes "badger_ok B A" and "DB_Set B db now k v = (None, db')"
  shows "ab_db A db' = (ab_db A db)(k \<mapsto> (v, None))"
proof -
  from update_done[OF assms(1) assms(2)[unfolded DB_Set_def]] obtain txn txn'
    where t: "ab_txn A txn = ab_db A db" "ab_now A txn = now"
      "txn_set B txn k v = (None, txn')" "ab_db A db' = ab_txn A txn'" .
  with txn_set_done[OF assms(1) t(3)] show ?thesis by simp
qed

lemma DB_SetWithTTL_done:
  assumes "badger_ok B A" and "DB_SetWithTTL B db now k v ttl = (None, db')"
  shows "\<exists>x. ab_db A db' = (ab_db A db)(k \<mapsto> (v, Some x)) \<and> x \<le> now + ttl \<and> now + ttl < x + Second"
proof -
  from update_done[OF assms(1) assms(2)[unfolded DB_SetWithTTL_def]] obtain txn txn'
    where t: "ab_txn A txn = ab_db A db" "ab_now A txn = now"
      "txn_set_ttl B txn k v ttl = (None, txn')" "ab_db A db' = ab_txn A txn'" .
  with txn_set_ttl_done[OF assms(1) t(3)] show ?thesis by simp
qed

lemma DB_Delete_done:
  assumes "badger_ok B A" and "DB_Delete B db now k = (None, db')"
  shows "ab_db A db' = (ab_db A db)(k := None)"
proof -
  from update_done[OF assms(1) assms(2)[unfolded DB_Delete_def]] obtain txn txn'
    where t: "ab_txn A txn = ab_db A db" "ab_now A txn = now"
      "txn_delete B txn k = (None, txn')" "ab_db A db' = ab_txn A txn'" .
  with txn_delete_done[OF assms(1) t(3)] show ?thesis by simp
qed

lemma DB_SetBatch_done:
  assumes "badger_ok B A" and "DB_SetBatch B db now kvs = (None, db')"
  shows "ab_db A db' = store_sets kvs (ab_db A db)"
proof -
  from update_done[OF assms(1) assms(2)[unfolded DB_SetBatch_def]] obtain txn txn'
    where t: "ab_txn A txn = ab_db A db" "ab_now A txn = now"
      "txn_sets B kvs txn = (None, txn')" "ab_db A db' = ab_txn A txn'" .
  with txn_sets_done[OF assms(1) t(3)] show ?thesis by simp
qed

lemmas DB_write_defs = DB_Set_def DB_SetWithTTL_def DB_Delete_def DB_SetBatch_def DB_AtomicWrite_def

text \<open>The wrapper keeps the promise, for every BadgerDB that behaves as documented.\<close>

interpretation dbkv: kv_store "\<lambda>db. badger_ok B A" "ab_db A" "DB_Get B" "DB_Set B"
  "DB_SetWithTTL B" "DB_Delete B" "DB_SetBatch B" for B A
  by unfold_locales
    (auto simp: DB_write_defs dest: update_failed DB_Get_value DB_Get_error
      DB_Set_done[unfolded DB_Set_def] DB_SetWithTTL_done[unfolded DB_SetWithTTL_def]
      DB_Delete_done[unfolded DB_Delete_def] DB_SetBatch_done[unfolded DB_SetBatch_def])

section \<open>Iteration\<close>

text \<open>In byte order the keys with a given prefix follow the prefix without a gap.\<close>

lemma is_prefix_Nil [simp]: "is_prefix [] k"
  by (simp add: is_prefix_def)

lemma is_prefix_Cons [simp]:
  "is_prefix (a # p) [] = False"
  "is_prefix (a # p) (b # k) \<longleftrightarrow> a = b \<and> is_prefix p k"
  by (auto simp: is_prefix_def)

lemma is_prefix_le: "is_prefix p k \<Longrightarrow> p \<le> k"
proof (induction p arbitrary: k)
  case Nil
  then show ?case by simp
next
  case (Cons a p)
  then show ?case by (cases k) auto
qed

lemma is_prefix_between:
  "is_prefix p k' \<Longrightarrow> p \<le> k \<Longrightarrow> k \<le> k' \<Longrightarrow> is_prefix p k"
proof (induction p arbitrary: k k')
  case Nil
  then show ?case by simp
next
  case (Cons a p)
  from Cons.prems obtain k1 where k': "k' = a # k1" "is_prefix p k1" by (cases k') auto
  from Cons.prems obtain b k2 where k: "k = b # k2" by (cases k) auto
  from Cons.prems k k' have "a \<le> b" "b \<le> a" by (auto simp: le_less)
  then have "b = a" by simp
  with Cons.prems k k' Cons.IH[of k1 k2] show ?case by simp
qed

lemma scan_loop_takeWhile:
  "scan_loop p its vals = (out, None) \<Longrightarrow>
     out = vals @ map (fst \<circ> snd) (takeWhile (\<lambda>it. is_prefix p (fst it)) its)
     \<and> (\<forall>it \<in> set (takeWhile (\<lambda>it. is_prefix p (fst it)) its). snd (snd it) = None)"
  by (induction p its vals rule: scan_loop.induct) (auto split: if_splits option.splits)

lemma sorted_takeWhile_prefix:
  assumes "sorted_wrt (<) ks" and "\<And>k. k \<in> set ks \<Longrightarrow> p \<le> k"
  shows "set (takeWhile (is_prefix p) ks) = {k \<in> set ks. is_prefix p k}"
  using assms
proof (induction ks)
  case Nil
  then show ?case by simp
next
  case (Cons k ks)
  show ?case
  proof (cases "is_prefix p k")
    case True
    with Cons show ?thesis by auto
  next
    case False
    have "\<not> is_prefix p k'" if "k' \<in> set ks" for k'
    proof -
      from Cons.prems that have "p \<le> k" "k \<le> k'" by (auto simp: less_imp_le)
      with False is_prefix_between[of p k' k] show ?thesis by blast
    qed
    with False show ?thesis by auto
  qed
qed

lemma sorted_wrt_takeWhile: "sorted_wrt P xs \<Longrightarrow> sorted_wrt P (takeWhile Q xs)"
  by (metis sorted_wrt_append takeWhile_dropWhile_id)

lemma map_fst_takeWhile: "map fst (takeWhile (\<lambda>it. P (fst it)) xs) = takeWhile P (map fst xs)"
  by (induction xs) auto

text \<open>A prefix scan that reports no error returns exactly the values of the visible keys with
  that prefix, each once and in byte order of the keys.\<close>

theorem ScanPrefix_exact:
  assumes "badger_ok B A" and "DB_ScanPrefix B db now p = (vals, None)"
  shows "\<exists>ks. sorted_wrt (<) ks \<and> vals = map (visible now (ab_db A db)) ks
    \<and> set ks = {k. is_prefix p k \<and> visible now (ab_db A db) k \<noteq> None}"
proof -
  from assms(2) obtain txn where view: "bg_view B db now = Inr txn"
    and scan: "scan_loop p (txn_seek B txn p) [] = (vals, None)"
    by (auto simp: DB_ScanPrefix_def split: sum.splits)
  have t: "ab_txn A txn = ab_db A db" "ab_now A txn = now"
    using assms(1) view by (auto simp: badger_ok_def view_ok_def)
  let ?its = "txn_seek B txn p" and ?vis = "visible now (ab_db A db)"
  let ?tw = "takeWhile (\<lambda>it. is_prefix p (fst it)) ?its"
  have "seek_ok B A" using assms(1) by (simp add: badger_ok_def)
  note this[unfolded seek_ok_def, THEN spec[of _ txn], THEN spec[of _ p], unfolded t]
  then have sorted: "sorted_wrt (<) (map fst ?its)"
    and keys: "set (map fst ?its) = {k. p \<le> k \<and> ?vis k \<noteq> None}"
    and item: "\<And>k v e. (k, v, e) \<in> set ?its \<Longrightarrow> e = None \<Longrightarrow> v = ?vis k"
    by auto
  from scan_loop_takeWhile[OF scan] have vals: "vals = map (fst \<circ> snd) ?tw"
    and noerr: "\<forall>it \<in> set ?tw. snd (snd it) = None" by simp_all
  have "fst (snd it) = ?vis (fst it)" if "it \<in> set ?tw" for it
  proof -
    from that have "it \<in> set ?its" by (auto dest: set_takeWhileD)
    moreover obtain k v e where "it = (k, v, e)" by (cases it)
    moreover have "snd (snd it) = None" using that noerr by blast
    ultimately show ?thesis using item by simp
  qed
  then have "vals = map ?vis (map fst ?tw)" by (simp add: vals)
  moreover have "map fst ?tw = takeWhile (is_prefix p) (map fst ?its)"
    by (rule map_fst_takeWhile)
  moreover have "set (takeWhile (is_prefix p) (map fst ?its)) = {k. is_prefix p k \<and> ?vis k \<noteq> None}"
    using sorted_takeWhile_prefix[OF sorted, of p] keys is_prefix_le[of p] by auto
  ultimately show ?thesis
    using sorted_wrt_takeWhile[OF sorted, of "is_prefix p"] by metis
qed

section \<open>An in-memory instance\<close>

text \<open>
  An association list that behaves as \<open>badger_ok\<close> asks and never fails, the way BadgerDB's
  in-memory mode does: it shows that the hypothesis can hold and lets statements be evaluated.
\<close>

type_synonym mem = "(bytes \<times> entry) list"

definition mem_seek :: "mem \<times> gtime \<Rightarrow> bytes \<Rightarrow> (bytes \<times> item) list" where
  "mem_seek txn p =
     map (\<lambda>k. (k, visible (snd txn) (map_of (fst txn)) k, None))
       (filter (\<lambda>k. p \<le> k \<and> visible (snd txn) (map_of (fst txn)) k \<noteq> None)
         (sort (remdups (map fst (fst txn)))))"

definition mem_badger :: "(mem, mem \<times> gtime) badger" where
  "mem_badger =
     \<lparr>bg_open = (\<lambda>path inMemory. Inr []),
      bg_view = (\<lambda>db now. Inr (db, now)),
      bg_update = (\<lambda>db now fn.
        case fn (db, now) of (Some e, txn) \<Rightarrow> (Some e, db) | (None, txn) \<Rightarrow> (None, fst txn)),
      txn_get = (\<lambda>txn k. case visible (snd txn) (map_of (fst txn)) k of
        None \<Rightarrow> Inl ErrKeyNotFound | Some v \<Rightarrow> Inr (Some v, None)),
      txn_set = (\<lambda>txn k v. (None, (AList.update k (v, None) (fst txn), snd txn))),
      txn_set_ttl = (\<lambda>txn k v ttl.
        (None, (AList.update k (v, Some ((snd txn + ttl) div Second * Second)) (fst txn), snd txn))),
      txn_delete = (\<lambda>txn k. (None, (AList.delete k (fst txn), snd txn))),
      txn_seek = mem_seek\<rparr>"

definition mem_abs :: "(mem, mem \<times> gtime) badger_abs" where
  "mem_abs = \<lparr>ab_db = map_of, ab_txn = (\<lambda>txn. map_of (fst txn)), ab_now = snd\<rparr>"

lemma mem_seek_ok: "seek_ok mem_badger mem_abs"
proof -
  have "sorted_wrt (<) (sort (remdups ks))" for ks :: "bytes list"
    by (simp add: strict_sorted_iff)
  then have "sorted_wrt (<) (filter P (sort (remdups ks)))" for P and ks :: "bytes list"
    using sorted_wrt_filter by blast
  moreover have "k \<in> fst ` set al" if "visible now (map_of al) k = Some v" for now al k v
    using that by (auto simp: visible_def split: option.splits dest: map_of_SomeD intro: rev_image_eqI)
  ultimately show ?thesis
    by (auto simp: seek_ok_def mem_badger_def mem_abs_def mem_seek_def comp_def)
qed

lemma mem_badger_ok: "badger_ok mem_badger mem_abs"
proof -
  have "view_ok mem_badger mem_abs" by (simp add: view_ok_def mem_badger_def mem_abs_def)
  moreover have "get_ok mem_badger mem_abs"
    by (simp add: get_ok_def mem_badger_def mem_abs_def split: option.splits)
  moreover have "set_ok mem_badger mem_abs"
    by (auto simp: set_ok_def mem_badger_def mem_abs_def update_conv' delete_conv' minus_div_mult_eq_mod
      intro!: exI[of _ "_ div 1000000000 * 1000000000"])
  moreover have "update_ok mem_badger mem_abs"
    by (auto simp: update_ok_def mem_badger_def mem_abs_def split: prod.splits option.splits)
  ultimately show ?thesis by (simp add: badger_ok_def mem_seek_ok)
qed

definition sample_db :: mem where
  "sample_db = [([9, 1], [3], None), ([9], [4], None), ([8], [5], None)]"

theorem ScanPrefix_exact_witness:
  "\<exists>ks. sorted_wrt (<) ks \<and> [Some [4], Some [3]] = map (visible 0 (map_of sample_db)) ks
    \<and> set ks = {k. is_prefix [9] k \<and> visible 0 (map_of sample_db) k \<noteq> None}"
proof -
  have "DB_ScanPrefix mem_badger sample_db 0 [9] = ([Some [4], Some [3]], None)"
    by code_simp
  from ScanPrefix_exact[OF mem_badger_ok this] show ?thesis
    by (simp add: mem_abs_def)
qed

end
