(* ===== verification/Keys.thy ===== *)
theory Keys
  imports Core
begin

text \<open>
  The key layout of \<^verbatim>\<open>internal/storage\<close> (the key helpers of chain.go and snapshot.go): every
  record lives in one flat store under a one-byte tag and fixed-width fields, and two fixed names.
\<close>

definition str_bytes :: "string \<Rightarrow> bytes" where
  "str_bytes s = map of_char s"

definition balKey :: "pubkey \<Rightarrow> bytes" where
  "balKey pk = of_char CHR ''B'' # arr32 pk"

definition seqKey :: "pubkey \<Rightarrow> bytes" where
  "seqKey pk = of_char CHR ''S'' # arr32 pk"

definition txKey :: "pubkey \<Rightarrow> u64 \<Rightarrow> bytes" where
  "txKey pk seq = of_char CHR ''T'' # arr32 pk @ PutUint64 seq"

definition appliedKey :: "hash32 \<Rightarrow> bytes" where
  "appliedKey hash = of_char CHR ''A'' # arr32 hash"

definition rewardPoolKey :: bytes where
  "rewardPoolKey = str_bytes ''reward_pool''"

definition snapKey :: "pubkey \<Rightarrow> bytes" where
  "snapKey pk = of_char CHR ''P'' # arr32 pk"

definition activeWitnessesKey :: bytes where
  "activeWitnessesKey = str_bytes ''active_witnesses''"

text \<open>\<^verbatim>\<open>nonceLockKey\<close> writes the nonce byte by byte: \<^verbatim>\<open>key[33+i] = byte(nonce >> (56 - 8*i))\<close>.\<close>

definition nonceLockKey :: "pubkey \<Rightarrow> u64 \<Rightarrow> bytes" where
  "nonceLockKey pk nonce =
     of_char CHR ''N'' # arr32 pk @ map (\<lambda>i. ucast (drop_bit (56 - 8 * i) nonce)) [0..<8]"

lemmas key_defs = balKey_def seqKey_def txKey_def appliedKey_def rewardPoolKey_def snapKey_def
  activeWitnessesKey_def nonceLockKey_def str_bytes_def

lemma nonce_loop_PutUint64:
  "map (\<lambda>i. ucast (drop_bit (56 - 8 * i) nonce)) [0..<8] = PutUint64 nonce"
  by (simp add: PutUint64_def upt_rec numeral_eq_Suc)

section \<open>The keys of the store as a data type\<close>

datatype key =
    KBal pubkey | KSeq pubkey | KTx pubkey u64 | KApplied hash32 | KPool
  | KSnap pubkey | KWitnesses | KNonce pubkey u64

primrec key_bytes :: "key \<Rightarrow> bytes" where
  "key_bytes (KBal pk) = balKey pk"
| "key_bytes (KSeq pk) = seqKey pk"
| "key_bytes (KTx pk s) = txKey pk s"
| "key_bytes (KApplied h) = appliedKey h"
| "key_bytes KPool = rewardPoolKey"
| "key_bytes (KSnap pk) = snapKey pk"
| "key_bytes KWitnesses = activeWitnessesKey"
| "key_bytes (KNonce pk n) = nonceLockKey pk n"

lemma key_bytes_injD: "key_bytes k = key_bytes k' \<Longrightarrow> k = k'"
  by (cases k; cases k') (simp_all add: key_defs nonce_loop_PutUint64)

text \<open>The key layout is collision-free: two different records never share a key, so a write
  to a balance, sequence, transaction, applied mark, reward pool, snapshot, witness list or nonce
  lock never touches another one.\<close>

theorem key_bytes_inject: "key_bytes k = key_bytes k' \<longleftrightarrow> k = k'"
  by (auto dest: key_bytes_injD)

lemma keys_distinct [simp]:
  "balKey p = balKey p' \<longleftrightarrow> p = p'" "seqKey p = seqKey p' \<longleftrightarrow> p = p'"
  "txKey p s = txKey p' s' \<longleftrightarrow> p = p' \<and> s = s'" "appliedKey h = appliedKey h' \<longleftrightarrow> h = h'"
  "snapKey p = snapKey p' \<longleftrightarrow> p = p'"
  "nonceLockKey p s = nonceLockKey p' s' \<longleftrightarrow> p = p' \<and> s = s'"
  "balKey p \<noteq> seqKey p'" "balKey p \<noteq> txKey p' s" "balKey p \<noteq> appliedKey h"
  "balKey p \<noteq> rewardPoolKey" "balKey p \<noteq> snapKey p'" "balKey p \<noteq> activeWitnessesKey"
  "balKey p \<noteq> nonceLockKey p' s"
  "seqKey p \<noteq> balKey p'" "seqKey p \<noteq> txKey p' s" "seqKey p \<noteq> appliedKey h"
  "seqKey p \<noteq> rewardPoolKey" "seqKey p \<noteq> snapKey p'" "seqKey p \<noteq> activeWitnessesKey"
  "seqKey p \<noteq> nonceLockKey p' s"
  "txKey p s \<noteq> balKey p'" "txKey p s \<noteq> seqKey p'" "txKey p s \<noteq> appliedKey h"
  "txKey p s \<noteq> rewardPoolKey" "txKey p s \<noteq> snapKey p'" "txKey p s \<noteq> activeWitnessesKey"
  "txKey p s \<noteq> nonceLockKey p' s'"
  "appliedKey h \<noteq> balKey p'" "appliedKey h \<noteq> seqKey p'" "appliedKey h \<noteq> txKey p' s"
  "appliedKey h \<noteq> rewardPoolKey" "appliedKey h \<noteq> snapKey p'"
  "appliedKey h \<noteq> activeWitnessesKey" "appliedKey h \<noteq> nonceLockKey p' s"
  "rewardPoolKey \<noteq> balKey p'" "rewardPoolKey \<noteq> seqKey p'" "rewardPoolKey \<noteq> txKey p' s"
  "rewardPoolKey \<noteq> appliedKey h" "rewardPoolKey \<noteq> snapKey p'"
  "rewardPoolKey \<noteq> activeWitnessesKey" "rewardPoolKey \<noteq> nonceLockKey p' s"
  "snapKey p \<noteq> balKey p'" "snapKey p \<noteq> seqKey p'" "snapKey p \<noteq> txKey p' s"
  "snapKey p \<noteq> appliedKey h" "snapKey p \<noteq> rewardPoolKey" "snapKey p \<noteq> activeWitnessesKey"
  "snapKey p \<noteq> nonceLockKey p' s"
  "activeWitnessesKey \<noteq> balKey p'" "activeWitnessesKey \<noteq> seqKey p'"
  "activeWitnessesKey \<noteq> txKey p' s" "activeWitnessesKey \<noteq> appliedKey h"
  "activeWitnessesKey \<noteq> rewardPoolKey" "activeWitnessesKey \<noteq> snapKey p'"
  "activeWitnessesKey \<noteq> nonceLockKey p' s"
  "nonceLockKey p s \<noteq> balKey p'" "nonceLockKey p s \<noteq> seqKey p'"
  "nonceLockKey p s \<noteq> txKey p' s'" "nonceLockKey p s \<noteq> appliedKey h"
  "nonceLockKey p s \<noteq> rewardPoolKey" "nonceLockKey p s \<noteq> snapKey p'"
  "nonceLockKey p s \<noteq> activeWitnessesKey"
  by (simp_all add: key_defs nonce_loop_PutUint64)

end
