(* ===== verification/Chain.thy ===== *)
theory Chain
  imports Db Keys
begin

text \<open>
  \<^verbatim>\<open>internal/storage/chain.go\<close>: balances, sequences, transactions, applied marks and the reward
  pool over the database wrapper. JSON coding is a parameter of type \<open>codec\<close>. The abstract
  ledger at the end is what the operations are shown to implement.
\<close>

section \<open>Encoded records\<close>

text \<open>
  \<^verbatim>\<open>json.Marshal\<close> and \<^verbatim>\<open>json.Unmarshal\<close> at one type. A value round-trips when whatever it is
  marshalled to unmarshals to it again.
\<close>

record 'a codec =
  marshal :: "'a \<Rightarrow> error + bytes"
  unmarshal :: "bytes \<Rightarrow> error + 'a"

definition roundtrips :: "'a codec \<Rightarrow> 'a \<Rightarrow> bool" where
  "roundtrips J x \<longleftrightarrow> (\<forall>b. marshal J x = Inr b \<longrightarrow> unmarshal J b = Inr x)"

section \<open>Balances, sequences\<close>

text \<open>
  The body \<^verbatim>\<open>GetBalance\<close>, \<^verbatim>\<open>GetLatestSeq\<close> and \<^verbatim>\<open>GetRewardPool\<close> share: an error is returned, an
  absent key reads as 0, and \<^verbatim>\<open>binary.BigEndian.Uint64\<close> reads the value.
\<close>

definition read_u64 :: "('db, 'txn) badger \<Rightarrow> 'db \<Rightarrow> gtime \<Rightarrow> bytes \<Rightarrow> u64 result" where
  "read_u64 B db now key =
     (case DB_Get B db now key of
        (val, Some e) \<Rightarrow> Err e
      | (None, None) \<Rightarrow> Ok 0
      | (Some v, None) \<Rightarrow> Uint64 v)"

definition GetBalance :: "('db, 'txn) badger \<Rightarrow> 'db \<Rightarrow> gtime \<Rightarrow> pubkey \<Rightarrow> amount result" where
  "GetBalance B db now pk = read_u64 B db now (balKey pk)"

definition SaveBalance ::
  "('db, 'txn) badger \<Rightarrow> 'db \<Rightarrow> gtime \<Rightarrow> pubkey \<Rightarrow> amount \<Rightarrow> error option \<times> 'db" where
  "SaveBalance B db now pk bal = DB_Set B db now (balKey pk) (PutUint64 bal)"

definition HasBalance :: "('db, 'txn) badger \<Rightarrow> 'db \<Rightarrow> gtime \<Rightarrow> pubkey \<Rightarrow> bool" where
  "HasBalance B db now pk \<longleftrightarrow> fst (DB_Get B db now (balKey pk)) \<noteq> None"

definition GetLatestSeq :: "('db, 'txn) badger \<Rightarrow> 'db \<Rightarrow> gtime \<Rightarrow> pubkey \<Rightarrow> u64 result" where
  "GetLatestSeq B db now pk = read_u64 B db now (seqKey pk)"

definition SaveLatestSeq ::
  "('db, 'txn) badger \<Rightarrow> 'db \<Rightarrow> gtime \<Rightarrow> pubkey \<Rightarrow> u64 \<Rightarrow> error option \<times> 'db" where
  "SaveLatestSeq B db now pk seq = DB_Set B db now (seqKey pk) (PutUint64 seq)"

section \<open>Transactions\<close>

definition SaveTx ::
  "('db, 'txn) badger \<Rightarrow> transaction codec \<Rightarrow> 'db \<Rightarrow> gtime \<Rightarrow> transaction \<Rightarrow> error option \<times> 'db" where
  "SaveTx B J db now tx =
     (case marshal J tx of
        Inl e \<Rightarrow> (Some (Wrapf ''marshal tx: %w'' [] e), db)
      | Inr data \<Rightarrow> DB_Set B db now (txKey (tx_From tx) (tx_Sequence tx)) data)"

text \<open>A nil pointer with a nil error, for a transaction that is not there, is \<open>Ok None\<close>.\<close>

definition GetTx ::
  "('db, 'txn) badger \<Rightarrow> transaction codec \<Rightarrow> 'db \<Rightarrow> gtime \<Rightarrow> pubkey \<Rightarrow> u64 \<Rightarrow>
     transaction option result" where
  "GetTx B J db now from seq =
     (case DB_Get B db now (txKey from seq) of
        (val, Some e) \<Rightarrow> Err e
      | (None, None) \<Rightarrow> Ok None
      | (Some v, None) \<Rightarrow> (case unmarshal J v of Inl e \<Rightarrow> Err e | Inr tx \<Rightarrow> Ok (Some tx)))"

record confirm_batch =
  cb_Tx :: transaction
  cb_SenderBal :: amount
  cb_ReceiverBal :: amount

text \<open>The four writes of \<^verbatim>\<open>ConfirmTxBatch\<close>, in their order, inside one transaction.\<close>

definition batch_writes :: "confirm_batch \<Rightarrow> bytes \<Rightarrow> (bytes \<times> bytes) list" where
  "batch_writes b txData =
     [(balKey (tx_From (cb_Tx b)), PutUint64 (cb_SenderBal b)),
      (balKey (tx_To (cb_Tx b)), PutUint64 (cb_ReceiverBal b)),
      (seqKey (tx_From (cb_Tx b)), PutUint64 (tx_Sequence (cb_Tx b))),
      (txKey (tx_From (cb_Tx b)) (tx_Sequence (cb_Tx b)), txData)]"

definition ConfirmTxBatch ::
  "('db, 'txn) badger \<Rightarrow> transaction codec \<Rightarrow> 'db \<Rightarrow> gtime \<Rightarrow> confirm_batch \<Rightarrow>
     error option \<times> 'db" where
  "ConfirmTxBatch B J db now b =
     (case marshal J (cb_Tx b) of
        Inl e \<Rightarrow> (Some (Wrapf ''marshal tx: %w'' [] e), db)
      | Inr txData \<Rightarrow> DB_AtomicWrite B db now (txn_sets B (batch_writes b txData)))"

section \<open>Applied marks and the reward pool\<close>

definition IsConfirmedTxApplied :: "('db, 'txn) badger \<Rightarrow> 'db \<Rightarrow> gtime \<Rightarrow> hash32 \<Rightarrow> bool" where
  "IsConfirmedTxApplied B db now hash \<longleftrightarrow> fst (DB_Get B db now (appliedKey hash)) \<noteq> None"

definition MarkConfirmedTxApplied ::
  "('db, 'txn) badger \<Rightarrow> 'db \<Rightarrow> gtime \<Rightarrow> hash32 \<Rightarrow> error option \<times> 'db" where
  "MarkConfirmedTxApplied B db now hash = DB_Set B db now (appliedKey hash) [1]"

definition GetRewardPool :: "('db, 'txn) badger \<Rightarrow> 'db \<Rightarrow> gtime \<Rightarrow> amount result" where
  "GetRewardPool B db now = read_u64 B db now rewardPoolKey"

definition AccumulateBond ::
  "('db, 'txn) badger \<Rightarrow> 'db \<Rightarrow> gtime \<Rightarrow> amount \<Rightarrow> (error option \<times> 'db) result" where
  "AccumulateBond B db now bond =
     (case bindO (GetRewardPool B db now) (\<lambda>pool. SafeAdd pool bond) of
        Ok newPool \<Rightarrow> Ok (DB_Set B db now rewardPoolKey (PutUint64 newPool))
      | Err e \<Rightarrow> Ok (Some e, db)
      | Panic \<Rightarrow> Panic
      | Blocked \<Rightarrow> Blocked)"

section \<open>The abstract ledger\<close>

text \<open>
  Integer cells hold 8 bytes and never expire: what every operation that writes one keeps, and
  what \<^verbatim>\<open>binary.BigEndian.Uint64\<close> needs not to panic.
\<close>

definition cell_ok :: "entry option \<Rightarrow> bool" where
  "cell_ok e = (case e of None \<Rightarrow> True | Some (v, x) \<Rightarrow> length v = 8 \<and> x = None)"

definition permanent :: "entry option \<Rightarrow> bool" where
  "permanent e = (case e of None \<Rightarrow> True | Some (v, x) \<Rightarrow> x = None)"

definition chain_wf :: "store \<Rightarrow> bool" where
  "chain_wf m \<longleftrightarrow>
     (\<forall>pk. cell_ok (m (balKey pk))) \<and> (\<forall>pk. cell_ok (m (seqKey pk))) \<and> cell_ok (m rewardPoolKey)
     \<and> (\<forall>h. permanent (m (appliedKey h))) \<and> (\<forall>pk s. permanent (m (txKey pk s)))"

definition cell :: "store \<Rightarrow> bytes \<Rightarrow> u64" where
  "cell m k = (case m k of None \<Rightarrow> 0 | Some (v, x) \<Rightarrow> be_word v)"

record ledger =
  lg_bal :: "pubkey \<Rightarrow> amount option"
  lg_seq :: "pubkey \<Rightarrow> u64"
  lg_tx :: "pubkey \<Rightarrow> u64 \<Rightarrow> bytes option"
  lg_applied :: "hash32 \<Rightarrow> bool"
  lg_pool :: amount

definition ledger_of :: "store \<Rightarrow> ledger" where
  "ledger_of m =
     \<lparr>lg_bal = (\<lambda>pk. map_option (\<lambda>e. be_word (fst e)) (m (balKey pk))),
      lg_seq = (\<lambda>pk. cell m (seqKey pk)),
      lg_tx = (\<lambda>pk s. map_option fst (m (txKey pk s))),
      lg_applied = (\<lambda>h. m (appliedKey h) \<noteq> None),
      lg_pool = cell m rewardPoolKey\<rparr>"

text \<open>The balance an account reads as: 0 when it has none.\<close>

definition balance :: "ledger \<Rightarrow> pubkey \<Rightarrow> amount" where
  "balance L pk = (case lg_bal L pk of None \<Rightarrow> 0 | Some b \<Rightarrow> b)"

lemma cell_ok_simps [simp]:
  "cell_ok None" "cell_ok (Some (v, x)) \<longleftrightarrow> length v = 8 \<and> x = None"
  by (simp_all add: cell_ok_def)

lemma permanent_simps [simp]: "permanent None" "permanent (Some (v, x)) \<longleftrightarrow> x = None"
  by (simp_all add: permanent_def)

lemma balance_ledger_of: "balance (ledger_of m) pk = cell m (balKey pk)"
  by (auto simp: balance_def ledger_of_def cell_def split: option.splits)

lemma cell_update [simp]:
  "cell (m(k \<mapsto> (v, x))) k' = (if k' = k then be_word v else cell m k')"
  by (simp add: cell_def)

lemma visible_cell:
  "cell_ok (m k) \<Longrightarrow> visible now m k = map_option fst (m k)"
  by (auto simp: visible_def live_def cell_ok_def split: option.splits)

lemma be_word_PutUint64 [simp]: "be_word (PutUint64 v) = v"
  by (simp add: PutUint64_def)

lemma read_u64_cell:
  assumes "badger_ok B A" and "cell_ok (ab_db A db k)"
  shows "read_u64 B db now k = Ok (cell (ab_db A db) k) \<or> (\<exists>e. read_u64 B db now k = Err e)"
proof -
  obtain v e where g: "DB_Get B db now k = (v, e)" by fastforce
  show ?thesis
  proof (cases e)
    case None
    with g dbkv.get_value[OF assms(1), of db now k v] have "v = map_option fst (ab_db A db k)"
      using visible_cell[of "ab_db A db" k now] assms(2) by simp
    with g None assms(2) show ?thesis
      by (auto simp: read_u64_def cell_def Uint64_def cell_ok_def split: option.splits)
  next
    case (Some err)
    with g show ?thesis by (cases v) (simp_all add: read_u64_def)
  qed
qed

lemma read_u64_Ok:
  "badger_ok B A \<Longrightarrow> cell_ok (ab_db A db k) \<Longrightarrow> read_u64 B db now k = Ok w \<Longrightarrow>
     w = cell (ab_db A db) k"
  using read_u64_cell[of B A db k now] by auto

lemma chain_wf_cells:
  assumes "chain_wf m"
  shows "cell_ok (m (balKey pk))" "cell_ok (m (seqKey pk))" "cell_ok (m rewardPoolKey)"
  using assms by (auto simp: chain_wf_def)

text \<open>Writes of the store keep it well-formed.\<close>

lemma chain_wf_update:
  assumes "chain_wf m"
  shows "length v = 8 \<Longrightarrow> chain_wf (m(balKey pk \<mapsto> (v, None)))"
    and "length v = 8 \<Longrightarrow> chain_wf (m(seqKey pk \<mapsto> (v, None)))"
    and "length v = 8 \<Longrightarrow> chain_wf (m(rewardPoolKey \<mapsto> (v, None)))"
    and "chain_wf (m(txKey pk s \<mapsto> (v, None)))"
    and "chain_wf (m(appliedKey h \<mapsto> (v, None)))"
    and "chain_wf (m(snapKey pk := w))"
    and "chain_wf (m(activeWitnessesKey := w))"
    and "chain_wf (m(nonceLockKey pk s := w))"
  using assms by (simp_all add: chain_wf_def)

lemma chain_wf_empty [simp]: "chain_wf Map.empty"
  by (simp add: chain_wf_def)

lemma ledger_of_sel:
  "lg_bal (ledger_of m) pk = map_option (\<lambda>e. be_word (fst e)) (m (balKey pk))"
  "lg_seq (ledger_of m) pk = cell m (seqKey pk)"
  "lg_tx (ledger_of m) pk s = map_option fst (m (txKey pk s))"
  "lg_applied (ledger_of m) h \<longleftrightarrow> m (appliedKey h) \<noteq> None"
  "lg_pool (ledger_of m) = cell m rewardPoolKey"
  by (simp_all add: ledger_of_def)

lemma ledger_eqI:
  fixes L L' :: ledger
  assumes "\<And>pk. lg_bal L pk = lg_bal L' pk" and "\<And>pk. lg_seq L pk = lg_seq L' pk"
    and "\<And>pk s. lg_tx L pk s = lg_tx L' pk s" and "\<And>h. lg_applied L h = lg_applied L' h"
    and "lg_pool L = lg_pool L'"
  shows "L = L'"
  using assms by (intro ledger.equality) (simp_all add: fun_eq_iff)

lemma ledger_of_update:
  "ledger_of (m(balKey pk \<mapsto> (v, x))) =
     (ledger_of m)\<lparr>lg_bal := (lg_bal (ledger_of m))(pk \<mapsto> be_word v)\<rparr>"
  "ledger_of (m(seqKey pk \<mapsto> (v, x))) =
     (ledger_of m)\<lparr>lg_seq := (lg_seq (ledger_of m))(pk := be_word v)\<rparr>"
  "ledger_of (m(rewardPoolKey \<mapsto> (v, x))) = (ledger_of m)\<lparr>lg_pool := be_word v\<rparr>"
  "ledger_of (m(txKey pk s \<mapsto> (v, x))) =
     (ledger_of m)\<lparr>lg_tx := (lg_tx (ledger_of m))(pk := (lg_tx (ledger_of m) pk)(s \<mapsto> v))\<rparr>"
  "ledger_of (m(appliedKey h \<mapsto> (v, x))) =
     (ledger_of m)\<lparr>lg_applied := (lg_applied (ledger_of m))(h := True)\<rparr>"
  by (rule ledger_eqI; simp add: ledger_of_sel)+

lemma cell_other: "k' \<noteq> k \<Longrightarrow> cell (m(k := e)) k' = cell m k'"
  by (simp add: cell_def)

lemma ledger_of_other:
  "ledger_of (m(snapKey pk := e)) = ledger_of m"
  "ledger_of (m(activeWitnessesKey := e)) = ledger_of m"
  "ledger_of (m(nonceLockKey pk s := e)) = ledger_of m"
  by (rule ledger_eqI; simp add: ledger_of_sel cell_other)+

text \<open>What a confirmed batch does to the ledger, the receiver's balance written last.\<close>

definition confirm_ledger :: "confirm_batch \<Rightarrow> bytes \<Rightarrow> ledger \<Rightarrow> ledger" where
  "confirm_ledger b data L =
     (let tx = cb_Tx b; fr = tx_From tx in
      L\<lparr>lg_bal := (lg_bal L)(fr \<mapsto> cb_SenderBal b, tx_To tx \<mapsto> cb_ReceiverBal b),
        lg_seq := (lg_seq L)(fr := tx_Sequence tx),
        lg_tx := (lg_tx L)(fr := (lg_tx L fr)(tx_Sequence tx \<mapsto> data))\<rparr>)"

lemma ConfirmTxBatch_done:
  assumes "badger_ok B A" and "chain_wf (ab_db A db)"
    and "ConfirmTxBatch B J db now b = (None, db')"
  shows "\<exists>data. marshal J (cb_Tx b) = Inr data \<and> chain_wf (ab_db A db')
    \<and> ledger_of (ab_db A db') = confirm_ledger b data (ledger_of (ab_db A db))
    \<and> ab_db A db' (txKey (tx_From (cb_Tx b)) (tx_Sequence (cb_Tx b))) = Some (data, None)"
proof -
  from assms(3) obtain data where data: "marshal J (cb_Tx b) = Inr data"
    and "DB_SetBatch B db now (batch_writes b data) = (None, db')"
    by (auto simp: ConfirmTxBatch_def DB_write_defs split: sum.splits)
  then have "ab_db A db' = store_sets (batch_writes b data) (ab_db A db)"
    using dbkv.set_all_done[OF assms(1)] by blast
  then show ?thesis
    using data assms(2)
    by (simp add: batch_writes_def chain_wf_update ledger_of_update confirm_ledger_def Let_def)
qed

lemma ConfirmTxBatch_failed:
  assumes "badger_ok B A" and "ConfirmTxBatch B J db now b = (Some e, db')"
  shows "ab_db A db' = ab_db A db"
  using assms dbkv.set_all_failed[OF assms(1), unfolded DB_SetBatch_def]
  by (auto simp: ConfirmTxBatch_def DB_AtomicWrite_def split: sum.splits)

section \<open>What the protocol layer relies on\<close>

text \<open>
  The contract of the chain store: reads return the ledger's value or an error, never panic, and
  each write either does the one thing it names to the ledger or reports an error and does
  nothing. \<open>good\<close> is the store's invariant.
\<close>

locale ledger_store =
  fixes good :: "'db \<Rightarrow> bool"
    and led :: "'db \<Rightarrow> ledger"
    and get_bal :: "'db \<Rightarrow> gtime \<Rightarrow> pubkey \<Rightarrow> amount result"
    and has_bal :: "'db \<Rightarrow> gtime \<Rightarrow> pubkey \<Rightarrow> bool"
    and get_seq :: "'db \<Rightarrow> gtime \<Rightarrow> pubkey \<Rightarrow> u64 result"
    and is_applied :: "'db \<Rightarrow> gtime \<Rightarrow> hash32 \<Rightarrow> bool"
    and save_bal :: "'db \<Rightarrow> gtime \<Rightarrow> pubkey \<Rightarrow> amount \<Rightarrow> error option \<times> 'db"
    and mark :: "'db \<Rightarrow> gtime \<Rightarrow> hash32 \<Rightarrow> error option \<times> 'db"
    and confirm :: "'db \<Rightarrow> gtime \<Rightarrow> confirm_batch \<Rightarrow> error option \<times> 'db"
    and bond :: "'db \<Rightarrow> gtime \<Rightarrow> amount \<Rightarrow> (error option \<times> 'db) result"
  assumes get_bal_cases: "good db \<Longrightarrow>
      get_bal db now pk = Ok (balance (led db) pk) \<or> (\<exists>e. get_bal db now pk = Err e)"
    and has_bal_lg: "good db \<Longrightarrow> has_bal db now pk \<Longrightarrow> lg_bal (led db) pk \<noteq> None"
    and get_seq_cases: "good db \<Longrightarrow>
      get_seq db now pk = Ok (lg_seq (led db) pk) \<or> (\<exists>e. get_seq db now pk = Err e)"
    and is_applied_lg: "good db \<Longrightarrow> is_applied db now h \<Longrightarrow> lg_applied (led db) h"
    and save_bal_done: "good db \<Longrightarrow> save_bal db now pk v = (None, db') \<Longrightarrow>
      good db' \<and> led db' = (led db)\<lparr>lg_bal := (lg_bal (led db))(pk \<mapsto> v)\<rparr>"
    and save_bal_failed: "good db \<Longrightarrow> save_bal db now pk v = (Some e, db') \<Longrightarrow>
      good db' \<and> led db' = led db"
    and mark_done: "good db \<Longrightarrow> mark db now h = (None, db') \<Longrightarrow>
      good db' \<and> led db' = (led db)\<lparr>lg_applied := (lg_applied (led db))(h := True)\<rparr>"
    and mark_failed: "good db \<Longrightarrow> mark db now h = (Some e, db') \<Longrightarrow> good db' \<and> led db' = led db"
    and confirm_done: "good db \<Longrightarrow> confirm db now b = (None, db') \<Longrightarrow>
      good db' \<and> (\<exists>data. led db' = confirm_ledger b data (led db))"
    and confirm_failed: "good db \<Longrightarrow> confirm db now b = (Some e, db') \<Longrightarrow>
      good db' \<and> led db' = led db"
    and bond_cases: "good db \<Longrightarrow>
      (\<exists>db'. bond db now v = Ok (None, db') \<and> good db'
         \<and> unat (lg_pool (led db)) + unat v \<le> unat MaxAmount
         \<and> led db' = (led db)\<lparr>lg_pool := lg_pool (led db) + v\<rparr>)
      \<or> (\<exists>e db'. bond db now v = Ok (Some e, db') \<and> good db' \<and> led db' = led db)"
begin

lemma get_bal_Ok: "good db \<Longrightarrow> get_bal db now pk = Ok v \<Longrightarrow> v = balance (led db) pk"
  using get_bal_cases[of db now pk] by auto

lemma get_seq_Ok: "good db \<Longrightarrow> get_seq db now pk = Ok v \<Longrightarrow> v = lg_seq (led db) pk"
  using get_seq_cases[of db now pk] by auto

lemma get_bal_no_panic: "good db \<Longrightarrow> get_bal db now pk \<noteq> Panic \<and> get_bal db now pk \<noteq> Blocked"
  using get_bal_cases[of db now pk] by auto

lemma get_seq_no_panic: "good db \<Longrightarrow> get_seq db now pk \<noteq> Panic \<and> get_seq db now pk \<noteq> Blocked"
  using get_seq_cases[of db now pk] by auto

lemma writes_keep_good:
  "good db \<Longrightarrow> good (snd (save_bal db now pk v))"
  "good db \<Longrightarrow> good (snd (mark db now h))"
  "good db \<Longrightarrow> good (snd (confirm db now b))"
  using save_bal_done[of db now pk v] save_bal_failed[of db now pk v]
    mark_done[of db now h] mark_failed[of db now h]
    confirm_done[of db now b] confirm_failed[of db now b]
  by (metis option.exhaust surjective_pairing)+

end

lemma AccumulateBond_cases:
  assumes "badger_ok B A" and "chain_wf (ab_db A db)"
  shows "(\<exists>db'. AccumulateBond B db now v = Ok (None, db') \<and> chain_wf (ab_db A db')
         \<and> unat (lg_pool (ledger_of (ab_db A db))) + unat v \<le> unat MaxAmount
         \<and> ledger_of (ab_db A db')
             = (ledger_of (ab_db A db))\<lparr>lg_pool := lg_pool (ledger_of (ab_db A db)) + v\<rparr>)
      \<or> (\<exists>e db'. AccumulateBond B db now v = Ok (Some e, db') \<and> ab_db A db' = ab_db A db)"
proof -
  let ?pool = "cell (ab_db A db) rewardPoolKey"
  have pool: "lg_pool (ledger_of (ab_db A db)) = ?pool" by (simp add: ledger_of_def)
  consider e where "GetRewardPool B db now = Err e" | "GetRewardPool B db now = Ok ?pool"
    using read_u64_cell[OF assms(1) chain_wf_cells(3)[OF assms(2)], of now]
    by (auto simp: GetRewardPool_def)
  then show ?thesis
  proof cases
    case 1
    then show ?thesis by (simp add: AccumulateBond_def)
  next
    case read: 2
    show ?thesis
    proof (cases "SafeAdd ?pool v")
      case (Ok np)
      then have np: "unat ?pool + unat v \<le> unat MaxAmount" "np = ?pool + v"
        using SafeAdd_Ok_iff[of ?pool v np] by (simp, simp add: SafeAdd_def split: if_splits)
      obtain err db' where w: "DB_Set B db now rewardPoolKey (PutUint64 np) = (err, db')"
        by fastforce
      with read Ok have eq: "AccumulateBond B db now v = Ok (err, db')"
        by (simp add: AccumulateBond_def)
      show ?thesis
      proof (cases err)
        case None
        with w dbkv.set1_done[OF assms(1)] have
          "ab_db A db' = (ab_db A db)(rewardPoolKey \<mapsto> (PutUint64 np, None))" by blast
        with eq None np pool assms(2) show ?thesis
          by (simp add: chain_wf_update ledger_of_update)
      next
        case (Some e)
        with w dbkv.set1_failed[OF assms(1)] have "ab_db A db' = ab_db A db" by blast
        with eq Some show ?thesis by simp
      qed
    qed (use read in \<open>simp_all add: AccumulateBond_def\<close>)
  qed
qed

lemma DB_Get_Some:
  "badger_ok B A \<Longrightarrow> fst (DB_Get B db now k) \<noteq> None \<Longrightarrow> ab_db A db k \<noteq> None"
  using dbkv.get_Some[of B A db now k]
  by (cases "DB_Get B db now k") (auto simp: visible_def split: option.splits)

lemma DB_Set_cases:
  assumes "badger_ok B A" and "DB_Set B db now k v = (e, db')"
  shows "ab_db A db' = (if e = None then (ab_db A db)(k \<mapsto> (v, None)) else ab_db A db)"
  using dbkv.set1_done[OF assms(1)] dbkv.set1_failed[OF assms(1)] assms(2) by (cases e) auto

lemmas DB_Set_None = dbkv.set1_done and DB_Set_Some = dbkv.set1_failed

lemma good_write:
  assumes "badger_ok B A" and "chain_wf (ab_db A db)" and "DB_Set B db now k v = (e, db')"
    and "chain_wf ((ab_db A db)(k \<mapsto> (v, None)))"
  shows "chain_wf (ab_db A db')"
  using DB_Set_cases[OF assms(1,3)] assms(2,4) by (simp split: if_splits)

text \<open>The chain store keeps the contract, for every BadgerDB that behaves as documented.\<close>

interpretation chain: ledger_store "\<lambda>db. badger_ok B A \<and> chain_wf (ab_db A db)"
  "\<lambda>db. ledger_of (ab_db A db)" "GetBalance B" "HasBalance B" "GetLatestSeq B"
  "IsConfirmedTxApplied B" "SaveBalance B" "MarkConfirmedTxApplied B" "ConfirmTxBatch B J"
  "AccumulateBond B" for B A J
proof (unfold_locales, goal_cases)
  case (1 db now pk)
  then show ?case
    using read_u64_cell[of B A db "balKey pk" now]
    by (auto simp: GetBalance_def balance_ledger_of chain_wf_cells)
next
  case (2 db now pk)
  then show ?case
    using DB_Get_Some[of B A db now "balKey pk"] by (auto simp: HasBalance_def ledger_of_sel)
next
  case (3 db now pk)
  then show ?case
    using read_u64_cell[of B A db "seqKey pk" now]
    by (auto simp: GetLatestSeq_def ledger_of_sel chain_wf_cells)
next
  case (4 db now h)
  then show ?case
    using DB_Get_Some[of B A db now "appliedKey h"]
    by (auto simp: IsConfirmedTxApplied_def ledger_of_sel)
next
  case (5 db now pk v db')
  then show ?case
    using DB_Set_None[of B A db now "balKey pk" "PutUint64 v" db']
    by (simp add: SaveBalance_def chain_wf_update ledger_of_update)
next
  case (6 db now pk v e db')
  then show ?case
    using DB_Set_Some[of B A db now "balKey pk" "PutUint64 v" e db'] by (simp add: SaveBalance_def)
next
  case (7 db now h db')
  then show ?case
    using DB_Set_None[of B A db now "appliedKey h" "[1]" db']
    by (simp add: MarkConfirmedTxApplied_def chain_wf_update ledger_of_update)
next
  case (8 db now h e db')
  then show ?case
    using DB_Set_Some[of B A db now "appliedKey h" "[1]" e db']
    by (simp add: MarkConfirmedTxApplied_def)
next
  case (9 db now b db')
  then show ?case
    using ConfirmTxBatch_done[of B A db J now b db'] by blast
next
  case (10 db now b e db')
  then show ?case
    using ConfirmTxBatch_failed[of B A J db now b e db'] by simp
next
  case (11 db now v)
  then show ?case
    using AccumulateBond_cases[of B A db now v] by (elim conjE disjE exE) auto
qed

section \<open>Properties\<close>

text \<open>C14. \<open>ConfirmTxBatch\<close> is atomic and does exactly what it names: with no error, the ledger of
  the new database is the old one with the sender's balance, then the receiver's balance, the
  sender's sequence and the transaction record replaced, and nothing else; with an error the
  database is unchanged. Either way the store stays well-formed.\<close>

theorem ConfirmTxBatch_atomic:
  assumes "badger_ok B A" and "chain_wf (ab_db A db)"
    and "ConfirmTxBatch B J db now b = (err, db')"
  shows "chain_wf (ab_db A db') \<and>
    (case err of
       None \<Rightarrow> \<exists>data. marshal J (cb_Tx b) = Inr data
         \<and> ledger_of (ab_db A db') = confirm_ledger b data (ledger_of (ab_db A db))
     | Some e \<Rightarrow> ab_db A db' = ab_db A db)"
  using ConfirmTxBatch_done[OF assms(1,2), of J now b db']
    ConfirmTxBatch_failed[OF assms(1), of J db now b] assms(2,3)
  by (cases err) auto

definition sample_codec :: "transaction codec" where
  "sample_codec =
     \<lparr>marshal = (\<lambda>tx. Inr (PutUint64 (tx_Sequence tx))),
      unmarshal = (\<lambda>b. Inl (LibError ''not needed''))\<rparr>"

definition sample_batch :: confirm_batch where
  "sample_batch =
     \<lparr>cb_Tx =
        \<lparr>tx_Hash = 0, tx_Sequence = 1, tx_Nonce = 42, tx_From = 3, tx_To = 5, tx_Amount = 1000,
         tx_SenderSig = 0, tx_ParentHashes = [], tx_WitnessSigs = [], tx_CreatedAt = 0,
         tx_Status = TxConfirmed\<rparr>,
      cb_SenderBal = 10, cb_ReceiverBal = 1000\<rparr>"

theorem ConfirmTxBatch_atomic_witness:
  "\<exists>db'. ConfirmTxBatch mem_badger sample_codec [] 0 sample_batch = (None, db')
    \<and> balance (ledger_of (map_of db')) 5 = 1000"
proof -
  obtain db' where db': "ConfirmTxBatch mem_badger sample_codec [] 0 sample_batch = (None, db')"
    by (simp add: ConfirmTxBatch_def sample_codec_def DB_AtomicWrite_def mem_badger_def
        batch_writes_def)
  have "chain_wf (ab_db mem_abs [])" by (simp add: mem_abs_def)
  from ConfirmTxBatch_atomic[OF mem_badger_ok this db'] have
    "balance (ledger_of (map_of db')) 5 = 1000"
    by (auto simp: mem_abs_def confirm_ledger_def balance_def sample_batch_def)
  with db' show ?thesis by blast
qed

text \<open>Reading a balance after it was saved: at any later time and for any account, a read
  that reports no error returns the amount just saved for that account, and for every other
  account what the store held before.\<close>

theorem GetBalance_SaveBalance:
  assumes "badger_ok B A" and "chain_wf (ab_db A db)"
    and "SaveBalance B db now pk bal = (None, db')" and "GetBalance B db' now' pk' = Ok b"
  shows "b = (if pk' = pk then bal else balance (ledger_of (ab_db A db)) pk')"
proof -
  from chain.save_bal_done[of B A db now pk bal db'] assms
  have "chain_wf (ab_db A db')" and "ledger_of (ab_db A db')
      = (ledger_of (ab_db A db))\<lparr>lg_bal := (lg_bal (ledger_of (ab_db A db)))(pk \<mapsto> bal)\<rparr>"
    by simp_all
  with chain.get_bal_Ok[of B A db' now' pk' b] assms(1,4) show ?thesis
    by (simp add: balance_def)
qed

theorem GetBalance_SaveBalance_witness:
  "\<exists>db' b. SaveBalance mem_badger [] 0 3 77 = (None, db') \<and> GetBalance mem_badger db' 9 3 = Ok b
    \<and> b = 77"
proof -
  obtain db' where db': "SaveBalance mem_badger [] 0 3 77 = (None, db')"
    and eq: "db' = [(balKey 3, PutUint64 77, None)]"
    by (simp add: SaveBalance_def DB_Set_def mem_badger_def)
  have get: "GetBalance mem_badger db' 9 3 = Ok 77"
    by (simp add: eq GetBalance_def read_u64_def DB_Get_def mem_badger_def visible_def live_def)
  have "chain_wf (ab_db mem_abs [])" by (simp add: mem_abs_def)
  from GetBalance_SaveBalance[OF mem_badger_ok this db' get] db' get show ?thesis by auto
qed

text \<open>A confirmed transaction can be read back: after a batch with no error, \<open>GetTx\<close> at its
  sender and sequence, if it reports no error, returns that very transaction.\<close>

theorem GetTx_ConfirmTxBatch:
  assumes "badger_ok B A" and "chain_wf (ab_db A db)" and "roundtrips J (cb_Tx b)"
    and "ConfirmTxBatch B J db now b = (None, db')"
    and "GetTx B J db' now' (tx_From (cb_Tx b)) (tx_Sequence (cb_Tx b)) = Ok r"
  shows "r = Some (cb_Tx b)"
proof -
  let ?k = "txKey (tx_From (cb_Tx b)) (tx_Sequence (cb_Tx b))"
  from ConfirmTxBatch_done[OF assms(1,2,4)] obtain data where
    m: "marshal J (cb_Tx b) = Inr data" and k: "ab_db A db' ?k = Some (data, None)" by blast
  obtain v e where g: "DB_Get B db' now' ?k = (v, e)" by fastforce
  with assms(5) have e: "e = None" by (cases e; cases v) (auto simp: GetTx_def)
  with g dbkv.get_value[OF assms(1), of db' now' ?k v] k have "v = Some data"
    by (simp add: visible_def live_def)
  with g e assms(3,5) m show ?thesis by (simp add: GetTx_def roundtrips_def)
qed

definition sample_codec1 :: "transaction codec" where
  "sample_codec1 = \<lparr>marshal = (\<lambda>tx. Inr [1]), unmarshal = (\<lambda>b. Inr (cb_Tx sample_batch))\<rparr>"

theorem GetTx_ConfirmTxBatch_witness:
  "\<exists>db' r. ConfirmTxBatch mem_badger sample_codec1 [] 0 sample_batch = (None, db')
    \<and> GetTx mem_badger sample_codec1 db' 9 3 1 = Ok r \<and> r = Some (cb_Tx sample_batch)"
proof -
  obtain db' where db': "ConfirmTxBatch mem_badger sample_codec1 [] 0 sample_batch = (None, db')"
    and k: "map_of db' (txKey 3 1) = Some ([1], None)"
    by (simp add: ConfirmTxBatch_def sample_codec1_def DB_AtomicWrite_def mem_badger_def
        batch_writes_def update_conv' sample_batch_def)
  have get: "GetTx mem_badger sample_codec1 db' 9 3 1 = Ok (Some (cb_Tx sample_batch))"
    using k by (simp add: GetTx_def DB_Get_def mem_badger_def visible_def live_def sample_codec1_def)
  have "chain_wf (ab_db mem_abs [])" and "roundtrips sample_codec1 (cb_Tx sample_batch)"
    by (simp_all add: mem_abs_def roundtrips_def sample_codec1_def)
  from GetTx_ConfirmTxBatch[OF mem_badger_ok this db', of 9 "Some (cb_Tx sample_batch)"] db' get
  show ?thesis by (auto simp: sample_batch_def)
qed

end
