(* ===== verification/Stores.thy ===== *)
theory Stores
  imports Chain
begin

text \<open>
  \<^verbatim>\<open>internal/storage/snapshot.go\<close>: the snapshot store, the active-witness store and the nonce
  lock store over the same database.
\<close>

section \<open>SnapshotStore\<close>

definition SaveSnapshot ::
  "('db, 'txn) badger \<Rightarrow> snapshot codec \<Rightarrow> 'db \<Rightarrow> gtime \<Rightarrow> snapshot \<Rightarrow> error option \<times> 'db" where
  "SaveSnapshot B J db now snap =
     (case marshal J snap of
        Inl e \<Rightarrow> (Some (Wrapf ''marshal snapshot: %w'' [] e), db)
      | Inr data \<Rightarrow> DB_Set B db now (snapKey (sn_PubKey snap)) data)"

definition GetLatest ::
  "('db, 'txn) badger \<Rightarrow> snapshot codec \<Rightarrow> 'db \<Rightarrow> gtime \<Rightarrow> pubkey \<Rightarrow> snapshot option result" where
  "GetLatest B J db now pk =
     (case DB_Get B db now (snapKey pk) of
        (val, Some e) \<Rightarrow> Err e
      | (None, None) \<Rightarrow> Ok None
      | (Some v, None) \<Rightarrow> (case unmarshal J v of Inl e \<Rightarrow> Err e | Inr s \<Rightarrow> Ok (Some s)))"

section \<open>WitnessStore\<close>

definition SaveActiveWitnesses ::
  "('db, 'txn) badger \<Rightarrow> witness list codec \<Rightarrow> 'db \<Rightarrow> gtime \<Rightarrow> witness list \<Rightarrow>
     error option \<times> 'db" where
  "SaveActiveWitnesses B J db now ws =
     (case marshal J ws of
        Inl e \<Rightarrow> (Some (Wrapf ''marshal witnesses: %w'' [] e), db)
      | Inr data \<Rightarrow> DB_Set B db now activeWitnessesKey data)"

definition GetActiveWitnesses ::
  "('db, 'txn) badger \<Rightarrow> witness list codec \<Rightarrow> 'db \<Rightarrow> gtime \<Rightarrow> witness list result" where
  "GetActiveWitnesses B J db now =
     (case DB_Get B db now activeWitnessesKey of
        (val, Some e) \<Rightarrow> Err e
      | (None, None) \<Rightarrow> Ok []
      | (Some v, None) \<Rightarrow> (case unmarshal J v of Inl e \<Rightarrow> Err e | Inr ws \<Rightarrow> Ok ws))"

definition GetActiveSet ::
  "('db, 'txn) badger \<Rightarrow> witness list codec \<Rightarrow> 'db \<Rightarrow> gtime \<Rightarrow> pubkey set result" where
  "GetActiveSet B J db now =
     bindO (GetActiveWitnesses B J db now) (\<lambda>ws. Ok (w_PubKey ` set ws))"

section \<open>NonceLockStore\<close>

definition nonceLockTTL :: duration where "nonceLockTTL = 15 * Second"

text \<open>\<^verbatim>\<open>Lock\<close> reads and then writes, in two database transactions; a read error is ignored.\<close>

definition Lock ::
  "('db, 'txn) badger \<Rightarrow> 'db \<Rightarrow> gtime \<Rightarrow> pubkey \<Rightarrow> u64 \<Rightarrow> error option \<times> 'db" where
  "Lock B db now pk nonce =
     (let key = nonceLockKey pk nonce in
      if fst (DB_Get B db now key) \<noteq> None then (Some ErrTxNonceLocked, db)
      else DB_SetWithTTL B db now key [1] nonceLockTTL)"

definition Unlock ::
  "('db, 'txn) badger \<Rightarrow> 'db \<Rightarrow> gtime \<Rightarrow> pubkey \<Rightarrow> u64 \<Rightarrow> error option \<times> 'db" where
  "Unlock B db now pk nonce = DB_Delete B db now (nonceLockKey pk nonce)"

definition IsLocked :: "('db, 'txn) badger \<Rightarrow> 'db \<Rightarrow> gtime \<Rightarrow> pubkey \<Rightarrow> u64 \<Rightarrow> bool" where
  "IsLocked B db now pk nonce \<longleftrightarrow> fst (DB_Get B db now (nonceLockKey pk nonce)) \<noteq> None"

section \<open>None of them touches the ledger\<close>

lemma SaveSnapshot_ledger [frame]:
  assumes "badger_ok B A" and "SaveSnapshot B J db now s = (e, db')"
  shows "ledger_of (ab_db A db') = ledger_of (ab_db A db)"
    and "chain_wf (ab_db A db) \<Longrightarrow> chain_wf (ab_db A db')"
  using assms(2) DB_Set_cases[OF assms(1), of db now "snapKey (sn_PubKey s)" _ e db']
  by (auto simp: SaveSnapshot_def ledger_of_other chain_wf_update split: sum.splits)

lemma SaveActiveWitnesses_ledger [frame]:
  assumes "badger_ok B A" and "SaveActiveWitnesses B J db now ws = (e, db')"
  shows "ledger_of (ab_db A db') = ledger_of (ab_db A db)"
    and "chain_wf (ab_db A db) \<Longrightarrow> chain_wf (ab_db A db')"
  using assms(2) DB_Set_cases[OF assms(1), of db now activeWitnessesKey _ e db']
  by (auto simp: SaveActiveWitnesses_def ledger_of_other chain_wf_update split: sum.splits)

lemma Lock_cases:
  assumes "badger_ok B A" and "Lock B db now pk nonce = (e, db')"
  shows "(e \<noteq> None \<and> ab_db A db' = ab_db A db) \<or>
    (e = None \<and> (\<exists>x. ab_db A db' = (ab_db A db)(nonceLockKey pk nonce \<mapsto> ([1], Some x))
       \<and> x \<le> now + nonceLockTTL \<and> now + nonceLockTTL < x + Second))"
proof (cases "fst (DB_Get B db now (nonceLockKey pk nonce)) \<noteq> None")
  case True
  with assms(2) show ?thesis by (auto simp: Lock_def)
next
  case False
  with assms(2) have w: "DB_SetWithTTL B db now (nonceLockKey pk nonce) [1] nonceLockTTL = (e, db')"
    by (simp add: Lock_def)
  show ?thesis
  proof (cases e)
    case None
    with w dbkv.set_ttl_done[OF assms(1), of db now _ _ _ db'] show ?thesis by blast
  next
    case (Some err)
    with w dbkv.set_ttl_failed[OF assms(1), of db now _ _ _ err db'] show ?thesis by blast
  qed
qed

lemma Lock_ledger [frame]:
  assumes "badger_ok B A" and "Lock B db now pk nonce = (e, db')"
  shows "ledger_of (ab_db A db') = ledger_of (ab_db A db)"
    and "chain_wf (ab_db A db) \<Longrightarrow> chain_wf (ab_db A db')"
  using Lock_cases[OF assms] by (auto simp: ledger_of_other chain_wf_update)

lemma Unlock_ledger [frame]:
  assumes "badger_ok B A" and "Unlock B db now pk nonce = (e, db')"
  shows "ledger_of (ab_db A db') = ledger_of (ab_db A db)"
    and "chain_wf (ab_db A db) \<Longrightarrow> chain_wf (ab_db A db')"
  using assms(2) dbkv.delete_done[OF assms(1), of db now _ db']
    dbkv.delete_failed[OF assms(1), of db now _ _ db']
  by (cases e; auto simp: Unlock_def ledger_of_other chain_wf_update)+

section \<open>Properties\<close>

lemma IsLocked_visible:
  "badger_ok B A \<Longrightarrow> IsLocked B db now pk n \<Longrightarrow>
     visible now (ab_db A db) (nonceLockKey pk n) \<noteq> None"
  using dbkv.get_Some[of B A db now "nonceLockKey pk n"]
  by (cases "DB_Get B db now (nonceLockKey pk n)") (auto simp: IsLocked_def)

text \<open>C18. A nonce lock that was taken excludes the same sender and nonce for fourteen seconds and
  is gone after fifteen: as long as the store can be read, within the first span \<open>IsLocked\<close> says so
  and a second \<open>Lock\<close> is refused without a change; from the end of the second span on it is not
  locked.\<close>

theorem Lock_excludes:
  assumes "badger_ok B A" and "Lock B db now pk nonce = (None, db')"
  shows "(now' \<le> now + 14 * Second \<and> snd (DB_Get B db' now' (nonceLockKey pk nonce)) = None \<longrightarrow>
      IsLocked B db' now' pk nonce \<and> Lock B db' now' pk nonce = (Some ErrTxNonceLocked, db'))
    \<and> (now + 15 * Second \<le> now' \<longrightarrow> \<not> IsLocked B db' now' pk nonce)"
proof -
  let ?k = "nonceLockKey pk nonce"
  from Lock_cases[OF assms] obtain x where
    db': "ab_db A db' = (ab_db A db)(?k \<mapsto> ([1], Some x))"
    and x: "x \<le> now + 15 * Second" "now + 15 * Second < x + Second"
    by (auto simp: nonceLockTTL_def)
  have "IsLocked B db' now' pk nonce"
    if near: "now' \<le> now + 14 * Second" and rd: "snd (DB_Get B db' now' ?k) = None"
  proof -
    obtain v where g: "DB_Get B db' now' ?k = (v, None)"
      using rd by (cases "DB_Get B db' now' ?k") auto
    from dbkv.get_value[OF assms(1) g] db' x near have "v = Some [1]"
      by (simp add: visible_ttl_update)
    with g show ?thesis by (simp add: IsLocked_def)
  qed
  moreover have "Lock B db' now' pk nonce = (Some ErrTxNonceLocked, db')"
    if "IsLocked B db' now' pk nonce"
    using that by (auto simp: Lock_def IsLocked_def)
  moreover have "\<not> IsLocked B db' now' pk nonce" if "now + 15 * Second \<le> now'"
    using that db' x IsLocked_visible[OF assms(1), of db' now' pk nonce]
    by (auto simp: visible_ttl_update)
  ultimately show ?thesis by blast
qed

theorem Lock_excludes_witness:
  "\<exists>db'. Lock mem_badger [] 0 3 42 = (None, db') \<and> IsLocked mem_badger db' (14 * Second) 3 42
    \<and> \<not> IsLocked mem_badger db' (15 * Second) 3 42"
proof -
  obtain db' where db': "Lock mem_badger [] 0 3 42 = (None, db')"
    and m: "map_of db' (nonceLockKey 3 42) = Some ([1], Some (15 * Second))"
    by (simp add: Lock_def DB_Get_def DB_SetWithTTL_def mem_badger_def visible_def nonceLockTTL_def)
  have get: "snd (DB_Get mem_badger db' (14 * Second) (nonceLockKey 3 42)) = None"
    using m by (simp add: DB_Get_def mem_badger_def visible_def live_def)
  from Lock_excludes[OF mem_badger_ok db', of "14 * Second"] get
    Lock_excludes[OF mem_badger_ok db', of "15 * Second"] db' show ?thesis by simp
qed

text \<open>The active-witness set read back is the set of the keys that were saved, at any later
  time, when the list round-trips through its encoding and neither call reports an error.\<close>

theorem GetActiveSet_SaveActiveWitnesses:
  assumes "badger_ok B A" and "roundtrips J ws"
    and "SaveActiveWitnesses B J db now ws = (None, db')" and "GetActiveSet B J db' now' = Ok S"
  shows "S = {w_PubKey w | w. w \<in> set ws}"
proof -
  from assms(3) obtain data where m: "marshal J ws = Inr data"
    and w: "DB_Set B db now activeWitnessesKey data = (None, db')"
    by (auto simp: SaveActiveWitnesses_def split: sum.splits)
  obtain v e where g: "DB_Get B db' now' activeWitnessesKey = (v, e)" by fastforce
  with assms(4) have e: "e = None"
    by (cases e; cases v) (auto simp: GetActiveSet_def GetActiveWitnesses_def)
  with g dbkv.get_after_set1[OF assms(1) w, of now' activeWitnessesKey v] have "v = Some data"
    by simp
  with g e assms(2,4) m have "S = w_PubKey ` set ws"
    by (simp add: GetActiveSet_def GetActiveWitnesses_def roundtrips_def)
  then show ?thesis by blast
qed

definition sample_witnesses :: "witness list" where
  "sample_witnesses = [\<lparr>w_PubKey = 3, w_Addr = ''127.0.0.1:7331'', w_AddedAt = 0\<rparr>]"

definition sample_wits_codec :: "witness list codec" where
  "sample_wits_codec = \<lparr>marshal = (\<lambda>ws. Inr [1]), unmarshal = (\<lambda>b. Inr sample_witnesses)\<rparr>"

theorem GetActiveSet_SaveActiveWitnesses_witness:
  "\<exists>db' S. SaveActiveWitnesses mem_badger sample_wits_codec [] 0 sample_witnesses = (None, db')
    \<and> GetActiveSet mem_badger sample_wits_codec db' 7 = Ok S \<and> S = {3}"
proof -
  obtain db' where
    db': "SaveActiveWitnesses mem_badger sample_wits_codec [] 0 sample_witnesses = (None, db')"
    and eq: "db' = [(activeWitnessesKey, [1], None)]"
    by (simp add: SaveActiveWitnesses_def sample_wits_codec_def DB_Set_def mem_badger_def)
  have get: "GetActiveSet mem_badger sample_wits_codec db' 7 = Ok (w_PubKey ` set sample_witnesses)"
    by (simp add: eq GetActiveSet_def GetActiveWitnesses_def DB_Get_def mem_badger_def visible_def
        live_def sample_wits_codec_def)
  have "roundtrips sample_wits_codec sample_witnesses"
    by (simp add: roundtrips_def sample_wits_codec_def)
  from GetActiveSet_SaveActiveWitnesses[OF mem_badger_ok this db' get] db' get show ?thesis
    by (auto simp: sample_witnesses_def)
qed

end
