(* ===== verification/Dag.thy ===== *)
theory Dag
  imports Core "HOL-Library.AList"
begin

text \<open>
  \<^verbatim>\<open>internal/protocol/dag.go\<close>: the in-memory transaction graph, with its cycle check of bounded
  depth, its tips and its depth. The Go map from a node to its parents is an association list;
  every result the program computes by ranging over it is shown not to depend on the order.
\<close>

definition dagCycleCheckDepth :: nat where "dagCycleCheckDepth = 200"

record dag_manager =
  dm_edges :: "(hash32 \<times> hash32 list) list"

definition NewDAGManager :: dag_manager where
  "NewDAGManager = \<lparr>dm_edges = []\<rparr>"

text \<open>\<^verbatim>\<open>dm.edges[h]\<close>: nil when the key is absent.\<close>

definition parentsOf :: "dag_manager \<Rightarrow> hash32 \<Rightarrow> hash32 list" where
  "parentsOf dm h = (case map_of (dm_edges dm) h of None \<Rightarrow> [] | Some ps \<Rightarrow> ps)"

definition nodesOf :: "dag_manager \<Rightarrow> hash32 list" where
  "nodesOf dm = map fst (dm_edges dm)"

section \<open>The cycle check\<close>

text \<open>
  \<^verbatim>\<open>isAncestorLocked\<close> and the loop over the parents inside it; \<open>visited\<close> is the shared map the
  recursion updates, so both return it.
\<close>

function isAncestorLocked ::
    "dag_manager \<Rightarrow> hash32 \<Rightarrow> hash32 \<Rightarrow> hash32 set \<Rightarrow> nat \<Rightarrow> bool \<times> hash32 set"
  and ancestorLoop ::
    "dag_manager \<Rightarrow> hash32 list \<Rightarrow> hash32 \<Rightarrow> hash32 set \<Rightarrow> nat \<Rightarrow> bool \<times> hash32 set"
where
  "isAncestorLocked dm cur target visited depth =
     (if depth > dagCycleCheckDepth \<or> cur \<in> visited then (False, visited)
      else ancestorLoop dm (parentsOf dm cur) target (insert cur visited) depth)"
| "ancestorLoop dm [] target visited depth = (False, visited)"
| "ancestorLoop dm (parent # ps) target visited depth =
     (if parent = target then (True, visited)
      else (case isAncestorLocked dm parent target visited (depth + 1) of
              (True, visited') \<Rightarrow> (True, visited')
            | (False, visited') \<Rightarrow> ancestorLoop dm ps target visited' depth))"
  by pat_completeness auto
termination
  by (relation "measures
      [\<lambda>x. case x of Inl (dm, cur, target, visited, depth) \<Rightarrow> Suc dagCycleCheckDepth + 1 - depth
        | Inr (dm, ps, target, visited, depth) \<Rightarrow> Suc dagCycleCheckDepth - depth,
       \<lambda>x. case x of Inl _ \<Rightarrow> 0 | Inr (dm, ps, target, visited, depth) \<Rightarrow> Suc (length ps)]")
    auto

declare isAncestorLocked.simps [simp del]

section \<open>Adding edges\<close>

definition short_hash :: "hash32 \<Rightarrow> string" where
  "short_hash h = hex_encode (take 4 (arr32 h))"

definition AddEdge :: "dag_manager \<Rightarrow> hash32 \<Rightarrow> hash32 \<Rightarrow> error option \<times> dag_manager" where
  "AddEdge dm from to =
     (if from = to then (Some (ErrDAGCycle (short_hash from) (short_hash to)), dm)
      else if fst (isAncestorLocked dm to from {} 0)
      then (Some (ErrDAGCycle (short_hash from) (short_hash to)), dm)
      else if to \<in> set (parentsOf dm from) then (Some ErrDAGEdgeDuplicate, dm)
      else (None, dm\<lparr>dm_edges := AList.update from (parentsOf dm from @ [to]) (dm_edges dm)\<rparr>))"

text \<open>\<^verbatim>\<open>AdvanceTip\<close> keeps the edges it added before an error; a duplicate is no error.\<close>

fun AdvanceTip :: "dag_manager \<Rightarrow> hash32 \<Rightarrow> hash32 list \<Rightarrow> error option \<times> dag_manager" where
  "AdvanceTip dm txHash [] = (None, dm)"
| "AdvanceTip dm txHash (p # ps) =
     (case AddEdge dm txHash p of
        (Some e, dm') \<Rightarrow>
          (if e \<noteq> ErrDAGEdgeDuplicate then (Some (Wrapf ''DAGEdge: %w'' [] e), dm')
           else AdvanceTip dm' txHash ps)
      | (None, dm') \<Rightarrow> AdvanceTip dm' txHash ps)"

section \<open>Tips\<close>

text \<open>The comparison \<^verbatim>\<open>sort.Slice\<close> gets: the first byte that differs decides.\<close>

fun bytes_less :: "bytes \<Rightarrow> bytes \<Rightarrow> bool" where
  "bytes_less (a # as) (b # bs) = (if a \<noteq> b then a < b else bytes_less as bs)"
| "bytes_less _ _ = False"

definition tip_less :: "hash32 \<Rightarrow> hash32 \<Rightarrow> bool" where
  "tip_less h k = bytes_less (arr32 h) (arr32 k)"

text \<open>\<^verbatim>\<open>sort.Slice\<close>: some list in the order of \<open>lt\<close>, here by insertion.\<close>

fun insert_by :: "('a \<Rightarrow> 'a \<Rightarrow> bool) \<Rightarrow> 'a \<Rightarrow> 'a list \<Rightarrow> 'a list" where
  "insert_by lt x [] = [x]"
| "insert_by lt x (y # ys) = (if lt y x then y # insert_by lt x ys else x # y # ys)"

definition sort_by :: "('a \<Rightarrow> 'a \<Rightarrow> bool) \<Rightarrow> 'a list \<Rightarrow> 'a list" where
  "sort_by lt xs = foldr (insert_by lt) xs []"

definition hasChild :: "dag_manager \<Rightarrow> hash32 set" where
  "hasChild dm = (\<Union>e \<in> set (dm_edges dm). set (snd e))"

definition CurrentTips :: "dag_manager \<Rightarrow> hash32 list" where
  "CurrentTips dm = sort_by tip_less (filter (\<lambda>node. node \<notin> hasChild dm) (nodesOf dm))"

section \<open>The graph\<close>

definition edge_rel :: "dag_manager \<Rightarrow> (hash32 \<times> hash32) set" where
  "edge_rel dm = {(h, p). p \<in> set (parentsOf dm h)}"

text \<open>Keys are unique, as in a Go map, and never map to an empty list.\<close>

definition dag_wf :: "dag_manager \<Rightarrow> bool" where
  "dag_wf dm \<longleftrightarrow> distinct (nodesOf dm) \<and> (\<forall>h \<in> set (nodesOf dm). parentsOf dm h \<noteq> [])"

lemma in_edge_rel [simp]: "(h, p) \<in> edge_rel dm \<longleftrightarrow> p \<in> set (parentsOf dm h)"
  by (simp add: edge_rel_def)

lemma parentsOf_not_node: "h \<notin> set (nodesOf dm) \<Longrightarrow> parentsOf dm h = []"
  using map_of_eq_None_iff[of "dm_edges dm" h] by (simp add: parentsOf_def nodesOf_def)

lemma node_iff_parents: "dag_wf dm \<Longrightarrow> h \<in> set (nodesOf dm) \<longleftrightarrow> parentsOf dm h \<noteq> []"
  using parentsOf_not_node[of h dm] by (auto simp: dag_wf_def)

lemma nodesOf_update:
  "set (nodesOf (dm\<lparr>dm_edges := AList.update f ps (dm_edges dm)\<rparr>)) = insert f (set (nodesOf dm))"
  by (simp add: nodesOf_def dom_update)

lemma dag_wf_New [simp]: "dag_wf NewDAGManager"
  by (simp add: dag_wf_def NewDAGManager_def nodesOf_def)

lemma parentsOf_New [simp]: "parentsOf NewDAGManager h = []"
  by (simp add: NewDAGManager_def parentsOf_def)

lemma parentsOf_add:
  "parentsOf (dm\<lparr>dm_edges := AList.update f ps (dm_edges dm)\<rparr>) h =
     (if h = f then ps else parentsOf dm h)"
  by (simp add: parentsOf_def update_conv')

text \<open>The four ways \<^verbatim>\<open>AddEdge\<close> ends.\<close>

lemma AddEdge_cases:
  obtains (self) "from = to" "AddEdge dm from to = (Some (ErrDAGCycle (short_hash from) (short_hash to)), dm)"
  | (cycle) "from \<noteq> to" "fst (isAncestorLocked dm to from {} 0)"
      "AddEdge dm from to = (Some (ErrDAGCycle (short_hash from) (short_hash to)), dm)"
  | (dup) "from \<noteq> to" "\<not> fst (isAncestorLocked dm to from {} 0)" "to \<in> set (parentsOf dm from)"
      "AddEdge dm from to = (Some ErrDAGEdgeDuplicate, dm)"
  | (new) dm' where "from \<noteq> to" "\<not> fst (isAncestorLocked dm to from {} 0)"
      "to \<notin> set (parentsOf dm from)" "AddEdge dm from to = (None, dm')"
      "\<And>h. parentsOf dm' h = (if h = from then parentsOf dm from @ [to] else parentsOf dm h)"
proof -
  let ?dm' = "dm\<lparr>dm_edges := AList.update from (parentsOf dm from @ [to]) (dm_edges dm)\<rparr>"
  have "parentsOf ?dm' h = (if h = from then parentsOf dm from @ [to] else parentsOf dm h)" for h
    by (rule parentsOf_add)
  then show thesis
    using that by (cases "from = to"; cases "fst (isAncestorLocked dm to from {} 0)";
        cases "to \<in> set (parentsOf dm from)") (simp_all add: AddEdge_def)
qed

lemma AddEdge_None_edges:
  "AddEdge dm from to = (None, dm') \<Longrightarrow> edge_rel dm' = insert (from, to) (edge_rel dm)"
  by (cases rule: AddEdge_cases[of "from" to dm]) (auto split: if_splits)

lemma AddEdge_Some: "AddEdge dm from to = (Some e, dm') \<Longrightarrow> dm' = dm"
  by (cases rule: AddEdge_cases[of "from" to dm]) auto

lemma AddEdge_wf: "dag_wf dm \<Longrightarrow> dag_wf (snd (AddEdge dm from to))"
  by (auto simp: AddEdge_def dag_wf_def nodesOf_update parentsOf_add)
    (simp add: nodesOf_def distinct_update)

section \<open>The cycle check is sound, and complete on graphs of up to 201 nodes\<close>

lemma isAncestor_sound:
  "fst (isAncestorLocked dm cur target visited depth) \<Longrightarrow> (cur, target) \<in> (edge_rel dm)\<^sup>+"
  "fst (ancestorLoop dm ps target visited depth) \<Longrightarrow> \<exists>p \<in> set ps. (p, target) \<in> (edge_rel dm)\<^sup>*"
proof (induction dm cur target visited depth and dm ps target visited depth
    rule: isAncestorLocked_ancestorLoop.induct)
  case (1 dm cur target visited depth)
  then show ?case
    by (subst (asm) isAncestorLocked.simps)
      (auto split: if_splits intro: rtrancl_into_trancl2)
next
  case (2 dm target visited depth)
  then show ?case by simp
next
  case (3 dm parent ps target visited depth)
  then show ?case
    by (auto split: if_splits prod.splits bool.splits dest: trancl_into_rtrancl)
qed

text \<open>
  What a failed search tells. \<open>closed\<close>: the parents of a node are not the target and have been
  visited too (a node without parents need not be).
\<close>

definition closed :: "dag_manager \<Rightarrow> hash32 \<Rightarrow> hash32 set \<Rightarrow> hash32 list \<Rightarrow> bool" where
  "closed dm target V ps \<longleftrightarrow> (\<forall>p \<in> set ps. p \<noteq> target \<and> (p \<in> V \<or> parentsOf dm p = []))"

definition inner :: "dag_manager \<Rightarrow> hash32 set" where
  "inner dm = {h. parentsOf dm h \<noteq> []}"

lemma finite_inner [simp]: "finite (inner dm)"
proof -
  have "inner dm \<subseteq> set (nodesOf dm)"
    using parentsOf_not_node by (auto simp: inner_def)
  then show ?thesis by (rule finite_subset) simp
qed

lemma closed_mono: "closed dm t V ps \<Longrightarrow> V \<subseteq> W \<Longrightarrow> closed dm t W ps"
  by (auto simp: closed_def)

text \<open>
  A failed search leaves a set of visited nodes closed under parents. The depth bound does not
  cut it short: at depth \<open>d\<close> at least \<open>d\<close> inner nodes are marked, so with at most 201 of them
  nothing unmarked and inner is left when the bound is reached.
\<close>

lemma isAncestor_complete:
  "\<not> fst (isAncestorLocked dm cur target visited depth) \<Longrightarrow> card (inner dm) \<le> 201 \<Longrightarrow>
   depth \<le> card (visited \<inter> inner dm) \<Longrightarrow>
   (let V = snd (isAncestorLocked dm cur target visited depth) in
     visited \<subseteq> V \<and> (cur \<in> V \<or> parentsOf dm cur = []) \<and>
     (\<forall>x \<in> V - visited. closed dm target V (parentsOf dm x)))"
  "\<not> fst (ancestorLoop dm ps target visited depth) \<Longrightarrow> card (inner dm) \<le> 201 \<Longrightarrow>
   depth < card (visited \<inter> inner dm) \<Longrightarrow>
   (let V = snd (ancestorLoop dm ps target visited depth) in
     visited \<subseteq> V \<and> closed dm target V ps \<and>
     (\<forall>x \<in> V - visited. closed dm target V (parentsOf dm x)))"
proof (induction dm cur target visited depth and dm ps target visited depth
    rule: isAncestorLocked_ancestorLoop.induct)
  case (1 dm cur target visited depth)
  show ?case
  proof (cases "cur \<in> visited")
    case True
    then show ?thesis by (simp add: isAncestorLocked.simps)
  next
    case new: False
    show ?thesis
    proof (cases "depth > dagCycleCheckDepth \<or> parentsOf dm cur = []")
      case True
      have "parentsOf dm cur = []"
      proof (rule ccontr)
        assume inner: "parentsOf dm cur \<noteq> []"
        with True "1.prems" have "card (inner dm) \<le> card (visited \<inter> inner dm)"
          by (simp add: dagCycleCheckDepth_def)
        then have "visited \<inter> inner dm = inner dm"
          by (intro card_seteq) auto
        with inner new show False by (auto simp: inner_def)
      qed
      then show ?thesis by (auto simp: isAncestorLocked.simps closed_def Let_def)
    next
      case False
      then have inner: "cur \<in> inner dm" by (simp add: inner_def)
      let ?V = "snd (ancestorLoop dm (parentsOf dm cur) target (insert cur visited) depth)"
      have eq: "isAncestorLocked dm cur target visited depth
          = ancestorLoop dm (parentsOf dm cur) target (insert cur visited) depth"
        using False new by (simp add: isAncestorLocked.simps)
      have "card (insert cur visited \<inter> inner dm) = Suc (card (visited \<inter> inner dm))"
        using new inner by (simp add: Int_insert_left)
      with "1.prems" have "depth < card (insert cur visited \<inter> inner dm)" by simp
      with "1.IH" False new "1.prems" eq show ?thesis
        by (auto simp: Let_def)
    qed
  qed
next
  case (2 dm target visited depth)
  then show ?case by (simp add: closed_def)
next
  case (3 dm parent ps target visited depth)
  obtain b V1 where step: "isAncestorLocked dm parent target visited (depth + 1) = (b, V1)"
    by fastforce
  from "3.prems"(1) step have ne: "parent \<noteq> target" and b: "\<not> b"
    by (auto split: if_splits bool.splits)
  have IH1: "visited \<subseteq> V1" "parent \<in> V1 \<or> parentsOf dm parent = []"
    "\<forall>x \<in> V1 - visited. closed dm target V1 (parentsOf dm x)"
    using "3.IH"(1)[OF ne] "3.prems" step b by auto
  have "card (visited \<inter> inner dm) \<le> card (V1 \<inter> inner dm)"
    using IH1(1) by (intro card_mono) auto
  with "3.prems" have d: "depth < card (V1 \<inter> inner dm)" by simp
  let ?V = "snd (ancestorLoop dm ps target V1 depth)"
  have eq: "ancestorLoop dm (parent # ps) target visited depth = ancestorLoop dm ps target V1 depth"
    using ne step b by simp
  have IH2: "V1 \<subseteq> ?V" "closed dm target ?V ps"
    "\<forall>x \<in> ?V - V1. closed dm target ?V (parentsOf dm x)"
    using "3.IH"(2)[OF ne step[symmetric]] "3.prems" b d eq by (auto simp: Let_def)
  have "closed dm target ?V (parent # ps)"
    using IH1 IH2 ne by (auto simp: closed_def)
  moreover have "\<forall>x \<in> ?V - visited. closed dm target ?V (parentsOf dm x)"
    using IH1(3) IH2(1,3) closed_mono by blast
  ultimately show ?case
    using IH1(1) IH2(1) eq by (auto simp: Let_def)
qed

lemma closed_not_reachable:
  assumes "\<And>x. x \<in> V \<Longrightarrow> closed dm target V (parentsOf dm x)"
    and "cur \<in> V \<or> parentsOf dm cur = []"
  shows "(cur, target) \<notin> (edge_rel dm)\<^sup>+"
proof
  assume "(cur, target) \<in> (edge_rel dm)\<^sup>+"
  then obtain y where reach: "(cur, y) \<in> (edge_rel dm)\<^sup>*" and last: "(y, target) \<in> edge_rel dm"
    by (meson tranclD2)
  from reach have "y \<in> V \<or> parentsOf dm y = []"
  proof induction
    case base
    from assms(2) show ?case .
  next
    case (step y z)
    then have "y \<in> V" by auto
    with assms(1) step.hyps(2) show ?case by (auto simp: closed_def)
  qed
  with last assms(1)[of y] show False by (auto simp: closed_def)
qed

lemma isAncestor_exact:
  assumes "card (inner dm) \<le> 201"
  shows "fst (isAncestorLocked dm cur target {} 0) \<longleftrightarrow> (cur, target) \<in> (edge_rel dm)\<^sup>+"
proof
  assume "fst (isAncestorLocked dm cur target {} 0)"
  then show "(cur, target) \<in> (edge_rel dm)\<^sup>+" by (rule isAncestor_sound)
next
  assume reach: "(cur, target) \<in> (edge_rel dm)\<^sup>+"
  show "fst (isAncestorLocked dm cur target {} 0)"
  proof (rule ccontr)
    assume "\<not> fst (isAncestorLocked dm cur target {} 0)"
    from isAncestor_complete(1)[OF this assms] reach
      closed_not_reachable[of "snd (isAncestorLocked dm cur target {} 0)" dm target cur]
    show False by (auto simp: Let_def)
  qed
qed

section \<open>Sorting the tips\<close>

text \<open>Comparing arrays byte by byte is comparing the words.\<close>

lemma take_bit_Suc_byte:
  fixes a :: "'a::len word"
  assumes "8 * Suc n \<le> LENGTH('a)"
  shows "unat (take_bit (8 * Suc n) a)
    = unat (ucast (drop_bit (8 * n) a) :: 8 word) * 2 ^ (8 * n) + unat (take_bit (8 * n) a)"
proof -
  have "unat (ucast (drop_bit (8 * n) a) :: 8 word) = take_bit 8 (drop_bit (8 * n) (unat a))"
    by (simp add: unsigned_ucast_eq unsigned_drop_bit_eq take_bit_nat_eq_self[OF unsigned_less])
  also have "\<dots> = drop_bit (8 * n) (take_bit (8 * Suc n) (unat a))"
    by (simp add: drop_bit_take_bit)
  finally have hi: "unat (ucast (drop_bit (8 * n) a) :: 8 word)
      = take_bit (8 * Suc n) (unat a) div 2 ^ (8 * n)"
    by (simp add: drop_bit_eq_div)
  have lo: "take_bit (8 * n) (unat a) = take_bit (8 * Suc n) (unat a) mod 2 ^ (8 * n)"
    by (simp add: take_bit_take_bit flip: take_bit_eq_mod)
  show ?thesis
    by (simp only: unsigned_take_bit_eq hi lo div_mult_mod_eq)
qed

lemma bytes_less_be_bytes:
  fixes a b :: "'a::len word"
  assumes "8 * n \<le> LENGTH('a)"
  shows "bytes_less (be_bytes n a) (be_bytes n b) \<longleftrightarrow> take_bit (8 * n) a < take_bit (8 * n) b"
  using assms
proof (induction n)
  case 0
  then show ?case by simp
next
  case (Suc n)
  let ?ha = "ucast (drop_bit (8 * n) a) :: 8 word" and ?hb = "ucast (drop_bit (8 * n) b) :: 8 word"
  let ?la = "unat (take_bit (8 * n) a)" and ?lb = "unat (take_bit (8 * n) b)"
  have lt: "unat (take_bit (8 * n) c) < 2 ^ (8 * n)" for c :: "'a word"
    by (simp add: unsigned_take_bit_eq take_bit_nat_less_exp)
  have lex: "x * m + p < y * m + q \<longleftrightarrow> x < y \<or> x = y \<and> p < q"
    if "p < m" "q < m" for x y m p q :: nat
  proof (cases x y rule: linorder_cases)
    case less
    then have "(x + 1) * m \<le> y * m" by (intro mult_le_mono1) simp
    with that less show ?thesis by (simp add: add_mult_distrib)
  next
    case greater
    then have "(y + 1) * m \<le> x * m" by (intro mult_le_mono1) simp
    with that greater show ?thesis by (simp add: add_mult_distrib)
  qed simp
  have "take_bit (8 * Suc n) a < take_bit (8 * Suc n) b \<longleftrightarrow> ?ha < ?hb \<or> ?ha = ?hb \<and> ?la < ?lb"
    unfolding word_less_nat_alt take_bit_Suc_byte[OF Suc.prems] lex[OF lt lt]
    by (simp add: word_unat_eq_iff)
  with Suc show ?case by (auto simp: word_less_nat_alt)
qed

lemma tip_less_iff: "tip_less h k \<longleftrightarrow> h < k"
  using bytes_less_be_bytes[of 32 h k] take_bit_length_eq[of h] take_bit_length_eq[of k]
  by (simp add: tip_less_def)

lemma tip_less_eq: "tip_less = (<)"
  by (simp add: fun_eq_iff tip_less_iff)

lemma insert_by_less: "insert_by (<) (x :: 'a::linorder) xs = insort x xs"
  by (induction xs) (auto simp: not_less)

lemma sort_by_less: "sort_by (<) (xs :: 'a::linorder list) = sort xs"
  by (induction xs) (simp_all add: sort_by_def insert_by_less)

section \<open>Properties of edges and tips\<close>


text \<open>Up to the same size the cycle error is exact: \<open>AddEdge\<close> reports a cycle just when the
  new edge would close one, reports a duplicate just when the edge is there, and otherwise adds
  exactly that edge; after an error the graph is unchanged.\<close>

theorem AddEdge_exact:
  assumes "card (inner dm) \<le> 201"
  shows "AddEdge dm from to =
      (if (to, from) \<in> (edge_rel dm)\<^sup>*
       then (Some (ErrDAGCycle (short_hash from) (short_hash to)), dm)
       else if (from, to) \<in> edge_rel dm then (Some ErrDAGEdgeDuplicate, dm)
       else (None, snd (AddEdge dm from to)))
    \<and> (fst (AddEdge dm from to) = None \<longrightarrow>
         edge_rel (snd (AddEdge dm from to)) = insert (from, to) (edge_rel dm))"
  by (cases rule: AddEdge_cases[of "from" to dm])
    (use isAncestor_exact[OF assms, of to "from"] AddEdge_None_edges[of dm "from" to] in
      \<open>auto simp: rtrancl_eq_or_trancl\<close>)

text \<open>The tips are exactly the nodes that have parents and are no node's parent, each once, in
  ascending byte order (so the first tip is the least one, whatever order Go visits the map in).\<close>

theorem CurrentTips_exact:
  assumes "dag_wf dm"
  shows "sorted_wrt (<) (CurrentTips dm) \<and>
    set (CurrentTips dm) = {h. (\<exists>p. (h, p) \<in> edge_rel dm) \<and> \<not> (\<exists>c. (c, h) \<in> edge_rel dm)}"
proof -
  have child: "h \<in> hasChild dm \<longleftrightarrow> (\<exists>c. (c, h) \<in> edge_rel dm)" for h
  proof
    assume "h \<in> hasChild dm"
    then obtain c ps where c: "(c, ps) \<in> set (dm_edges dm)" "h \<in> set ps"
      by (auto simp: hasChild_def)
    with assms have "parentsOf dm c = ps"
      by (simp add: parentsOf_def dag_wf_def nodesOf_def)
    with c show "\<exists>c. (c, h) \<in> edge_rel dm" by auto
  next
    assume "\<exists>c. (c, h) \<in> edge_rel dm"
    then show "h \<in> hasChild dm"
      by (auto simp: hasChild_def parentsOf_def split: option.splits)
        (metis map_of_SomeD snd_conv)
  qed
  have "CurrentTips dm = sort (filter (\<lambda>node. node \<notin> hasChild dm) (nodesOf dm))"
    by (simp add: CurrentTips_def tip_less_eq sort_by_less)
  moreover have "(\<exists>p. (h, p) \<in> edge_rel dm) \<longleftrightarrow> h \<in> set (nodesOf dm)" for h
    using node_iff_parents[OF assms, of h] by (cases "parentsOf dm h") auto
  ultimately show ?thesis
    using assms child by (auto simp: strict_sorted_iff dag_wf_def)
qed

end
