(* ===== verification/Dag_Depth.thy ===== *)
theory Dag_Depth
  imports Dag
begin

text \<open>
  More of \<^verbatim>\<open>internal/protocol/dag.go\<close>: what \<^verbatim>\<open>AdvanceTip\<close> does to the graph, the limit of the
  bounded cycle check, and \<^verbatim>\<open>Depth\<close>.
\<close>

section \<open>Advancing a tip\<close>

lemma AddEdge_keeps:
  "edge_rel dm \<subseteq> edge_rel (snd (AddEdge dm from to))"
  "edge_rel (snd (AddEdge dm from to)) \<subseteq> insert (from, to) (edge_rel dm)"
proof -
  obtain e dm' where step: "AddEdge dm from to = (e, dm')" by fastforce
  then have "edge_rel dm' = (if e = None then insert (from, to) (edge_rel dm) else edge_rel dm)"
    using AddEdge_None_edges[of dm "from" to dm'] AddEdge_Some[of dm "from" to _ dm']
    by (cases e) simp_all
  with step show "edge_rel dm \<subseteq> edge_rel (snd (AddEdge dm from to))"
    "edge_rel (snd (AddEdge dm from to)) \<subseteq> insert (from, to) (edge_rel dm)" by auto
qed

lemma AddEdge_dup_in: "AddEdge dm from to = (Some ErrDAGEdgeDuplicate, dm') \<Longrightarrow> (from, to) \<in> edge_rel dm"
  by (cases rule: AddEdge_cases[of "from" to dm]) auto

lemma AdvanceTip_wf: "dag_wf dm \<Longrightarrow> dag_wf (snd (AdvanceTip dm h ps))"
proof (induction ps arbitrary: dm)
  case Nil
  then show ?case by simp
next
  case (Cons p ps)
  obtain e dm' where step: "AddEdge dm h p = (e, dm')" by fastforce
  with AddEdge_wf[OF Cons.prems, of h p] have "dag_wf dm'" by simp
  with step Cons.IH show ?case by (simp split: option.splits)
qed

lemma AdvanceTip_bounds:
  "edge_rel dm \<subseteq> edge_rel (snd (AdvanceTip dm h ps)) \<and>
   edge_rel (snd (AdvanceTip dm h ps)) \<subseteq> edge_rel dm \<union> {h} \<times> set ps"
proof (induction ps arbitrary: dm)
  case Nil
  then show ?case by simp
next
  case (Cons p ps)
  obtain e dm' where step: "AddEdge dm h p = (e, dm')" by fastforce
  with AddEdge_keeps[of dm h p] have "edge_rel dm \<subseteq> edge_rel dm'"
    "edge_rel dm' \<subseteq> insert (h, p) (edge_rel dm)" by simp_all
  with step Cons.IH[of dm'] show ?case by (auto split: option.splits)
qed

text \<open>When \<open>AdvanceTip\<close> reports no error, the graph has exactly the old edges and one from the
  transaction to each of its parents.\<close>

theorem AdvanceTip_edges:
  assumes "AdvanceTip dm h ps = (None, dm')"
  shows "edge_rel dm' = edge_rel dm \<union> {h} \<times> set ps"
  using assms
proof (induction ps arbitrary: dm)
  case Nil
  then show ?case by simp
next
  case (Cons p ps)
  obtain e dm1 where step: "AddEdge dm h p = (e, dm1)" by fastforce
  have "edge_rel dm1 = insert (h, p) (edge_rel dm)" and rest: "AdvanceTip dm1 h ps = (None, dm')"
    using Cons.prems step AddEdge_None_edges[of dm h p dm1] AddEdge_dup_in[of dm h p dm1]
      AddEdge_Some[of dm h p _ dm1]
    by (auto split: option.splits if_splits)
  with Cons.IH[OF rest] show ?case by auto
qed

theorem AdvanceTip_edges_witness:
  "\<exists>dm'. AdvanceTip NewDAGManager 7 [3, 5] = (None, dm') \<and> edge_rel dm' = {7} \<times> {3, 5}"
proof -
  obtain dm' where dm': "AdvanceTip NewDAGManager 7 [3, 5] = (None, dm')"
    by (simp add: AddEdge_def NewDAGManager_def isAncestorLocked.simps parentsOf_def
        dagCycleCheckDepth_def)
  from AdvanceTip_edges[OF dm'] dm' show ?thesis by (auto simp: edge_rel_def)
qed

text \<open>Witnesses for the properties of single edges: a chain of two edges.\<close>

definition sample_dag :: dag_manager where
  "sample_dag = \<lparr>dm_edges = [(1, [2]), (2, [3])]\<rparr>"

lemma sample_dag_edges: "edge_rel sample_dag = {(1, 2), (2, 3)}"
  by (auto simp: edge_rel_def sample_dag_def parentsOf_def split: if_splits)

lemma sample_dag_inner: "card (inner sample_dag) \<le> 201"
proof -
  have "inner sample_dag = {1, 2}"
    by (auto simp: inner_def sample_dag_def parentsOf_def split: if_splits)
  then show ?thesis by simp
qed

lemma less_acyclic:
  fixes r :: "('a :: order \<times> 'a) set"
  assumes "\<And>a b. (a, b) \<in> r \<Longrightarrow> a < b"
  shows "acyclic r"
proof -
  have "(a, b) \<in> r\<^sup>+ \<Longrightarrow> a < b" for a b
    by (induction rule: trancl_induct) (auto dest: assms less_trans)
  then show ?thesis by (auto simp: acyclic_def)
qed

lemma sample_dag_acyclic: "acyclic (edge_rel sample_dag)"
  by (rule less_acyclic) (auto simp: sample_dag_edges)


theorem AddEdge_exact_witness:
  "AddEdge sample_dag 3 1 = (Some (ErrDAGCycle (short_hash 3) (short_hash 1)), sample_dag)"
proof -
  have "(1, 3) \<in> (edge_rel sample_dag)\<^sup>*"
    unfolding sample_dag_edges by (rule converse_rtrancl_into_rtrancl[of 1 2]) auto
  with AddEdge_exact[OF sample_dag_inner, of 3 1] show ?thesis by presburger
qed

theorem CurrentTips_exact_witness:
  "set (CurrentTips sample_dag) = {1}"
proof -
  have "dag_wf sample_dag" by (simp add: dag_wf_def sample_dag_def nodesOf_def parentsOf_def)
  from CurrentTips_exact[OF this] have "set (CurrentTips sample_dag)
      = {h. (\<exists>p. (h, p) \<in> {(1, 2), (2, 3 :: hash32)})
        \<and> \<not> (\<exists>c. (c, h) \<in> {(1 :: hash32, 2), (2, 3)})}"
    unfolding sample_dag_edges by (rule conjunct2)
  also have "\<dots> = {1}" by auto
  finally show ?thesis .
qed

section \<open>The limit of the cycle check\<close>

text \<open>The chain \<open>0 \<rightarrow> 1 \<rightarrow> \<dots> \<rightarrow> n\<close>.\<close>

definition chain_node :: "nat \<Rightarrow> hash32" where
  "chain_node i = word_of_nat i"

definition chain_dag :: "nat \<Rightarrow> dag_manager" where
  "chain_dag n = \<lparr>dm_edges = map (\<lambda>i. (chain_node i, [chain_node (Suc i)])) [0..<n]\<rparr>"

lemma unat_chain_node: "i < 1000 \<Longrightarrow> unat (chain_node i) = i"
  by (simp add: chain_node_def unat_of_nat)

lemma chain_node_inject: "i < 1000 \<Longrightarrow> j < 1000 \<Longrightarrow> chain_node i = chain_node j \<longleftrightarrow> i = j"
  by (metis unat_chain_node)

lemma nodesOf_chain: "set (nodesOf (chain_dag n)) = chain_node ` {0..<n}"
  by (simp add: chain_dag_def nodesOf_def)

lemma parentsOf_chain:
  assumes "n < 1000"
  shows "i < n \<Longrightarrow> parentsOf (chain_dag n) (chain_node i) = [chain_node (Suc i)]"
    and "parentsOf (chain_dag n) (chain_node n) = []"
proof -
  assume "i < n"
  then have "map_of (dm_edges (chain_dag n)) (chain_node i) = Some [chain_node (Suc i)]"
    using assms
    by (intro map_of_is_SomeI)
      (auto simp: chain_dag_def comp_def distinct_map inj_on_def chain_node_inject)
  then show "parentsOf (chain_dag n) (chain_node i) = [chain_node (Suc i)]"
    by (simp add: parentsOf_def)
next
  show "parentsOf (chain_dag n) (chain_node n) = []"
    using assms by (intro parentsOf_not_node) (auto simp: nodesOf_chain chain_node_inject)
qed

lemma chain_edges:
  assumes "n < 1000"
  shows "p \<in> set (parentsOf (chain_dag n) h) \<longleftrightarrow> (\<exists>i<n. h = chain_node i \<and> p = chain_node (Suc i))"
proof
  assume e: "p \<in> set (parentsOf (chain_dag n) h)"
  then have "h \<in> chain_node ` {0..<n}"
    using parentsOf_not_node[of h "chain_dag n"] nodesOf_chain[of n] by force
  with e show "\<exists>i<n. h = chain_node i \<and> p = chain_node (Suc i)"
    using parentsOf_chain(1)[OF assms] by auto
qed (use parentsOf_chain(1)[OF assms] in auto)

lemma chain_search_cut:
  assumes "i \<le> 201"
  shows "\<not> fst (isAncestorLocked (chain_dag 202) (chain_node i) (chain_node 202)
    (chain_node ` {0..<i}) i)"
  using assms
proof (induction "201 - i" arbitrary: i)
  case 0
  then show ?case by (simp add: isAncestorLocked.simps dagCycleCheckDepth_def)
next
  case (Suc k)
  then have IH: "\<not> fst (isAncestorLocked (chain_dag 202) (chain_node (Suc i)) (chain_node 202)
    (chain_node ` {0..<Suc i}) (Suc i))" by simp
  have "chain_node i \<notin> chain_node ` {0..<i}"
    using Suc.prems by (auto simp: chain_node_inject)
  moreover have "insert (chain_node i) (chain_node ` {0..<i}) = chain_node ` {0..<Suc i}"
    by (auto simp: atLeast0_lessThan_Suc)
  moreover have "parentsOf (chain_dag 202) (chain_node i) = [chain_node (Suc i)]"
    using Suc by (intro parentsOf_chain) simp_all
  moreover have "chain_node (Suc i) \<noteq> chain_node 202"
    using Suc chain_node_inject[of "Suc i" 202] by simp
  moreover obtain V where "isAncestorLocked (chain_dag 202) (chain_node (Suc i)) (chain_node 202)
      (chain_node ` {0..<Suc i}) (Suc i) = (False, V)"
    using IH by (metis (full_types) prod.collapse)
  ultimately show ?case
    by (subst isAncestorLocked.simps) (simp add: dagCycleCheckDepth_def)
qed

lemma chain_reach:
  assumes "n < 1000" and "i \<le> n"
  shows "(chain_node 0, chain_node i) \<in> (edge_rel (chain_dag n))\<^sup>*"
  using assms(2)
proof (induction i)
  case 0
  then show ?case by simp
next
  case (Suc i)
  then have "(chain_node i, chain_node (Suc i)) \<in> edge_rel (chain_dag n)"
    using parentsOf_chain(1)[OF assms(1), of i] by simp
  with Suc show ?case by (meson Suc_leD rtrancl.rtrancl_into_rtrancl)
qed

text \<open>The bound is sharp: on an acyclic chain of 202 nodes with parents, \<open>AddEdge\<close> accepts the
  edge from its end back to its start, with no error, and the graph has a cycle.\<close>

theorem AddEdge_misses_long_cycle:
  "acyclic (edge_rel (chain_dag 202))
    \<and> fst (AddEdge (chain_dag 202) (chain_node 202) (chain_node 0)) = None
    \<and> \<not> acyclic (edge_rel (snd (AddEdge (chain_dag 202) (chain_node 202) (chain_node 0))))"
proof -
  let ?D = "chain_dag 202" and ?e = "chain_node 202" and ?s = "chain_node 0"
  have "a < b" if "(a, b) \<in> edge_rel ?D" for a b
    using that by (auto simp: chain_edges word_less_nat_alt unat_chain_node)
  then have acyc: "acyclic (edge_rel ?D)" by (rule less_acyclic)
  have ne: "?e \<noteq> ?s" by (simp add: chain_node_inject)
  have "\<not> fst (isAncestorLocked ?D ?s ?e {} 0)"
    using chain_search_cut[of 0] by simp
  moreover have "parentsOf ?D ?e = []"
    using parentsOf_chain(2)[of 202] by simp
  ultimately have ok: "fst (AddEdge ?D ?e ?s) = None"
    using ne by (simp add: AddEdge_def)
  then have "edge_rel (snd (AddEdge ?D ?e ?s)) = insert (?e, ?s) (edge_rel ?D)"
    by (intro AddEdge_None_edges) (simp add: prod_eq_iff)
  moreover have "(?s, ?e) \<in> (edge_rel ?D)\<^sup>*"
    using chain_reach[of 202 202] by simp
  ultimately show ?thesis using acyc ok by (simp add: acyclic_insert)
qed

section \<open>Depth\<close>

text \<open>
  \<^verbatim>\<open>depthFrom\<close> and the loop in it. The visited map is shared by all branches of one search, so it
  is returned; the recursion ends because each nested call marks one more node with parents.
\<close>

function depthFrom :: "dag_manager \<Rightarrow> hash32 \<Rightarrow> hash32 set \<Rightarrow> nat \<Rightarrow> nat \<times> hash32 set"
  and depthLoop :: "dag_manager \<Rightarrow> hash32 list \<Rightarrow> hash32 set \<Rightarrow> nat \<Rightarrow> nat \<Rightarrow> nat \<times> hash32 set"
where
  "depthFrom dm cur visited depth =
     (if cur \<in> visited \<or> parentsOf dm cur = [] then (depth, visited)
      else depthLoop dm (parentsOf dm cur) (insert cur visited) depth depth)"
| "depthLoop dm [] visited depth mx = (mx, visited)"
| "depthLoop dm (p # ps) visited depth mx =
     (case depthFrom dm p visited (depth + 1) of
        (d, visited') \<Rightarrow> depthLoop dm ps visited' depth (if d > mx then d else mx))"
  by pat_completeness auto

lemma depth_visited:
  "depthFrom_depthLoop_dom (Inl (dm, cur, visited, depth)) \<Longrightarrow>
     visited \<subseteq> snd (depthFrom dm cur visited depth)"
  "depthFrom_depthLoop_dom (Inr (dm, ps, visited, depth, mx)) \<Longrightarrow>
     visited \<subseteq> snd (depthLoop dm ps visited depth mx)"
proof (induction rule: depthFrom_depthLoop.pinduct)
  case (1 dm cur visited depth)
  then show ?case by (auto simp: depthFrom.psimps)
next
  case (2 dm visited depth mx)
  then show ?case by (simp add: depthLoop.psimps)
next
  case (3 dm p ps visited depth mx)
  then show ?case by (force simp: depthLoop.psimps split: prod.splits)
qed

termination depthFrom
proof (relation "measures
    [\<lambda>x. case x of Inl (dm, cur, visited, depth) \<Rightarrow> card (inner dm - visited)
      | Inr (dm, ps, visited, depth, mx) \<Rightarrow> card (inner dm - visited),
     \<lambda>x. case x of Inl _ \<Rightarrow> 0 | Inr (dm, ps, visited, depth, mx) \<Rightarrow> Suc (length ps)]", goal_cases)
  case 1
  then show ?case by simp
next
  case (2 dm cur visited depth)
  then have "inner dm - insert cur visited \<subset> inner dm - visited" by (auto simp: inner_def)
  then have "card (inner dm - insert cur visited) < card (inner dm - visited)"
    by (intro psubset_card_mono) auto
  then show ?case by simp
next
  case (3 dm p ps visited depth mx)
  then show ?case by simp
next
  case (4 dm p ps visited depth mx d visited')
  then have "visited \<subseteq> visited'" using depth_visited(1)[of dm p visited "depth + 1"]
    by (metis snd_conv)
  then have "card (inner dm - visited') \<le> card (inner dm - visited)"
    by (intro card_mono) auto
  then show ?case by auto
qed

declare depthFrom.simps [simp del]

definition Depth :: "dag_manager \<Rightarrow> nat" where
  "Depth dm =
     (if dm_edges dm = [] then 0
      else foldl (\<lambda>mx node. let d = fst (depthFrom dm node {} 0) in if d > mx then d else mx)
             0 (nodesOf dm))"

lemma depth_path:
  "\<exists>n y. fst (depthFrom dm cur visited depth) = depth + n \<and> (cur, y) \<in> edge_rel dm ^^ n"
  "mx = depth \<or> (\<exists>n y p. mx = depth + Suc n \<and> p \<in> Q \<and> (p, y) \<in> edge_rel dm ^^ n) \<Longrightarrow>
   set ps \<subseteq> Q \<Longrightarrow>
     fst (depthLoop dm ps visited depth mx) = depth \<or>
     (\<exists>n y p. fst (depthLoop dm ps visited depth mx) = depth + Suc n \<and> p \<in> Q
        \<and> (p, y) \<in> edge_rel dm ^^ n)"
proof (induction dm cur visited depth and dm ps visited depth mx arbitrary: and Q
    rule: depthFrom_depthLoop.induct)
  case (1 dm cur visited depth)
  show ?case
  proof (cases "cur \<in> visited \<or> parentsOf dm cur = []")
    case True
    then show ?thesis by (intro exI[of _ "0 :: nat"]) (auto simp: depthFrom.simps)
  next
    case False
    with "1.IH"[OF False, of "set (parentsOf dm cur)"] consider
      "fst (depthFrom dm cur visited depth) = depth"
      | n y p where "fst (depthFrom dm cur visited depth) = depth + Suc n"
        "p \<in> set (parentsOf dm cur)" "(p, y) \<in> edge_rel dm ^^ n"
      by (auto simp: depthFrom.simps[of dm cur])
    then show ?thesis
    proof cases
      case 1
      then show ?thesis by (intro exI[of _ "0 :: nat"]) auto
    next
      case 2
      then have "(cur, y) \<in> edge_rel dm ^^ Suc n" by (intro relpow_Suc_I2) auto
      with 2 show ?thesis by blast
    qed
  qed
next
  case (2 dm visited depth mx)
  then show ?case by simp
next
  case (3 dm p ps visited depth mx)
  obtain d V where d: "depthFrom dm p visited (depth + 1) = (d, V)" by fastforce
  from "3.IH"(1) d obtain n y where n: "d = depth + Suc n" "(p, y) \<in> edge_rel dm ^^ n"
    by auto
  with "3.prems" have "(if d > mx then d else mx) = depth \<or>
    (\<exists>n y p. (if d > mx then d else mx) = depth + Suc n \<and> p \<in> Q \<and> (p, y) \<in> edge_rel dm ^^ n)"
    by auto
  with "3.IH"(2)[OF d[symmetric], of Q] "3.prems" d show ?case by simp
qed

text \<open>The depth reported is never more than there is: the graph has a path of that many
  edges.\<close>

theorem Depth_path: "\<exists>x y. (x, y) \<in> edge_rel dm ^^ Depth dm"
proof -
  let ?step = "\<lambda>mx node. let d = fst (depthFrom dm node {} 0) in if d > mx then d else mx"
  have "\<exists>x y. (x, y) \<in> edge_rel dm ^^ foldl ?step m ns" if "\<exists>x y. (x, y) \<in> edge_rel dm ^^ m" for m ns
    using that
  proof (induction ns arbitrary: m)
    case Nil
    then show ?case by simp
  next
    case (Cons h ns)
    obtain n y where "fst (depthFrom dm h {} 0) = n" "(h, y) \<in> edge_rel dm ^^ n"
      using depth_path(1)[of dm h "{}" 0] by auto
    with Cons.prems have "\<exists>x y. (x, y) \<in> edge_rel dm ^^ ?step m h" by (auto simp: Let_def)
    with Cons.IH show ?case by simp
  qed
  moreover have "\<exists>x y. (x, y) \<in> edge_rel dm ^^ 0" by simp
  ultimately show ?thesis unfolding Depth_def by simp
qed

text \<open>But it can be less than the longest path, which the code's comment promises: because all
  branches share one visited map, a node first reached by a short way is not entered again on a
  longer one. Here the depth is 2 and a path of 3 edges exists.\<close>

definition diamond_dag :: dag_manager where
  "diamond_dag = \<lparr>dm_edges = [(1, [2, 3]), (3, [2]), (2, [4])]\<rparr>"

theorem Depth_not_longest:
  "acyclic (edge_rel diamond_dag) \<and> Depth diamond_dag = 2 \<and> (1, 4) \<in> edge_rel diamond_dag ^^ 3"
proof -
  have ps: "parentsOf diamond_dag h = (if h = 1 then [2, 3] else if h = 3 then [2]
      else if h = 2 then [4] else [])" for h
    by (simp add: diamond_dag_def parentsOf_def)
  have rel: "edge_rel diamond_dag = {(1, 2), (1, 3), (3, 2), (2, 4)}"
    by (auto simp: edge_rel_def ps split: if_splits)
  have "acyclic ({} :: (hash32 \<times> hash32) set)" by (simp add: acyclic_def)
  then have "acyclic {(1, 2), (1, 3), (3, 2), (2, 4 :: hash32)}"
    by (simp add: acyclic_insert rtrancl_insert)
  moreover have "nodesOf diamond_dag = [1, 3, 2]" and "dm_edges diamond_dag \<noteq> []"
    by (simp_all add: diamond_dag_def nodesOf_def)
  then have "Depth diamond_dag = 2"
    by (simp add: Depth_def depthFrom.simps ps)
  moreover have "(1, 4) \<in> edge_rel diamond_dag ^^ 3"
    unfolding rel by (auto simp: numeral_3_eq_3 relcomp_unfold)
  ultimately show ?thesis by (simp add: rel)
qed

end
