(* ===== verification/TxProc.thy ===== *)
theory TxProc
  imports Crypto Stores Dag_Depth
begin

text \<open>
  \<^verbatim>\<open>internal/protocol/transaction.go\<close>: building, verifying, confirming and applying transactions
  over the stores and the graph. Each operation reads the clock once, \<open>now\<close>.
\<close>

section \<open>The processor and its surroundings\<close>

text \<open>
  What is not under \<^verbatim>\<open>src/\<close>: BadgerDB, the cryptographic primitives, and JSON coding of the
  records the stores keep.
\<close>

record ('db, 'txn) env =
  en_badger :: "('db, 'txn) badger"
  en_crypto :: crypto_ops
  en_tx :: "transaction codec"
  en_snap :: "snapshot codec"
  en_wits :: "witness list codec"

text \<open>The stores share one database; the graph is in memory.\<close>

record 'db tx_processor =
  tp_db :: 'db
  tp_dag :: dag_manager

definition snapshotInterval :: u64 where "snapshotInterval = 1000"
definition snapshotTTL :: duration where "snapshotTTL = 6 * 3600 * Second"

record verify_packet =
  vp_Tx :: "transaction option"
  vp_Snapshot :: "snapshot option"
  vp_KnownTips :: "hash32 set"

section \<open>BuildTx\<close>

text \<open>\<open>rnd\<close> is what \<^verbatim>\<open>rand.Read\<close> delivers for the 8-byte nonce buffer.\<close>

definition BuildTx ::
  "('db, 'txn) env \<Rightarrow> 'db tx_processor \<Rightarrow> gtime \<Rightarrow> error + bytes \<Rightarrow> keypair \<Rightarrow> pubkey \<Rightarrow> amount \<Rightarrow>
     transaction result" where
  "BuildTx E tp now rnd kp to amt =
     (case ValidateAmount amt of
        Some e \<Rightarrow> Err e
      | None \<Rightarrow>
          bindO (mapErr (Wrapf ''get balance: %w'' [])
                   (GetBalance (en_badger E) (tp_db tp) now (kp_Public kp))) (\<lambda>bal.
          bindO (SafeAdd amt (BondAmount amt)) (\<lambda>needed.
          if bal < needed then Err ErrTxInsufficientBal
          else bindO (GetLatestSeq (en_badger E) (tp_db tp) now (kp_Public kp)) (\<lambda>seq.
          case rnd of
            Inl e \<Rightarrow> Err e
          | Inr nonceBuf \<Rightarrow> bindO (Uint64 nonceBuf) (\<lambda>nonce.
              SignTx (en_crypto E) kp
                \<lparr>tx_Hash = 0, tx_Sequence = seq + 1, tx_Nonce = nonce, tx_From = kp_Public kp,
                 tx_To = to, tx_Amount = amt, tx_SenderSig = 0,
                 tx_ParentHashes = CurrentTips (tp_dag tp), tx_WitnessSigs = [],
                 tx_CreatedAt = now, tx_Status = TxPending\<rparr>)))))"

definition AcquireNonceLock ::
  "('db, 'txn) env \<Rightarrow> 'db \<Rightarrow> gtime \<Rightarrow> transaction \<Rightarrow> error option \<times> 'db" where
  "AcquireNonceLock E db now tx = Lock (en_badger E) db now (tx_From tx) (tx_Nonce tx)"

definition ReleaseNonceLock :: "('db, 'txn) env \<Rightarrow> 'db \<Rightarrow> gtime \<Rightarrow> transaction \<Rightarrow> 'db" where
  "ReleaseNonceLock E db now tx = snd (Unlock (en_badger E) db now (tx_From tx) (tx_Nonce tx))"

section \<open>VerifyTx\<close>

text \<open>The balance a witness holds a sender to: the snapshot's, the store's, or the smaller.\<close>

definition effectiveBal ::
  "('db, 'txn) env \<Rightarrow> 'db \<Rightarrow> gtime \<Rightarrow> snapshot option \<Rightarrow> pubkey \<Rightarrow> amount result" where
  "effectiveBal E db now snap from =
     (let eff = (case snap of None \<Rightarrow> 0 | Some s \<Rightarrow> sn_Balance s) in
      if HasBalance (en_badger E) db now from
      then bindO (GetBalance (en_badger E) db now from) (\<lambda>dbBal.
             if snap \<noteq> None \<and> dbBal < eff then Ok dbBal
             else if snap = None then Ok dbBal
             else Ok eff)
      else Ok eff)"

text \<open>
  \<^verbatim>\<open>verifyTxInternal\<close>. The error of \<^verbatim>\<open>SafeAdd\<close> is dropped and its value, 0 on an error, used; a nil
  transaction is dereferenced by the signature check.
\<close>

definition verifyTxInternal ::
  "('db, 'txn) env \<Rightarrow> 'db \<Rightarrow> gtime \<Rightarrow> verify_packet \<Rightarrow> unit result" where
  "verifyTxInternal E db now pkt =
     (if (case vp_Snapshot pkt of None \<Rightarrow> False | Some s \<Rightarrow> IsExpired now s)
      then Err (Wrapf ''snapshot expired: %w'' [] ErrSnapshotExpired)
      else (case vp_Tx pkt of
        None \<Rightarrow> Panic
      | Some tx \<Rightarrow>
        (case VerifyTx (en_crypto E) tx of
          Some e \<Rightarrow> Err e
        | None \<Rightarrow>
          bindO (GetLatestSeq (en_badger E) db now (tx_From tx)) (\<lambda>chainSeq.
          if chainSeq > 0 \<and> tx_Sequence tx \<noteq> chainSeq + 1
          then Err (Wrapf ''%w: expected %d got %d'' [uint (chainSeq + 1), uint (tx_Sequence tx)]
                      ErrTxInvalidSequence)
          else bindO (effectiveBal E db now (vp_Snapshot pkt) (tx_From tx)) (\<lambda>eff.
          let needed = (case SafeAdd (tx_Amount tx) (BondAmount (tx_Amount tx)) of
                          Ok n \<Rightarrow> n | _ \<Rightarrow> 0) in
          if eff < needed then Err ErrTxInsufficientBal else Ok ())))))"

definition TxProcessor_VerifyTx :: "('db, 'txn) env \<Rightarrow> 'db \<Rightarrow> gtime \<Rightarrow> verify_packet \<Rightarrow> unit result" where
  "TxProcessor_VerifyTx E db now pkt = verifyTxInternal E db now pkt"

section \<open>ConfirmTx\<close>

text \<open>
  The first half of \<^verbatim>\<open>ConfirmTx\<close>, which only reads: the sender's and the receiver's new balances.
  An error reading the receiver's balance is dropped and 0 taken for it.
\<close>

definition confirmAmounts ::
  "('db, 'txn) env \<Rightarrow> 'db \<Rightarrow> gtime \<Rightarrow> transaction \<Rightarrow> (amount \<times> amount) result" where
  "confirmAmounts E db now tx =
     bindO (mapErr (Wrapf ''ConfirmTx GetBalance: %w'' [])
              (GetBalance (en_badger E) db now (tx_From tx))) (\<lambda>bal.
     bindO (SafeAdd (tx_Amount tx) (BondAmount (tx_Amount tx))) (\<lambda>total.
     bindO (mapErr (Wrapf ''ConfirmTx SafeSub: %w'' []) (SafeSub bal total)) (\<lambda>newSenderBal.
     bindO (case GetBalance (en_badger E) db now (tx_To tx) of
              Ok v \<Rightarrow> Ok v | Err e \<Rightarrow> Ok 0 | Panic \<Rightarrow> Panic | Blocked \<Rightarrow> Blocked) (\<lambda>recvBal.
     bindO (SafeAdd recvBal (tx_Amount tx)) (\<lambda>newRecvBal. Ok (newSenderBal, newRecvBal))))))"

text \<open>
  What \<^verbatim>\<open>ConfirmTx\<close> leaves behind: its result, the processor, the transaction it was given (whose
  status it sets), and the arguments of the snapshot goroutine it starts, if it does.
\<close>

record 'db confirm_result =
  cr_out :: "unit result"
  cr_tp :: "'db tx_processor"
  cr_tx :: transaction
  cr_go :: "(pubkey \<times> amount \<times> u64) option"

text \<open>The second half, which writes: the graph, the batch, the reward pool, the snapshot.\<close>

definition confirmWrite ::
  "('db, 'txn) env \<Rightarrow> 'db tx_processor \<Rightarrow> gtime \<Rightarrow> transaction \<Rightarrow> amount \<times> amount \<Rightarrow>
     'db confirm_result" where
  "confirmWrite E tp now tx bals =
     (case AdvanceTip (tp_dag tp) (tx_Hash tx) (tx_ParentHashes tx) of
        (Some e, dag') \<Rightarrow>
          \<lparr>cr_out = Err (Wrapf ''ConfirmTx DAGTip: %w'' [] e), cr_tp = tp\<lparr>tp_dag := dag'\<rparr>,
           cr_tx = tx, cr_go = None\<rparr>
      | (None, dag') \<Rightarrow>
          (let tx' = tx\<lparr>tx_Status := TxConfirmed\<rparr> in
           case ConfirmTxBatch (en_badger E) (en_tx E) (tp_db tp) now
                  \<lparr>cb_Tx = tx', cb_SenderBal = fst bals, cb_ReceiverBal = snd bals\<rparr> of
             (Some e, db') \<Rightarrow>
               \<lparr>cr_out = Err (Wrapf ''ConfirmTx batch: %w'' [] e),
                cr_tp = \<lparr>tp_db = db', tp_dag = dag'\<rparr>, cr_tx = tx', cr_go = None\<rparr>
           | (None, db') \<Rightarrow>
               (case AccumulateBond (en_badger E) db' now (BondAmount (tx_Amount tx)) of
                  Ok (_, db'') \<Rightarrow>
                    \<lparr>cr_out = Ok (), cr_tp = \<lparr>tp_db = db'', tp_dag = dag'\<rparr>, cr_tx = tx',
                     cr_go = (if tx_Sequence tx mod snapshotInterval = 0
                              then Some (tx_From tx, fst bals, tx_Sequence tx) else None)\<rparr>
                | Err e \<Rightarrow> \<lparr>cr_out = Err e, cr_tp = \<lparr>tp_db = db', tp_dag = dag'\<rparr>, cr_tx = tx', cr_go = None\<rparr>
                | Panic \<Rightarrow> \<lparr>cr_out = Panic, cr_tp = \<lparr>tp_db = db', tp_dag = dag'\<rparr>, cr_tx = tx', cr_go = None\<rparr>
                | Blocked \<Rightarrow> \<lparr>cr_out = Blocked, cr_tp = \<lparr>tp_db = db', tp_dag = dag'\<rparr>, cr_tx = tx', cr_go = None\<rparr>)))"

definition ConfirmTx ::
  "('db, 'txn) env \<Rightarrow> 'db tx_processor \<Rightarrow> gtime \<Rightarrow> transaction \<Rightarrow> 'db confirm_result" where
  "ConfirmTx E tp now tx =
     (case confirmAmounts E (tp_db tp) now tx of
        Ok bals \<Rightarrow> confirmWrite E tp now tx bals
      | Err e \<Rightarrow> \<lparr>cr_out = Err e, cr_tp = tp, cr_tx = tx, cr_go = None\<rparr>
      | Panic \<Rightarrow> \<lparr>cr_out = Panic, cr_tp = tp, cr_tx = tx, cr_go = None\<rparr>
      | Blocked \<Rightarrow> \<lparr>cr_out = Blocked, cr_tp = tp, cr_tx = tx, cr_go = None\<rparr>)"

section \<open>ApplyConfirmedTxBalance, autoSnapshot\<close>

definition ApplyConfirmedTxBalance ::
  "('db, 'txn) env \<Rightarrow> 'db \<Rightarrow> gtime \<Rightarrow> transaction option \<Rightarrow> unit result \<times> 'db" where
  "ApplyConfirmedTxBalance E db now ptx =
     (case ptx of
        None \<Rightarrow> (Panic, db)
      | Some tx \<Rightarrow>
        if IsConfirmedTxApplied (en_badger E) db now (tx_Hash tx) then (Ok (), db)
        else (case bindO (case GetBalance (en_badger E) db now (tx_To tx) of
                       Ok v \<Rightarrow> Ok v | Err e \<Rightarrow> Ok 0 | Panic \<Rightarrow> Panic | Blocked \<Rightarrow> Blocked)
                     (\<lambda>recvBal. SafeAdd recvBal (tx_Amount tx)) of
               Ok newBal \<Rightarrow>
                 (case SaveBalance (en_badger E) db now (tx_To tx) newBal of
                    (Some e, db') \<Rightarrow> (Err e, db')
                  | (None, db') \<Rightarrow>
                      (Ok (), snd (MarkConfirmedTxApplied (en_badger E) db' now (tx_Hash tx))))
             | Err e \<Rightarrow> (Err e, db)
             | Panic \<Rightarrow> (Panic, db)
             | Blocked \<Rightarrow> (Blocked, db)))"

definition autoSnapshot ::
  "('db, 'txn) env \<Rightarrow> 'db tx_processor \<Rightarrow> gtime \<Rightarrow> pubkey \<times> amount \<times> u64 \<Rightarrow> 'db tx_processor" where
  "autoSnapshot E tp now args =
     (case args of (pk, bal, seq) \<Rightarrow>
        (let snap = \<lparr>sn_PubKey = pk, sn_Sequence = seq, sn_Balance = bal,
                     sn_DAGTips = CurrentTips (tp_dag tp), sn_CreatedAt = now,
                     sn_ExpiresAt = now + snapshotTTL\<rparr>
         in tp\<lparr>tp_db := snd (SaveSnapshot (en_badger E) (en_snap E) (tp_db tp) now snap)\<rparr>))"

section \<open>What the operations do to the ledger\<close>

abbreviation led :: "('db, 'txn) badger_abs \<Rightarrow> 'db \<Rightarrow> ledger" where
  "led A db \<equiv> ledger_of (ab_db A db)"

text \<open>The processor's store behaves and is well-formed.\<close>

abbreviation store_ok :: "('db, 'txn) env \<Rightarrow> ('db, 'txn) badger_abs \<Rightarrow> 'db \<Rightarrow> bool" where
  "store_ok E A db \<equiv> badger_ok (en_badger E) A \<and> chain_wf (ab_db A db)"

text \<open>What a transaction takes from its sender, as a number: the amount and the bond.\<close>

definition cost :: "transaction \<Rightarrow> nat" where
  "cost tx = unat (tx_Amount tx) + unat (BondAmount (tx_Amount tx))"

text \<open>The balance \<^verbatim>\<open>recvBal, _ :=\<close> leaves: what the store reads, or 0 after an error.\<close>

definition read_or_zero :: "('db, 'txn) env \<Rightarrow> 'db \<Rightarrow> gtime \<Rightarrow> pubkey \<Rightarrow> amount" where
  "read_or_zero E db now pk = (case GetBalance (en_badger E) db now pk of Ok v \<Rightarrow> v | _ \<Rightarrow> 0)"

lemma read_or_zero_ok:
  "store_ok E A db \<Longrightarrow> is_ok (GetBalance (en_badger E) db now pk) \<Longrightarrow>
     read_or_zero E db now pk = balance (led A db) pk"
  using chain.get_bal_cases[of "en_badger E" A db now pk] by (auto simp: read_or_zero_def)

lemma drop_error_read:
  assumes "store_ok E A db"
  shows "(case GetBalance (en_badger E) db now pk of
            Ok v \<Rightarrow> Ok v | Err e \<Rightarrow> Ok 0 | Panic \<Rightarrow> Panic | Blocked \<Rightarrow> Blocked)
         = Ok (read_or_zero E db now pk)"
  using chain.get_bal_cases[of "en_badger E" A db now pk] assms
  by (auto simp: read_or_zero_def)

lemma confirmAmounts_cases:
  assumes "store_ok E A db"
  shows "(\<exists>s r. confirmAmounts E db now tx = Ok (s, r)
            \<and> cost tx \<le> unat (balance (led A db) (tx_From tx))
            \<and> unat s + cost tx = unat (balance (led A db) (tx_From tx))
            \<and> unat r = unat (read_or_zero E db now (tx_To tx)) + unat (tx_Amount tx))
       \<or> (\<exists>e. confirmAmounts E db now tx = Err e)"
proof -
  let ?L = "led A db" and ?b = "BondAmount (tx_Amount tx)"
  let ?bal = "balance ?L (tx_From tx)" and ?rb = "read_or_zero E db now (tx_To tx)"
  note defs = confirmAmounts_def drop_error_read[OF assms]
  consider e where "GetBalance (en_badger E) db now (tx_From tx) = Err e"
    | "GetBalance (en_badger E) db now (tx_From tx) = Ok ?bal"
    using chain.get_bal_cases[of "en_badger E" A db now "tx_From tx"] assms by blast
  then show ?thesis
  proof cases
    case 1
    then show ?thesis by (simp add: defs)
  next
    case bal: 2
    show ?thesis
    proof (cases "SafeAdd (tx_Amount tx) ?b")
      case total: (Ok total)
      show ?thesis
      proof (cases "SafeSub ?bal total")
        case sub: (Ok s)
        show ?thesis
        proof (cases "SafeAdd ?rb (tx_Amount tx)")
          case (Ok r)
          with bal total sub have "confirmAmounts E db now tx = Ok (s, r)"
            by (simp add: defs)
          moreover from total sub Ok have "cost tx \<le> unat ?bal \<and> unat s + cost tx = unat ?bal
              \<and> unat r = unat ?rb + unat (tx_Amount tx)"
            by (simp add: cost_def SafeAdd_Ok_iff SafeSub_Ok_iff)
          ultimately show ?thesis by blast
        qed (use bal total sub in \<open>simp_all add: defs\<close>)
      qed (use bal total in \<open>simp_all add: defs SafeSub_def split: if_splits\<close>)
    qed (use bal in \<open>simp_all add: defs\<close>)
  qed
qed

text \<open>The ledger a confirmation leaves, before the bond reaches the reward pool.\<close>

definition confirmed_ledger :: "transaction \<Rightarrow> amount \<times> amount \<Rightarrow> bytes \<Rightarrow> ledger \<Rightarrow> ledger" where
  "confirmed_ledger tx bals data =
     confirm_ledger \<lparr>cb_Tx = tx\<lparr>tx_Status := TxConfirmed\<rparr>, cb_SenderBal = fst bals,
                     cb_ReceiverBal = snd bals\<rparr> data"

lemma confirmWrite_cases:
  assumes "store_ok E A (tp_db tp)" and c_def: "c = confirmWrite E tp now tx bals"
  shows "store_ok E A (tp_db (cr_tp c)) \<and>
    ((cr_out c = Ok () \<and> cr_tx c = tx\<lparr>tx_Status := TxConfirmed\<rparr> \<and>
      (\<exists>data. let L = confirmed_ledger tx bals data (led A (tp_db tp)) in
         led A (tp_db (cr_tp c)) = L \<or>
         unat (lg_pool L) + unat (BondAmount (tx_Amount tx)) \<le> unat MaxAmount \<and>
         led A (tp_db (cr_tp c)) = L\<lparr>lg_pool := lg_pool L + BondAmount (tx_Amount tx)\<rparr>))
     \<or> (\<exists>e. cr_out c = Err e \<and> led A (tp_db (cr_tp c)) = led A (tp_db tp)))"
proof -
  let ?b = "\<lparr>cb_Tx = tx\<lparr>tx_Status := TxConfirmed\<rparr>, cb_SenderBal = fst bals,
             cb_ReceiverBal = snd bals\<rparr>"
  obtain err dag' where a: "AdvanceTip (tp_dag tp) (tx_Hash tx) (tx_ParentHashes tx) = (err, dag')"
    by fastforce
  obtain err2 db' where b: "ConfirmTxBatch (en_badger E) (en_tx E) (tp_db tp) now ?b = (err2, db')"
    by fastforce
  show ?thesis
  proof (cases "err = None \<and> err2 = None")
    case False
    show ?thesis
    proof (cases err)
      case None
      with False obtain e where e: "err2 = Some e" by auto
      with b chain.confirm_failed[OF assms(1), of "en_tx E" now ?b e db'] have
        "store_ok E A db'" "led A db' = led A (tp_db tp)" by blast+
      with a b None e show ?thesis by (simp add: c_def confirmWrite_def Let_def)
    next
      case (Some e)
      with a assms(1) show ?thesis by (simp add: c_def confirmWrite_def)
    qed
  next
    case True
    let ?L = "led A (tp_db tp)"
    from True b assms(1) chain.confirm_done[of "en_badger E" A "tp_db tp" "en_tx E" now ?b db']
    obtain data where good: "store_ok E A db'" and L: "led A db' = confirmed_ledger tx bals data ?L"
      by (auto simp: confirmed_ledger_def)
    let ?L' = "confirmed_ledger tx bals data ?L" and ?bond = "BondAmount (tx_Amount tx)"
    obtain e db'' where w: "AccumulateBond (en_badger E) db' now ?bond = Ok (e, db'')"
      and good'': "store_ok E A db''"
      and L'': "led A db'' = ?L' \<or> unat (lg_pool ?L') + unat ?bond \<le> unat MaxAmount
          \<and> led A db'' = ?L'\<lparr>lg_pool := lg_pool ?L' + ?bond\<rparr>"
      using chain.bond_cases[OF good, of now ?bond] unfolding L
      by (elim disjE exE conjE) (rule that, assumption, simp, simp)+
    from w a b True have "cr_out c = Ok ()" "cr_tx c = tx\<lparr>tx_Status := TxConfirmed\<rparr>"
      "tp_db (cr_tp c) = db''"
      by (simp_all add: c_def confirmWrite_def Let_def)
    with good'' L'' show ?thesis unfolding Let_def
      by - (rule conjI, simp, rule disjI1, intro conjI exI[of _ data], simp_all)
  qed
qed

text \<open>A confirmation that succeeds, in one step: the amounts, and the ledger with or without the
  bond in the pool.\<close>

lemma ConfirmTx_Ok:
  assumes good: "store_ok E A (tp_db tp)" and c: "ConfirmTx E tp now tx = c"
    and ok: "cr_out c = Ok ()"
  obtains s r data p where
    "store_ok E A (tp_db (cr_tp c))"
    "cr_tx c = tx\<lparr>tx_Status := TxConfirmed\<rparr>"
    "unat s + cost tx = unat (balance (led A (tp_db tp)) (tx_From tx))"
    "unat r = unat (read_or_zero E (tp_db tp) now (tx_To tx)) + unat (tx_Amount tx)"
    "led A (tp_db (cr_tp c)) = (confirmed_ledger tx (s, r) data (led A (tp_db tp)))\<lparr>lg_pool := p\<rparr>"
    "p = lg_pool (led A (tp_db tp)) \<or>
       unat p = unat (lg_pool (led A (tp_db tp))) + unat (BondAmount (tx_Amount tx))"
proof -
  let ?L = "led A (tp_db tp)" and ?bond = "BondAmount (tx_Amount tx)"
  from confirmAmounts_cases[OF good, of now tx] ok c obtain s r where
    a: "confirmAmounts E (tp_db tp) now tx = Ok (s, r)"
    and n: "unat s + cost tx = unat (balance ?L (tx_From tx))"
      "unat r = unat (read_or_zero E (tp_db tp) now (tx_To tx)) + unat (tx_Amount tx)"
    by (auto simp: ConfirmTx_def)
  from a c have c': "c = confirmWrite E tp now tx (s, r)"
    by (simp add: ConfirmTx_def)
  from confirmWrite_cases[OF good c'] ok obtain data where
    w: "store_ok E A (tp_db (cr_tp c))" "cr_tx c = tx\<lparr>tx_Status := TxConfirmed\<rparr>"
    and L': "led A (tp_db (cr_tp c)) = confirmed_ledger tx (s, r) data ?L \<or>
      unat (lg_pool (confirmed_ledger tx (s, r) data ?L)) + unat ?bond \<le> unat MaxAmount \<and>
      led A (tp_db (cr_tp c)) = (confirmed_ledger tx (s, r) data ?L)
        \<lparr>lg_pool := lg_pool (confirmed_ledger tx (s, r) data ?L) + ?bond\<rparr>"
    by (auto simp: Let_def)
  have pool: "lg_pool (confirmed_ledger tx (s, r) data ?L) = lg_pool ?L"
    by (simp add: confirmed_ledger_def confirm_ledger_def Let_def)
  from L' show ?thesis
  proof
    assume "led A (tp_db (cr_tp c)) = confirmed_ledger tx (s, r) data ?L"
    with w n pool show ?thesis by (intro that[of s r "lg_pool ?L" data]) simp_all
  next
    assume *: "unat (lg_pool (confirmed_ledger tx (s, r) data ?L)) + unat ?bond \<le> unat MaxAmount \<and>
      led A (tp_db (cr_tp c)) = (confirmed_ledger tx (s, r) data ?L)
        \<lparr>lg_pool := lg_pool (confirmed_ledger tx (s, r) data ?L) + ?bond\<rparr>"
    then have "unat (lg_pool ?L + ?bond) = unat (lg_pool ?L) + unat ?bond"
      unfolding pool using unat_MaxAmount by (simp add: unat_word_ariths)
    with * w n pool show ?thesis by (intro that[of s r "lg_pool ?L + ?bond" data]) simp_all
  qed
qed

lemma confirmed_ledger_sel:
  "lg_bal (confirmed_ledger tx (s, r) data L) = (lg_bal L)(tx_From tx \<mapsto> s, tx_To tx \<mapsto> r)"
  "lg_seq (confirmed_ledger tx (s, r) data L) = (lg_seq L)(tx_From tx := tx_Sequence tx)"
  "lg_applied (confirmed_ledger tx (s, r) data L) = lg_applied L"
  "lg_pool (confirmed_ledger tx (s, r) data L) = lg_pool L"
  by (simp_all add: confirmed_ledger_def confirm_ledger_def Let_def)

lemma balance_confirmed:
  "balance (confirmed_ledger tx (s, r) data L) pk =
     (if pk = tx_To tx then r else if pk = tx_From tx then s else balance L pk)"
  by (simp add: balance_def confirmed_ledger_sel)

lemma balance_pool [simp]: "balance (L\<lparr>lg_pool := p\<rparr>) pk = balance L pk"
  by (simp add: balance_def)

lemma ConfirmTx_effect:
  assumes "store_ok E A (tp_db tp)" and "ConfirmTx E tp now tx = c" and "cr_out c = Ok ()"
    and "tx_From tx \<noteq> tx_To tx" and "is_ok (GetBalance (en_badger E) (tp_db tp) now (tx_To tx))"
  shows "let L = led A (tp_db tp); L' = led A (tp_db (cr_tp c)) in
      unat (balance L' (tx_From tx)) + cost tx = unat (balance L (tx_From tx))
    \<and> unat (balance L' (tx_To tx)) = unat (balance L (tx_To tx)) + unat (tx_Amount tx)
    \<and> (\<forall>pk. pk \<noteq> tx_From tx \<and> pk \<noteq> tx_To tx \<longrightarrow> lg_bal L' pk = lg_bal L pk)
    \<and> lg_seq L' = (lg_seq L)(tx_From tx := tx_Sequence tx)
    \<and> lg_applied L' = lg_applied L
    \<and> cr_tx c = tx\<lparr>tx_Status := TxConfirmed\<rparr> \<and> store_ok E A (tp_db (cr_tp c))"
proof -
  from ConfirmTx_Ok[OF assms(1-3)] obtain s r data p where
    *: "store_ok E A (tp_db (cr_tp c))" "cr_tx c = tx\<lparr>tx_Status := TxConfirmed\<rparr>"
    "unat s + cost tx = unat (balance (led A (tp_db tp)) (tx_From tx))"
    "unat r = unat (read_or_zero E (tp_db tp) now (tx_To tx)) + unat (tx_Amount tx)"
    "led A (tp_db (cr_tp c)) = (confirmed_ledger tx (s, r) data (led A (tp_db tp)))\<lparr>lg_pool := p\<rparr>"
    by metis
  with assms(4) show ?thesis
    by (simp add: Let_def balance_confirmed confirmed_ledger_sel read_or_zero_ok[OF assms(1,5)])
qed

section \<open>Properties\<close>


text \<open>What a set of accounts holds, with the reward pool.\<close>

definition money :: "pubkey set \<Rightarrow> ledger \<Rightarrow> nat" where
  "money S L = (\<Sum>pk\<in>S. unat (balance L pk)) + unat (lg_pool L)"

lemma sum_two_moved:
  fixes f g :: "'a \<Rightarrow> nat"
  assumes "finite S" and "a \<in> S" and "b \<in> S" and "a \<noteq> b"
    and "\<And>x. x \<noteq> a \<Longrightarrow> x \<noteq> b \<Longrightarrow> f x = g x"
  shows "sum f S + g a + g b = sum g S + f a + f b"
proof -
  have split: "sum h S = h a + (h b + sum h (S - {a} - {b}))" for h :: "'a \<Rightarrow> nat"
    using assms(1-4) sum.remove[of S a h] sum.remove[of "S - {a}" b h] by simp
  have "sum f (S - {a} - {b}) = sum g (S - {a} - {b})"
    using assms(5) by (intro sum.cong) auto
  then show ?thesis using split[of f] split[of g] by linarith
qed


text \<open>C30. A payment to oneself creates money: the receiver's new balance, computed from the balance
  before the debit, is written last and to the same key, so a successful confirmation with sender
  and receiver the same leaves the account richer by the amount, and the debit is lost.\<close>

theorem ConfirmTx_self_mints:
  assumes "store_ok E A (tp_db tp)" and "ConfirmTx E tp now tx = c" and "cr_out c = Ok ()"
    and "tx_From tx = tx_To tx" and "is_ok (GetBalance (en_badger E) (tp_db tp) now (tx_To tx))"
  shows "unat (balance (led A (tp_db (cr_tp c))) (tx_From tx))
    = unat (balance (led A (tp_db tp)) (tx_From tx)) + unat (tx_Amount tx)"
proof -
  from ConfirmTx_Ok[OF assms(1-3)] obtain s r data p where
    "unat r = unat (read_or_zero E (tp_db tp) now (tx_To tx)) + unat (tx_Amount tx)"
    "led A (tp_db (cr_tp c)) = (confirmed_ledger tx (s, r) data (led A (tp_db tp)))\<lparr>lg_pool := p\<rparr>"
    by metis
  with assms(4) show ?thesis by (simp add: balance_confirmed read_or_zero_ok[OF assms(1,5)])
qed

text \<open>A receiver whose balance cannot be read loses it: the read error is dropped, so a
  confirmation that still succeeds leaves the receiver with just the amount, whatever it held.\<close>

theorem ConfirmTx_receiver_read_error:
  assumes "store_ok E A (tp_db tp)" and "ConfirmTx E tp now tx = c" and "cr_out c = Ok ()"
    and "GetBalance (en_badger E) (tp_db tp) now (tx_To tx) = Err e"
  shows "balance (led A (tp_db (cr_tp c))) (tx_To tx) = tx_Amount tx"
proof -
  from ConfirmTx_Ok[OF assms(1-3)] obtain s r data p where
    "unat r = unat (read_or_zero E (tp_db tp) now (tx_To tx)) + unat (tx_Amount tx)"
    "led A (tp_db (cr_tp c)) = (confirmed_ledger tx (s, r) data (led A (tp_db tp)))\<lparr>lg_pool := p\<rparr>"
    by metis
  with assms(4) show ?thesis by (simp add: balance_confirmed read_or_zero_def word_unat_eq_iff)
qed

text \<open>A confirmation that fails reports an error, never panics or hangs, and leaves every balance,
  sequence, record, mark and the pool as they were.\<close>

theorem ConfirmTx_failure:
  assumes "store_ok E A (tp_db tp)" and "ConfirmTx E tp now tx = c" and "cr_out c \<noteq> Ok ()"
  shows "\<exists>e. cr_out c = Err e \<and> led A (tp_db (cr_tp c)) = led A (tp_db tp)
    \<and> store_ok E A (tp_db (cr_tp c)) \<and> cr_go c = None"
proof (cases "confirmAmounts E (tp_db tp) now tx")
  case (Ok bals)
  with assms(2) have c: "c = confirmWrite E tp now tx bals" by (simp add: ConfirmTx_def)
  from confirmWrite_cases[OF assms(1) c] assms(3) obtain e where
    "cr_out c = Err e" "led A (tp_db (cr_tp c)) = led A (tp_db tp)" "store_ok E A (tp_db (cr_tp c))"
    by blast
  moreover from this(1) c have "cr_go c = None"
    by (auto simp: confirmWrite_def Let_def split: prod.splits option.splits outcome.splits)
  ultimately show ?thesis by blast
next
  case (Err e)
  with assms show ?thesis by (auto simp: ConfirmTx_def)
qed (use confirmAmounts_cases[OF assms(1), of now tx] in \<open>simp_all\<close>)

end
