(* ===== verification/TxVerify.thy ===== *)
theory TxVerify
  imports TxProc
begin

text \<open>
  What building and verifying a transaction guarantee, what applying a received confirmation
  does, and a concrete processor on which the properties of this theory and of \<open>TxProc\<close> are run.
\<close>

section \<open>Building\<close>

lemma ValidateAmount_None: "ValidateAmount a = None \<longleftrightarrow> a \<noteq> 0 \<and> a \<le> MaxAmount"
  by (auto simp: ValidateAmount_def)

lemma cost_SafeAdd:
  "SafeAdd (tx_Amount tx) (BondAmount (tx_Amount tx)) = Ok n \<longleftrightarrow>
     cost tx \<le> unat MaxAmount \<and> unat n = cost tx"
  by (auto simp: cost_def SafeAdd_Ok_iff)

lemma BuildTx_guarantees:
  assumes "store_ok E A (tp_db tp)" and "ed25519_ok (en_crypto E)" and "kp_wf (en_crypto E) kp"
    and "BuildTx E tp now rnd kp to amt = Ok tx"
  shows "tx_From tx = kp_Public kp \<and> tx_To tx = to \<and> tx_Amount tx = amt \<and> amt \<noteq> 0
    \<and> cost tx \<le> unat MaxAmount \<and> cost tx \<le> unat (balance (led A (tp_db tp)) (kp_Public kp))
    \<and> tx_Sequence tx = lg_seq (led A (tp_db tp)) (kp_Public kp) + 1
    \<and> tx_ParentHashes tx = CurrentTips (tp_dag tp) \<and> tx_Status tx = TxPending
    \<and> VerifyTx (en_crypto E) tx = None"
proof -
  let ?pk = "kp_Public kp"
  from assms(4) obtain bal needed seq buf nonce where
    v: "amt \<noteq> 0" and bal: "GetBalance (en_badger E) (tp_db tp) now ?pk = Ok bal"
    and n: "SafeAdd amt (BondAmount amt) = Ok needed" "\<not> bal < needed"
    and seq: "GetLatestSeq (en_badger E) (tp_db tp) now ?pk = Ok seq"
    and sg: "SignTx (en_crypto E) kp
      \<lparr>tx_Hash = 0, tx_Sequence = seq + 1, tx_Nonce = nonce, tx_From = ?pk, tx_To = to,
       tx_Amount = amt, tx_SenderSig = 0, tx_ParentHashes = CurrentTips (tp_dag tp),
       tx_WitnessSigs = [], tx_CreatedAt = now, tx_Status = TxPending\<rparr> = Ok tx"
    by (cases rnd) (auto simp: BuildTx_def ValidateAmount_None bindO_eq_Ok
        split: option.splits if_splits)
  let ?tx0 = "\<lparr>tx_Hash = 0, tx_Sequence = seq + 1, tx_Nonce = nonce, tx_From = ?pk, tx_To = to,
       tx_Amount = amt, tx_SenderSig = 0, tx_ParentHashes = CurrentTips (tp_dag tp),
       tx_WitnessSigs = [], tx_CreatedAt = now, tx_Status = TxPending\<rparr>"
  from SignTx_verifies[OF assms(2,3), of ?tx0] sg obtain sig where
    tx: "tx = ?tx0\<lparr>tx_Hash := tx_digest (en_crypto E) ?tx0, tx_SenderSig := sig\<rparr>"
    and ver: "VerifyTx (en_crypto E) tx = None"
    by auto
  have "bal = balance (led A (tp_db tp)) ?pk" "seq = lg_seq (led A (tp_db tp)) ?pk"
    using chain.get_bal_Ok[OF assms(1) bal] chain.get_seq_Ok[OF assms(1) seq] by simp_all
  with v n tx ver show ?thesis
    using cost_SafeAdd[of tx needed] by (simp add: word_less_nat_alt not_less)
qed

text \<open>A transaction that \<open>BuildTx\<close> returns is one its sender can afford and that verifies: the
  amount is positive, amount and bond stay within \<open>MaxAmount\<close> and within the stored balance, the
  sequence is the stored one plus one, the parents are the current tips, and hash and signature
  are right for the sender's key.\<close>

theorem BuildTx_ok:
  assumes "store_ok E A (tp_db tp)" and "ed25519_ok (en_crypto E)" and "kp_wf (en_crypto E) kp"
    and "BuildTx E tp now rnd kp to amt = Ok tx"
  shows "tx_From tx = kp_Public kp \<and> tx_To tx = to \<and> tx_Amount tx = amt \<and> amt \<noteq> 0
    \<and> cost tx \<le> unat MaxAmount \<and> cost tx \<le> unat (balance (led A (tp_db tp)) (kp_Public kp))
    \<and> tx_Sequence tx = lg_seq (led A (tp_db tp)) (kp_Public kp) + 1
    \<and> tx_ParentHashes tx = CurrentTips (tp_dag tp) \<and> tx_Status tx = TxPending
    \<and> VerifyTx (en_crypto E) tx = None"
  by (rule BuildTx_guarantees[OF assms])

section \<open>Verifying\<close>

lemma snapshot_live_iff:
  "(case snap of None \<Rightarrow> False | Some s \<Rightarrow> IsExpired now s) \<longleftrightarrow>
     (\<exists>s. snap = Some s \<and> IsExpired now s)"
  by (cases snap) auto

lemma HasBalance_GetBalance:
  assumes "store_ok E A db" and "is_ok (GetBalance (en_badger E) db now pk)"
    and "balance (led A db) pk \<noteq> 0"
  shows "HasBalance (en_badger E) db now pk"
proof -
  from assms(1,2) chain.get_bal_Ok[OF assms(1)] have
    "GetBalance (en_badger E) db now pk = Ok (balance (led A db) pk)" by (auto simp: is_ok_iff)
  with assms(3) show ?thesis
    by (auto simp: GetBalance_def read_u64_def HasBalance_def split: prod.splits option.splits)
qed

text \<open>The balance a witness holds the sender to is one it read, or the snapshot's, whichever is
  smaller.\<close>

lemma effectiveBal_bound:
  assumes "store_ok E A db" and "effectiveBal E db now snap pk = Ok eff"
  shows "(case snap of None \<Rightarrow> eff \<le> balance (led A db) pk | Some s \<Rightarrow> eff \<le> sn_Balance s)
    \<and> (HasBalance (en_badger E) db now pk \<longrightarrow> eff \<le> balance (led A db) pk)"
proof (cases "HasBalance (en_badger E) db now pk")
  case False
  with assms(2) show ?thesis by (auto simp: effectiveBal_def split: option.splits)
next
  case True
  with assms(2) obtain b where b: "GetBalance (en_badger E) db now pk = Ok b"
    by (auto simp: effectiveBal_def Let_def bindO_eq_Ok)
  with chain.get_bal_Ok[OF assms(1)] have "b = balance (led A db) pk" by blast
  with True b assms(2) show ?thesis
    by (auto simp: effectiveBal_def Let_def not_less split: option.splits if_splits)
qed


lemma VerifyTx_accepts:
  assumes "store_ok E A db" and "VerifyTx (en_crypto E) tx = None"
    and "is_ok (GetLatestSeq (en_badger E) db now (tx_From tx))"
    and "is_ok (GetBalance (en_badger E) db now (tx_From tx))"
    and "lg_seq (led A db) (tx_From tx) = 0 \<or> tx_Sequence tx = lg_seq (led A db) (tx_From tx) + 1"
    and cov: "(case SafeAdd (tx_Amount tx) (BondAmount (tx_Amount tx)) of Ok n \<Rightarrow> n | _ \<Rightarrow> 0)
       \<le> balance (led A db) (tx_From tx)"
  shows "TxProcessor_VerifyTx E db now \<lparr>vp_Tx = Some tx, vp_Snapshot = None, vp_KnownTips = K\<rparr> = Ok ()"
proof -
  let ?bal = "balance (led A db) (tx_From tx)"
  have seq: "GetLatestSeq (en_badger E) db now (tx_From tx) = Ok (lg_seq (led A db) (tx_From tx))"
    and bal: "GetBalance (en_badger E) db now (tx_From tx) = Ok ?bal"
    using assms(3,4) chain.get_seq_Ok[OF assms(1)] chain.get_bal_Ok[OF assms(1)]
    by (auto simp: is_ok_iff)
  have eff: "effectiveBal E db now None (tx_From tx) = Ok ?bal"
    using HasBalance_GetBalance[OF assms(1,4)] bal by (auto simp: effectiveBal_def)
  have "\<not> (lg_seq (led A db) (tx_From tx) > 0
      \<and> tx_Sequence tx \<noteq> lg_seq (led A db) (tx_From tx) + 1)"
    using assms(5) by auto
  with seq eff assms(2) cov show ?thesis
    by (auto simp: TxProcessor_VerifyTx_def verifyTxInternal_def Let_def not_less)
qed


text \<open>C31. An unaffordable transaction can be accepted: the error of \<open>SafeAdd\<close> is dropped and its
  value 0 taken for what is needed, so a well-signed transaction in sequence whose amount is so
  large that amount and bond pass \<open>MaxAmount\<close> is accepted from a sender with any balance, be it
  0.\<close>

theorem VerifyTx_accepts_overflow:
  assumes "store_ok E A db" and "VerifyTx (en_crypto E) tx = None"
    and "is_ok (GetLatestSeq (en_badger E) db now (tx_From tx))"
    and "is_ok (GetBalance (en_badger E) db now (tx_From tx))"
    and "lg_seq (led A db) (tx_From tx) = 0 \<or> tx_Sequence tx = lg_seq (led A db) (tx_From tx) + 1"
    and "unat MaxAmount < cost tx"
  shows "TxProcessor_VerifyTx E db now \<lparr>vp_Tx = Some tx, vp_Snapshot = None, vp_KnownTips = K\<rparr> = Ok ()"
proof -
  have "SafeAdd (tx_Amount tx) (BondAmount (tx_Amount tx)) \<noteq> Ok n" for n
    using assms(6) cost_SafeAdd[of tx n] by auto
  then have "(case SafeAdd (tx_Amount tx) (BondAmount (tx_Amount tx)) of Ok n \<Rightarrow> n | _ \<Rightarrow> 0) = 0"
    by (auto split: outcome.splits)
  with assms show ?thesis by (intro VerifyTx_accepts[OF assms(1)]) simp_all
qed

section \<open>Applying a received confirmation\<close>

lemma IsConfirmedTxApplied_iff:
  assumes "store_ok E A db" and "snd (DB_Get (en_badger E) db now (appliedKey h)) = None"
  shows "IsConfirmedTxApplied (en_badger E) db now h \<longleftrightarrow> lg_applied (led A db) h"
proof -
  obtain v where g: "DB_Get (en_badger E) db now (appliedKey h) = (v, None)"
    using assms(2) by (cases "DB_Get (en_badger E) db now (appliedKey h)") auto
  have "permanent (ab_db A db (appliedKey h))" using assms(1) by (simp add: chain_wf_def)
  with dbkv.get_value[of "en_badger E" A db now "appliedKey h" v] g assms(1) show ?thesis
    by (auto simp: IsConfirmedTxApplied_def ledger_of_sel visible_def live_def permanent_def
        split: option.splits)
qed

lemma apply_done:
  assumes "store_ok E A db" and "ApplyConfirmedTxBalance E db now (Some tx) = (Ok (), db')"
    and "\<not> IsConfirmedTxApplied (en_badger E) db now (tx_Hash tx)"
  obtains v db1 where "unat v = unat (read_or_zero E db now (tx_To tx)) + unat (tx_Amount tx)"
    "store_ok E A db1" "led A db1 = (led A db)\<lparr>lg_bal := (lg_bal (led A db))(tx_To tx \<mapsto> v)\<rparr>"
    "db' = snd (MarkConfirmedTxApplied (en_badger E) db1 now (tx_Hash tx))"
proof -
  from assms(2,3) obtain v db1 where
    v: "SafeAdd (read_or_zero E db now (tx_To tx)) (tx_Amount tx) = Ok v"
    and w: "SaveBalance (en_badger E) db now (tx_To tx) v = (None, db1)"
    and m: "db' = snd (MarkConfirmedTxApplied (en_badger E) db1 now (tx_Hash tx))"
    by (auto simp: ApplyConfirmedTxBalance_def drop_error_read[OF assms(1)] bindO_eq_Ok
        split: outcome.splits prod.splits option.splits if_splits)
  from chain.save_bal_done[OF assms(1) w] v m show ?thesis
    by (intro that[of v db1]) (simp_all add: SafeAdd_Ok_iff)
qed

lemma mark_cases:
  assumes "store_ok E A db"
  shows "store_ok E A (snd (MarkConfirmedTxApplied (en_badger E) db now h)) \<and>
    (led A (snd (MarkConfirmedTxApplied (en_badger E) db now h)) = led A db \<or>
     led A (snd (MarkConfirmedTxApplied (en_badger E) db now h))
       = (led A db)\<lparr>lg_applied := (lg_applied (led A db))(h := True)\<rparr>)"
proof -
  obtain e db' where m: "MarkConfirmedTxApplied (en_badger E) db now h = (e, db')" by fastforce
  show ?thesis
  proof (cases e)
    case None
    with chain.mark_done[OF assms, of now h db'] m show ?thesis by simp
  next
    case (Some err)
    with chain.mark_failed[OF assms, of now h err db'] m show ?thesis by simp
  qed
qed

lemma balance_bal_update [simp]:
  "balance (L\<lparr>lg_bal := (lg_bal L)(pk \<mapsto> v)\<rparr>) pk' = (if pk' = pk then v else balance L pk')"
  "balance (L\<lparr>lg_applied := f\<rparr>) pk' = balance L pk'"
  by (simp_all add: balance_def)

lemma apply_balance:
  assumes "store_ok E A db" and "ApplyConfirmedTxBalance E db now (Some tx) = (Ok (), db')"
    and "\<not> IsConfirmedTxApplied (en_badger E) db now (tx_Hash tx)"
    and "is_ok (GetBalance (en_badger E) db now (tx_To tx))"
  shows "store_ok E A db'
    \<and> unat (balance (led A db') (tx_To tx)) = unat (balance (led A db) (tx_To tx)) + unat (tx_Amount tx)
    \<and> (\<forall>pk. pk \<noteq> tx_To tx \<longrightarrow> lg_bal (led A db') pk = lg_bal (led A db) pk)
    \<and> lg_seq (led A db') = lg_seq (led A db) \<and> lg_tx (led A db') = lg_tx (led A db)
    \<and> lg_pool (led A db') = lg_pool (led A db)"
proof -
  from apply_done[OF assms(1-3)] obtain v db1 where
    v: "unat v = unat (balance (led A db) (tx_To tx)) + unat (tx_Amount tx)"
    and ok1: "store_ok E A db1"
    and L1: "led A db1 = (led A db)\<lparr>lg_bal := (lg_bal (led A db))(tx_To tx \<mapsto> v)\<rparr>"
    and m: "db' = snd (MarkConfirmedTxApplied (en_badger E) db1 now (tx_Hash tx))"
    using read_or_zero_ok[OF assms(1,4)] by metis
  from mark_cases[OF ok1, of now "tx_Hash tx"] show ?thesis
    unfolding m[symmetric] by (elim conjE disjE) (simp_all add: L1 v)
qed

text \<open>Applying a received confirmation credits and debits nothing else: with the receiver and
  the mark readable and the transaction not marked, the receiver has the amount more, and no other
  balance, no sequence, no record and not the pool changed; the sender is not debited. If it was
  marked, nothing changes at all.\<close>

theorem Apply_credits:
  assumes "store_ok E A db" and "ApplyConfirmedTxBalance E db now (Some tx) = (Ok (), db')"
    and "snd (DB_Get (en_badger E) db now (appliedKey (tx_Hash tx))) = None"
    and "is_ok (GetBalance (en_badger E) db now (tx_To tx))"
  shows "if lg_applied (led A db) (tx_Hash tx) then db' = db
    else unat (balance (led A db') (tx_To tx))
           = unat (balance (led A db) (tx_To tx)) + unat (tx_Amount tx)
      \<and> (\<forall>pk. pk \<noteq> tx_To tx \<longrightarrow> lg_bal (led A db') pk = lg_bal (led A db) pk)
      \<and> lg_seq (led A db') = lg_seq (led A db) \<and> lg_tx (led A db') = lg_tx (led A db)
      \<and> lg_pool (led A db') = lg_pool (led A db)"
proof (cases "lg_applied (led A db) (tx_Hash tx)")
  case True
  with IsConfirmedTxApplied_iff[OF assms(1,3)] assms(2) show ?thesis
    by (simp add: ApplyConfirmedTxBalance_def)
next
  case False
  with IsConfirmedTxApplied_iff[OF assms(1,3)] apply_balance[OF assms(1,2) _ assms(4)]
  show ?thesis by simp
qed

text \<open>C29. The receiver of a payment is paid twice on the sender's node: \<open>ConfirmTx\<close> credits the
  receiver and leaves no applied mark, so when the confirmation comes back by gossip and is applied
  to the same store, the receiver is credited again, while the sender was debited once.\<close>

theorem ConfirmTx_Apply_credits_twice:
  assumes "store_ok E A (tp_db tp)" and "ConfirmTx E tp now tx = c" and "cr_out c = Ok ()"
    and "tx_From tx \<noteq> tx_To tx" and "is_ok (GetBalance (en_badger E) (tp_db tp) now (tx_To tx))"
    and "\<not> lg_applied (led A (tp_db tp)) (tx_Hash tx)"
    and "ApplyConfirmedTxBalance E (tp_db (cr_tp c)) now' (Some (cr_tx c)) = (Ok (), db')"
    and "is_ok (GetBalance (en_badger E) (tp_db (cr_tp c)) now' (tx_To tx))"
  shows "unat (balance (led A db') (tx_To tx))
      = unat (balance (led A (tp_db tp)) (tx_To tx)) + 2 * unat (tx_Amount tx)
    \<and> unat (balance (led A db') (tx_From tx)) + cost tx
      = unat (balance (led A (tp_db tp)) (tx_From tx))"
proof -
  let ?db = "tp_db (cr_tp c)"
  have c: "unat (balance (led A ?db) (tx_From tx)) + cost tx
      = unat (balance (led A (tp_db tp)) (tx_From tx))"
    "unat (balance (led A ?db) (tx_To tx))
      = unat (balance (led A (tp_db tp)) (tx_To tx)) + unat (tx_Amount tx)"
    "lg_applied (led A ?db) = lg_applied (led A (tp_db tp))"
    "cr_tx c = tx\<lparr>tx_Status := TxConfirmed\<rparr>" "store_ok E A ?db"
    using ConfirmTx_effect[OF assms(1-5)] by (simp_all add: Let_def)
  have "\<not> IsConfirmedTxApplied (en_badger E) ?db now' (tx_Hash (cr_tx c))"
    using chain.is_applied_lg[OF c(5)] c(3,4) assms(6) by auto
  from apply_balance[OF c(5) assms(7) this] c(4) assms(8) have
    "unat (balance (led A db') (tx_To tx)) = unat (balance (led A ?db) (tx_To tx)) + unat (tx_Amount tx)"
    "lg_bal (led A db') (tx_From tx) = lg_bal (led A ?db) (tx_From tx)"
    using assms(4) by simp_all
  then show ?thesis using c by (simp add: balance_def)
qed

end
