(* ===== verification/TxSamples.thy ===== *)
theory TxSamples
  imports TxVerify
begin

text \<open>
  A concrete processor (the in-memory database of \<open>Db\<close>, the sample primitives of \<open>Crypto\<close>) and
  the properties of \<open>TxProc\<close> and \<open>TxVerify\<close> applied to it.
\<close>

definition sample_env :: "(mem, mem \<times> gtime) env" where
  "sample_env =
     \<lparr>en_badger = mem_badger, en_crypto = sample_crypto, en_tx = sample_codec,
      en_snap = \<lparr>marshal = (\<lambda>s. Inr [1]), unmarshal = (\<lambda>b. Inl (LibError ''not needed''))\<rparr>,
      en_wits = sample_wits_codec\<rparr>"

text \<open>The same with a database that cannot read the balance of account 5.\<close>

definition flaky_badger :: "(mem, mem \<times> gtime) badger" where
  "flaky_badger = mem_badger\<lparr>txn_get := (\<lambda>txn k.
     if k = balKey 5 then Inl (LibError ''io'') else txn_get mem_badger txn k)\<rparr>"

lemma flaky_badger_ok: "badger_ok flaky_badger mem_abs"
proof -
  have "badger_ok mem_badger mem_abs" by (rule mem_badger_ok)
  then show ?thesis
    by (simp add: badger_ok_def view_ok_def get_ok_def set_ok_def update_ok_def seek_ok_def
        flaky_badger_def)
qed

definition rich_tp :: "mem tx_processor" where
  "rich_tp =
     \<lparr>tp_db = [(balKey 3, PutUint64 5000, None), (balKey 5, PutUint64 70, None)],
      tp_dag = NewDAGManager\<rparr>"

text \<open>A payment of 1000 from account 3.\<close>

definition pay :: "pubkey \<Rightarrow> transaction" where
  "pay to = (cb_Tx sample_batch)\<lparr>tx_To := to\<rparr>"

lemma pay_sel [simp]:
  "tx_From (pay t) = 3" "tx_To (pay t) = t" "tx_Amount (pay t) = 1000" "tx_Sequence (pay t) = 1"
  "tx_ParentHashes (pay t) = []" "tx_Hash (pay t) = 0"
  by (simp_all add: pay_def sample_batch_def)

lemma sample_env_sel [simp]:
  "en_badger sample_env = mem_badger" "en_crypto sample_env = sample_crypto"
  "en_tx sample_env = sample_codec"
  by (simp_all add: sample_env_def)

lemma rich_tp_ok [simp]: "chain_wf (ab_db mem_abs (tp_db rich_tp))"
  by (simp add: rich_tp_def mem_abs_def chain_wf_update PutUint64_def)

lemma mem_DB_Get: "DB_Get mem_badger db now k = (visible now (map_of db) k, None)"
  by (simp add: DB_Get_def mem_badger_def split: option.splits)

lemma mem_GetBalance:
  "GetBalance mem_badger db now pk =
     (case visible now (map_of db) (balKey pk) of None \<Rightarrow> Ok 0 | Some v \<Rightarrow> Uint64 v)"
  by (simp add: GetBalance_def read_u64_def mem_DB_Get split: option.splits)

lemma rich_reads [simp]:
  "GetBalance mem_badger (tp_db rich_tp) now 3 = Ok 5000"
  "GetBalance mem_badger (tp_db rich_tp) now 5 = Ok 70"
  by (simp_all add: mem_GetBalance rich_tp_def visible_def live_def)

lemma pay_amounts:
  "confirmAmounts sample_env (tp_db rich_tp) now (pay 5) = Ok (3999, 1070)"
  "confirmAmounts sample_env (tp_db rich_tp) now (pay 3) = Ok (3999, 6000)"
  by (simp_all add: confirmAmounts_def SafeAdd_def SafeSub_def BondAmount_def calcBond_def
      bondDivisor_def MaxAmount_def)

text \<open>The in-memory database never fails, so neither does the writing half.\<close>

lemma mem_txn_sets: "fst (txn_sets mem_badger kvs txn) = None"
  by (induction kvs arbitrary: txn) (auto simp: mem_badger_def)

lemma mem_ConfirmTxBatch: "fst (ConfirmTxBatch mem_badger sample_codec db now b) = None"
proof -
  have "fst (bg_update mem_badger db now (txn_sets mem_badger kvs)) = None" for kvs
    using mem_txn_sets[of kvs "(db, now)"] by (auto simp: mem_badger_def split: prod.splits)
  then show ?thesis
    by (simp add: ConfirmTxBatch_def sample_codec_def DB_AtomicWrite_def)
qed

lemma mem_confirmWrite:
  assumes "chain_wf (ab_db mem_abs (tp_db tp))" and "tx_ParentHashes tx = []"
  shows "cr_out (confirmWrite sample_env tp now tx bals) = Ok ()"
proof -
  let ?b = "\<lparr>cb_Tx = tx\<lparr>tx_Status := TxConfirmed\<rparr>, cb_SenderBal = fst bals,
             cb_ReceiverBal = snd bals\<rparr>"
  obtain db' where b: "ConfirmTxBatch mem_badger sample_codec (tp_db tp) now ?b = (None, db')"
    using mem_ConfirmTxBatch[of "tp_db tp" now ?b] by (metis prod.collapse)
  have "chain_wf (ab_db mem_abs db')"
    using chain.confirm_done[of mem_badger mem_abs "tp_db tp" sample_codec now ?b db'] b
      mem_badger_ok assms(1) by blast
  then obtain r where "AccumulateBond mem_badger db' now (BondAmount (tx_Amount tx)) = Ok r"
    using chain.bond_cases[of mem_badger mem_abs db' now "BondAmount (tx_Amount tx)"]
      mem_badger_ok by blast
  with b assms(2) show ?thesis
    by (cases r) (simp add: confirmWrite_def Let_def)
qed

lemma pay_confirms [simp]:
  "cr_out (ConfirmTx sample_env rich_tp now (pay 5)) = Ok ()"
  "cr_out (ConfirmTx sample_env rich_tp now (pay 3)) = Ok ()"
  by (simp_all add: ConfirmTx_def pay_amounts mem_confirmWrite)

declare mem_badger_ok [simp] flaky_badger_ok [simp] sample_crypto_ok [simp] sample_key_wf [simp]

lemma rich_balance [simp]:
  "balance (led mem_abs (tp_db rich_tp)) 3 = 5000" "balance (led mem_abs (tp_db rich_tp)) 5 = 70"
  using chain.get_bal_Ok[of mem_badger mem_abs "tp_db rich_tp" 0 3 5000]
    chain.get_bal_Ok[of mem_badger mem_abs "tp_db rich_tp" 0 5 70] mem_badger_ok by auto

lemma cost_pay [simp]: "cost (pay t) = 1001"
  by (simp add: cost_def unat_BondAmount)

section \<open>ConfirmTx\<close>



theorem ConfirmTx_self_mints_witness:
  "unat (balance (led mem_abs (tp_db (cr_tp (ConfirmTx sample_env rich_tp 0 (pay 3))))) 3) = 6000"
  using ConfirmTx_self_mints[of sample_env mem_abs rich_tp 0 "pay 3", OF _ refl] by simp

text \<open>Account 5 cannot be read, and loses the 70 it had.\<close>

lemma flaky_read: "GetBalance flaky_badger db now 5 = Err (LibError ''io'')"
  by (simp add: GetBalance_def read_u64_def DB_Get_def flaky_badger_def mem_badger_def)

lemma flaky_out: "cr_out (ConfirmTx (sample_env\<lparr>en_badger := flaky_badger\<rparr>) rich_tp 0 (pay 5)) = Ok ()"
proof -
  let ?E = "sample_env\<lparr>en_badger := flaky_badger\<rparr>"
  have same: "DB_Get flaky_badger db now k = DB_Get mem_badger db now k" if "k \<noteq> balKey 5" for db now k
    using that by (simp add: DB_Get_def flaky_badger_def mem_badger_def)
  have writes: "txn_set flaky_badger = txn_set mem_badger" "bg_update flaky_badger = bg_update mem_badger"
    by (simp_all add: flaky_badger_def)
  have sets: "txn_sets flaky_badger kvs = txn_sets mem_badger kvs" for kvs
    by (induction kvs) (auto intro!: ext simp: writes split: prod.splits option.splits)
  have "GetBalance flaky_badger (tp_db rich_tp) 0 3 = Ok 5000"
    by (simp add: GetBalance_def read_u64_def same mem_DB_Get rich_tp_def visible_def live_def)
  then have amounts: "confirmAmounts ?E (tp_db rich_tp) 0 (pay 5) = Ok (3999, 1000)"
    by (simp add: confirmAmounts_def SafeAdd_def SafeSub_def BondAmount_def calcBond_def
        bondDivisor_def MaxAmount_def flaky_read)
  have "txn_sets flaky_badger = txn_sets mem_badger" using sets by (rule ext)
  then have "ConfirmTxBatch flaky_badger = ConfirmTxBatch mem_badger"
    by (intro ext) (simp add: ConfirmTxBatch_def DB_AtomicWrite_def writes split: sum.splits)
  moreover have "AccumulateBond flaky_badger = AccumulateBond mem_badger"
    by (intro ext) (simp add: AccumulateBond_def GetRewardPool_def read_u64_def same DB_Set_def
        writes split: outcome.splits)
  ultimately have "confirmWrite ?E rich_tp 0 (pay 5) = confirmWrite sample_env rich_tp 0 (pay 5)"
    by (intro ext) (simp only: confirmWrite_def env.simps sample_env_def)
  with amounts show ?thesis by (simp add: ConfirmTx_def mem_confirmWrite)
qed

theorem ConfirmTx_receiver_read_error_witness:
  "balance (led mem_abs (tp_db rich_tp)) 5 = 70 \<and>
   balance (led mem_abs (tp_db (cr_tp
     (ConfirmTx (sample_env\<lparr>en_badger := flaky_badger\<rparr>) rich_tp 0 (pay 5))))) 5 = 1000"
  using ConfirmTx_receiver_read_error[of "sample_env\<lparr>en_badger := flaky_badger\<rparr>" mem_abs rich_tp 0
      "pay 5", OF _ refl flaky_out] flaky_read by simp

theorem ConfirmTx_failure_witness:
  "\<exists>e. cr_out (ConfirmTx sample_env \<lparr>tp_db = [], tp_dag = NewDAGManager\<rparr> 0 (pay 5)) = Err e"
proof -
  let ?tp = "\<lparr>tp_db = [], tp_dag = NewDAGManager\<rparr> :: mem tx_processor"
  have "confirmAmounts sample_env (tp_db ?tp) 0 (pay 5)
      = Err (Wrapf ''ConfirmTx SafeSub: %w'' [] ErrAmountUnderflow)"
    by (simp add: confirmAmounts_def mem_GetBalance visible_def SafeAdd_def SafeSub_def
        BondAmount_def calcBond_def bondDivisor_def MaxAmount_def)
  then have "cr_out (ConfirmTx sample_env ?tp 0 (pay 5)) \<noteq> Ok ()"
    by (simp add: ConfirmTx_def)
  moreover have "chain_wf (ab_db mem_abs (tp_db ?tp))"
    by (simp add: mem_abs_def)
  ultimately show ?thesis
    using ConfirmTx_failure[of sample_env mem_abs, OF _ refl, of ?tp 0 "pay 5"] by auto
qed

section \<open>Building and verifying\<close>

definition key_tp :: "mem tx_processor" where
  "key_tp = \<lparr>tp_db = [(balKey (kp_Public sample_key), PutUint64 5000, None)],
             tp_dag = NewDAGManager\<rparr>"

lemma key_tp_ok [simp]: "chain_wf (ab_db mem_abs (tp_db key_tp))"
  by (simp add: key_tp_def mem_abs_def chain_wf_update PutUint64_def)

lemma key_reads [simp]:
  "GetBalance mem_badger (tp_db key_tp) now (kp_Public sample_key) = Ok 5000"
  "GetLatestSeq mem_badger (tp_db key_tp) now (kp_Public sample_key) = Ok 0"
  by (simp_all add: mem_GetBalance GetLatestSeq_def read_u64_def mem_DB_Get key_tp_def visible_def
      live_def)

lemma sample_build:
  "\<exists>tx. BuildTx sample_env key_tp 0 (Inr (PutUint64 42)) sample_key 5 1000 = Ok tx"
proof -
  have "\<exists>tx'. SignTx sample_crypto sample_key tx = Ok tx'" for tx
    using kps.sign_Ok[of sample_crypto sample_key] by (auto simp: SignTx_Ok)
  then show ?thesis
    by (simp add: BuildTx_def ValidateAmount_def SafeAdd_def BondAmount_def calcBond_def
        bondDivisor_def MaxAmount_def)
qed

theorem BuildTx_ok_witness:
  "\<exists>tx. BuildTx sample_env key_tp 0 (Inr (PutUint64 42)) sample_key 5 1000 = Ok tx
    \<and> tx_Amount tx = 1000 \<and> VerifyTx sample_crypto tx = None"
proof -
  obtain tx where tx: "BuildTx sample_env key_tp 0 (Inr (PutUint64 42)) sample_key 5 1000 = Ok tx"
    using sample_build by blast
  from BuildTx_ok[OF _ _ _ this, of mem_abs] tx show ?thesis by auto
qed

lemma built_tx:
  obtains tx where "BuildTx sample_env key_tp 0 (Inr (PutUint64 42)) sample_key 5 1000 = Ok tx"
    "TxProcessor_VerifyTx sample_env (tp_db key_tp) 9 \<lparr>vp_Tx = Some tx, vp_Snapshot = None, vp_KnownTips = {}\<rparr> = Ok ()"
proof -
  obtain tx where tx: "BuildTx sample_env key_tp 0 (Inr (PutUint64 42)) sample_key 5 1000 = Ok tx"
    using sample_build by blast
  from BuildTx_guarantees[OF _ _ _ tx, of mem_abs] have b: "tx_From tx = kp_Public sample_key"
    "tx_Amount tx = 1000" "VerifyTx sample_crypto tx = None"
    by simp_all
  have "HasBalance mem_badger (tp_db key_tp) 9 (kp_Public sample_key)"
    by (simp add: HasBalance_def mem_DB_Get key_tp_def visible_def live_def)
  with b have "TxProcessor_VerifyTx sample_env (tp_db key_tp) 9
      \<lparr>vp_Tx = Some tx, vp_Snapshot = None, vp_KnownTips = {}\<rparr> = Ok ()"
    by (simp add: TxProcessor_VerifyTx_def verifyTxInternal_def effectiveBal_def SafeAdd_def BondAmount_def
        calcBond_def bondDivisor_def MaxAmount_def)
  with tx show ?thesis by (rule that)
qed



theorem VerifyTx_accepts_overflow_witness:
  "\<exists>tx. tx_Amount tx = MaxAmount \<and> TxProcessor_VerifyTx sample_env [] 0
      \<lparr>vp_Tx = Some tx, vp_Snapshot = None, vp_KnownTips = {}\<rparr> = Ok ()"
proof -
  let ?tx = "sample_tx\<lparr>tx_Amount := MaxAmount\<rparr>"
  from SignTx_verifies[OF sample_crypto_ok sample_key_wf, of ?tx] obtain sig where
    v: "VerifyTx sample_crypto
      (?tx\<lparr>tx_Hash := tx_digest sample_crypto ?tx, tx_SenderSig := sig\<rparr>) = None"
    by (auto simp: sample_tx_def)
  let ?t = "?tx\<lparr>tx_Hash := tx_digest sample_crypto ?tx, tx_SenderSig := sig\<rparr>"
  have reads: "is_ok (GetLatestSeq mem_badger [] 0 pk)" "is_ok (GetBalance mem_badger [] 0 pk)"
    "lg_seq (led mem_abs []) pk = 0" for pk
    by (simp_all add: GetLatestSeq_def read_u64_def mem_DB_Get visible_def
        mem_GetBalance mem_abs_def ledger_of_sel cell_def)
  have "unat MaxAmount < cost ?t"
    by (simp add: cost_def unat_BondAmount unat_MaxAmount)
  moreover have "chain_wf (ab_db mem_abs [])" by (simp add: mem_abs_def)
  ultimately have
    "TxProcessor_VerifyTx sample_env [] 0 \<lparr>vp_Tx = Some ?t, vp_Snapshot = None, vp_KnownTips = {}\<rparr> = Ok ()"
    using v reads by (intro VerifyTx_accepts_overflow[of sample_env mem_abs]) simp_all
  then show ?thesis by (intro exI[of _ ?t]) simp
qed

section \<open>Applying\<close>

lemma mem_read_ok:
  assumes "chain_wf (ab_db mem_abs db)"
  shows "GetBalance mem_badger db now pk = Ok (balance (led mem_abs db) pk)"
proof -
  have "cell_ok (map_of db (balKey pk))" using assms by (simp add: mem_abs_def chain_wf_def)
  then show ?thesis
    by (auto simp: mem_GetBalance mem_abs_def balance_ledger_of cell_def visible_cell Uint64_def
        cell_ok_def split: option.splits)
qed

lemma mem_apply:
  assumes "chain_wf (ab_db mem_abs db)"
    and "unat (balance (led mem_abs db) (tx_To tx)) + unat (tx_Amount tx) \<le> unat MaxAmount"
  shows "\<exists>db'. ApplyConfirmedTxBalance sample_env db now (Some tx) = (Ok (), db')"
proof -
  have "SafeAdd (balance (led mem_abs db) (tx_To tx)) (tx_Amount tx)
      = Ok (balance (led mem_abs db) (tx_To tx) + tx_Amount tx)"
    using assms(2) unat_MaxAmount by (simp add: SafeAdd_Ok_iff unat_word_ariths)
  moreover obtain db1 where "SaveBalance mem_badger db now (tx_To tx)
      (balance (led mem_abs db) (tx_To tx) + tx_Amount tx) = (None, db1)"
    by (simp add: SaveBalance_def DB_Set_def mem_badger_def)
  ultimately show ?thesis
    using mem_read_ok[OF assms(1)] by (simp add: ApplyConfirmedTxBalance_def)
qed

theorem Apply_credits_witness:
  "\<exists>db'. ApplyConfirmedTxBalance sample_env [] 0 (Some (pay 5)) = (Ok (), db')
    \<and> unat (balance (led mem_abs db') 5) = 1000"
proof -
  have wf: "chain_wf (ab_db mem_abs [])" and L: "balance (led mem_abs []) 5 = 0"
    "\<not> lg_applied (led mem_abs []) 0"
    by (simp_all add: mem_abs_def balance_ledger_of ledger_of_sel cell_def)
  obtain db' where a: "ApplyConfirmedTxBalance sample_env [] 0 (Some (pay 5)) = (Ok (), db')"
    using mem_apply[OF wf, of "pay 5" 0] L unat_MaxAmount by auto
  from Apply_credits[OF _ a, of mem_abs] wf L mem_read_ok[OF wf, of 0 5] have
    "unat (balance (led mem_abs db') 5) = 1000"
    by (simp add: mem_DB_Get)
  with a show ?thesis by blast
qed

theorem ConfirmTx_Apply_credits_twice_witness:
  "\<exists>db'. ApplyConfirmedTxBalance sample_env (tp_db (cr_tp (ConfirmTx sample_env rich_tp 0 (pay 5)))) 1
        (Some (cr_tx (ConfirmTx sample_env rich_tp 0 (pay 5)))) = (Ok (), db')
    \<and> unat (balance (led mem_abs db') 5) = 2070 \<and> unat (balance (led mem_abs db') 3) = 3999"
proof -
  let ?c = "ConfirmTx sample_env rich_tp 0 (pay 5)"
  have wf: "chain_wf (ab_db mem_abs (tp_db (cr_tp ?c)))"
    and b: "unat (balance (led mem_abs (tp_db (cr_tp ?c))) 5) = 1070"
    and tx: "cr_tx ?c = (pay 5)\<lparr>tx_Status := TxConfirmed\<rparr>"
    using ConfirmTx_effect[of sample_env mem_abs rich_tp 0 "pay 5", OF _ refl]
    by (simp_all add: Let_def)
  have "\<not> lg_applied (led mem_abs (tp_db rich_tp)) 0"
    by (simp add: mem_abs_def ledger_of_sel rich_tp_def)
  moreover obtain db' where
    a: "ApplyConfirmedTxBalance sample_env (tp_db (cr_tp ?c)) 1 (Some (cr_tx ?c)) = (Ok (), db')"
    using mem_apply[OF wf, of "cr_tx ?c" 1] b tx unat_MaxAmount by auto
  ultimately have "unat (balance (led mem_abs db') 5) = 2070 \<and> unat (balance (led mem_abs db') 3) = 3999"
    using ConfirmTx_Apply_credits_twice[of sample_env mem_abs rich_tp 0 "pay 5", OF _ refl _ _ _ _ a]
      mem_read_ok[OF wf, of 1 5] by simp
  with a show ?thesis by blast
qed

end
