(* ===== verification/KeyOrder.thy ===== *)
theory KeyOrder
  imports Chain
begin

text \<open>
  The order in which BadgerDB keeps the keys of the store: byte order. Integers are laid out most
  significant byte first, so this is their numeric order, and a scan over an account's transactions
  goes through them by sequence.
\<close>

section \<open>Byte order of big-endian integers\<close>

lemma digit_less_iff:
  fixes a b c d m :: nat
  assumes "b < m" and "d < m"
  shows "a * m + b < c * m + d \<longleftrightarrow> a < c \<or> a = c \<and> b < d"
proof -
  have "a * m + b < c * m + d" if "a < c"
  proof -
    from that have "Suc a * m \<le> c * m" by (intro mult_le_mono1) simp
    with assms(1) show ?thesis by simp
  qed
  moreover have "c * m + d < a * m + b" if "c < a"
  proof -
    from that have "Suc c * m \<le> a * m" by (intro mult_le_mono1) simp
    with assms(2) show ?thesis by simp
  qed
  ultimately show ?thesis by (metis less_asym nat_add_left_cancel_less nat_neq_iff)
qed

lemma be_bytes_less:
  fixes v w :: "'a::len word"
  shows "be_bytes n v < be_bytes n w \<longleftrightarrow> unat v mod 2 ^ (8 * n) < unat w mod 2 ^ (8 * n)"
proof (induction n)
  case 0
  then show ?case by simp
next
  case (Suc n)
  let ?m = "2 ^ (8 * n) :: nat"
  have top: "unat (ucast (drop_bit (8 * n) x) :: byte) = unat x div ?m mod 256" for x :: "'a word"
  proof -
    have "unat (drop_bit (8 * n) x) = unat x div ?m"
      by (simp only: unat_drop_bit_eq) (simp add: drop_bit_eq_div)
    then show ?thesis by (simp only: unsigned_ucast_eq take_bit_eq_mod) simp
  qed
  have split: "unat x mod 2 ^ (8 * Suc n) = (unat x div ?m mod 256) * ?m + unat x mod ?m" for x :: "'a word"
  proof -
    have "2 ^ (8 * Suc n) = ?m * 256" by (simp add: power_add)
    then have "unat x mod 2 ^ (8 * Suc n) = ?m * (unat x div ?m mod 256) + unat x mod ?m"
      by (simp only: mod_mult2_eq)
    then show ?thesis by (simp only: mult.commute[of "unat x div ?m mod 256"])
  qed
  have less: "(ucast (drop_bit (8 * n) v) :: byte) < ucast (drop_bit (8 * n) w)
      \<longleftrightarrow> unat v div ?m mod 256 < unat w div ?m mod 256"
    by (simp only: word_less_nat_alt top)
  have eq: "(ucast (drop_bit (8 * n) v) :: byte) = ucast (drop_bit (8 * n) w)
      \<longleftrightarrow> unat v div ?m mod 256 = unat w div ?m mod 256"
    by (simp only: word_unat_eq_iff top)
  show ?case
    unfolding split
    by (subst digit_less_iff) (simp_all only: be_bytes.simps Cons_less_Cons less eq Suc.IH mod_less_divisor
        zero_less_power zero_less_numeral)
qed

lemma PutUint64_less: "PutUint64 v < PutUint64 w \<longleftrightarrow> v < w"
  using unsigned_less[of v, where ?'a = nat] unsigned_less[of w, where ?'a = nat]
  by (simp add: PutUint64_def be_bytes_less word_less_nat_alt)

lemma arr32_less: "arr32 (h :: 256 word) < arr32 h' \<longleftrightarrow> h < h'"
  using unsigned_less[of h, where ?'a = nat] unsigned_less[of h', where ?'a = nat]
  by (simp add: be_bytes_less word_less_nat_alt)

section \<open>The keys, ordered\<close>

instantiation key :: linorder
begin

definition less_eq_key :: "key \<Rightarrow> key \<Rightarrow> bool" where "less_eq_key k k' \<longleftrightarrow> key_bytes k \<le> key_bytes k'"
definition less_key :: "key \<Rightarrow> key \<Rightarrow> bool" where "less_key k k' \<longleftrightarrow> key_bytes k < key_bytes k'"

instance
  by intro_classes (auto simp: less_eq_key_def less_key_def intro: key_bytes_injD)

end

lemma append_less_same: "(xs @ ys < xs @ zs) \<longleftrightarrow> ys < (zs :: bytes)"
  by (induction xs) simp_all

lemma key_less_simps [simp]:
  "KTx pk s < KTx pk s' \<longleftrightarrow> s < s'" "KBal pk < KBal pk' \<longleftrightarrow> pk < pk'"
  "KSeq pk < KSeq pk' \<longleftrightarrow> pk < pk'" "KNonce pk s < KNonce pk s' \<longleftrightarrow> s < s'"
  by (simp_all add: less_key_def balKey_def seqKey_def txKey_def nonceLockKey_def nonce_loop_PutUint64
      PutUint64_less arr32_less append_less_same)

end
