(* ===== verification/Files.thy ===== *)
theory Files
  imports Core
begin

text \<open>
  The part of Go's \<^verbatim>\<open>os\<close> package that the node and the scripts use: whole files read and written by
  path, either of which can fail.
\<close>

record disk =
  dk_files :: "string \<Rightarrow> bytes option"
  dk_readable :: "string \<Rightarrow> bool"
  dk_writable :: "string \<Rightarrow> bool"

definition ReadFile :: "disk \<Rightarrow> string \<Rightarrow> error + bytes" where
  "ReadFile dk path =
     (if \<not> dk_readable dk path then Inl (LibError ''read'')
      else case dk_files dk path of None \<Rightarrow> Inl (LibError ''no such file'') | Some b \<Rightarrow> Inr b)"

definition WriteFile :: "disk \<Rightarrow> string \<Rightarrow> bytes \<Rightarrow> error option \<times> disk" where
  "WriteFile dk path b =
     (if dk_writable dk path then (None, dk\<lparr>dk_files := (dk_files dk)(path \<mapsto> b)\<rparr>)
      else (Some (LibError ''write''), dk))"

text \<open>What the callers rely on: a file reads back as it was last written, writes do not touch other
  files, and a failed write changes nothing.\<close>

locale file_store =
  fixes rd :: "'s \<Rightarrow> string \<Rightarrow> error + bytes"
    and wr :: "'s \<Rightarrow> string \<Rightarrow> bytes \<Rightarrow> error option \<times> 's"
    and readable :: "'s \<Rightarrow> string \<Rightarrow> bool"
  assumes read_written: "wr s p b = (None, s') \<Longrightarrow> readable s p \<Longrightarrow> rd s' p = Inr b"
    and read_other: "wr s p b = (eo, s') \<Longrightarrow> q \<noteq> p \<Longrightarrow> rd s' q = rd s q"
    and write_failed: "wr s p b = (Some e, s') \<Longrightarrow> s' = s"
    and readable_kept: "wr s p b = (eo, s') \<Longrightarrow> readable s' q = readable s q"
begin

lemma write_then_read:
  assumes "wr s p b = (eo, s')" and "readable s p"
  shows "rd s' p = (if eo = None then Inr b else rd s p)"
  using assms read_written[of s p b s'] write_failed[of s p b _ s'] by (cases eo) auto

lemma read_after:
  assumes "wr s p b = (None, s')" and "readable s q"
  shows "rd s' q = (if q = p then Inr b else rd s q)"
  using assms read_written[OF assms(1)] read_other[OF assms(1)] by auto

end

interpretation disks: file_store ReadFile WriteFile dk_readable
  by unfold_locales (auto simp: ReadFile_def WriteFile_def split: if_splits)

end
