(* ===== verification/Machine.thy ===== *)
theory Machine
  imports Main
begin

text \<open>
  Runs of a step relation with their events, and the contract of an inductive invariant, which
  the caches, the peers and the nodes of the model are shown to keep.
\<close>

inductive runs :: "('s \<Rightarrow> 'e \<Rightarrow> 's \<Rightarrow> bool) \<Rightarrow> 's \<Rightarrow> 'e list \<Rightarrow> 's \<Rightarrow> bool"
  for step :: "'s \<Rightarrow> 'e \<Rightarrow> 's \<Rightarrow> bool" and s :: 's where
  runs_Nil: "runs step s [] s"
| runs_snoc: "runs step s es s' \<Longrightarrow> step s' e s'' \<Longrightarrow> runs step s (es @ [e]) s''"

inductive_cases runs_NilE: "runs step s [] s'"
inductive_cases runs_snocE: "runs step s (es @ [e]) s'"

lemma runs_Nil_iff [simp]: "runs step s [] s' \<longleftrightarrow> s' = s"
  by (auto intro: runs_Nil elim: runs.cases)

lemma runs_snoc_iff: "runs step s (es @ [e]) s'' \<longleftrightarrow> (\<exists>s'. runs step s es s' \<and> step s' e s'')"
  by (auto intro: runs_snoc elim: runs_snocE)

lemma runs_append:
  "runs step s (es @ es') s'' \<longleftrightarrow> (\<exists>s'. runs step s es s' \<and> runs step s' es' s'')"
proof (induction es' arbitrary: s'' rule: rev_induct)
  case Nil
  then show ?case by simp
next
  case (snoc e es')
  then show ?case by (simp add: runs_snoc_iff flip: append_assoc) blast
qed

lemma runs_Cons: "runs step s (e # es) s'' \<longleftrightarrow> (\<exists>s'. step s e s' \<and> runs step s' es s'')"
  using runs_append[of step s "[e]" es s''] runs_snoc_iff[of step s "[]" e] by simp

locale machine =
  fixes init :: "'s \<Rightarrow> bool"
    and step :: "'s \<Rightarrow> 'e \<Rightarrow> 's \<Rightarrow> bool"
    and inv :: "'s \<Rightarrow> bool"
  assumes inv_init: "init s \<Longrightarrow> inv s"
    and inv_step: "inv s \<Longrightarrow> step s e s' \<Longrightarrow> inv s'"
begin

lemma inv_from: "runs step s es s' \<Longrightarrow> inv s \<Longrightarrow> inv s'"
  by (induction rule: runs.induct) (auto intro: inv_step)

lemma inv_reachable: "init s \<Longrightarrow> runs step s es s' \<Longrightarrow> inv s'"
  using inv_from inv_init by blast

end

text \<open>A machine whose invariant rules out the bad states never gets into one.\<close>

locale safe_machine = machine +
  fixes bad :: "'a \<Rightarrow> bool"
  assumes inv_safe: "inv s \<Longrightarrow> \<not> bad s"
begin

lemma never_bad: "init s \<Longrightarrow> runs step s es s' \<Longrightarrow> \<not> bad s'"
  using inv_reachable inv_safe by blast

end

text \<open>A machine that an abstract one follows step for step: every run is explained by an abstract run.\<close>

locale simulation = machine +
  fixes abs :: "'a \<Rightarrow> 'c"
    and astep :: "'c \<Rightarrow> 'd \<Rightarrow> 'c \<Rightarrow> bool"
    and explains :: "'b \<Rightarrow> 'd \<Rightarrow> bool"
  assumes simulated: "inv s \<Longrightarrow> step s e s' \<Longrightarrow> \<exists>c. astep (abs s) c (abs s') \<and> explains e c"
begin

lemma refines:
  "runs step s es s' \<Longrightarrow> inv s \<Longrightarrow> \<exists>cs. runs astep (abs s) cs (abs s') \<and> list_all2 explains es cs"
proof (induction rule: runs.induct)
  case (runs_snoc es s' e s'')
  then obtain cs where cs: "runs astep (abs s) cs (abs s')" "list_all2 explains es cs" by blast
  from simulated[OF inv_from[OF runs_snoc.hyps(1) runs_snoc.prems] runs_snoc.hyps(2)]
  obtain c where "astep (abs s') c (abs s'')" "explains e c" by blast
  with cs show ?case by (intro exI[of _ "cs @ [c]"]) (auto simp: runs_snoc_iff list_all2_appendI)
qed (auto intro: exI[of _ "[]"])

end

end
