(* ===== verification/Gossip.thy ===== *)
theory Gossip
  imports Core Machine "HOL-Library.Multiset"
begin

text \<open>
  \<^verbatim>\<open>internal/network/gossip.go\<close>: the cache of seen messages with its forwarding count and its
  clean-up, as single operations (each holds the mutex) and as a step relation, and the random
  choice of peers.
\<close>

section \<open>The cache\<close>

definition gossipFanout :: nat where "gossipFanout = 8"
definition gossipHops :: nat where "gossipHops = 6"
definition gossipMsgTTL :: duration where "gossipMsgTTL = 10 * 60 * Second"
definition gossipCleanupInterval :: duration where "gossipCleanupInterval = 60 * Second"

record gossip_msg =
  gm_seenAt :: gtime
  gm_hops :: nat

type_synonym gossip = "hash32 \<Rightarrow> gossip_msg option"

definition NewGossip :: gossip where
  "NewGossip = (\<lambda>_. None)"

definition ShouldForward :: "gossip \<Rightarrow> gtime \<Rightarrow> hash32 \<Rightarrow> (bool \<times> nat) \<times> gossip" where
  "ShouldForward g now msgID =
     (case g msgID of
        Some msg \<Rightarrow>
          if gm_hops msg \<ge> gossipHops then ((False, gm_hops msg), g)
          else ((True, gm_hops msg + 1), g(msgID \<mapsto> msg\<lparr>gm_hops := gm_hops msg + 1\<rparr>))
      | None \<Rightarrow> ((True, 1), g(msgID \<mapsto> \<lparr>gm_seenAt = now, gm_hops = 1\<rparr>)))"

text \<open>One tick of the clean-up goroutine.\<close>

definition cleanup :: "gossip \<Rightarrow> gtime \<Rightarrow> gossip" where
  "cleanup g now = (\<lambda>id. case g id of
      None \<Rightarrow> None
    | Some msg \<Rightarrow> if now - gm_seenAt msg > gossipMsgTTL then None else Some msg)"

section \<open>Choosing peers\<close>

text \<open>
  \<^verbatim>\<open>rand.Shuffle\<close>: for \<open>i\<close> from the last index down to 1, swap \<open>i\<close> with a random \<open>j\<close> in
  \<open>0 .. i\<close>; \<open>draws i\<close> is the random number of round \<open>i\<close>, reduced to that range.
\<close>

definition swap_at :: "nat \<Rightarrow> nat \<Rightarrow> 'a list \<Rightarrow> 'a list" where
  "swap_at i j xs = xs[i := xs ! j, j := xs ! i]"

fun shuffle_loop :: "(nat \<Rightarrow> nat) \<Rightarrow> nat \<Rightarrow> 'a list \<Rightarrow> 'a list" where
  "shuffle_loop draws 0 xs = xs"
| "shuffle_loop draws (Suc i) xs =
     shuffle_loop draws i (swap_at (Suc i) (draws (Suc i) mod (Suc i + 1)) xs)"

definition Shuffle :: "(nat \<Rightarrow> nat) \<Rightarrow> 'a list \<Rightarrow> 'a list" where
  "Shuffle draws xs = shuffle_loop draws (length xs - 1) xs"

definition SelectPeers :: "(nat \<Rightarrow> nat) \<Rightarrow> 'a list \<Rightarrow> nat \<Rightarrow> 'a list" where
  "SelectPeers draws peers n =
     (if n \<ge> length peers then peers else take n (Shuffle draws peers))"

definition Fanout :: nat where
  "Fanout = gossipFanout"

lemma mset_swap_at: "i < length xs \<Longrightarrow> j < length xs \<Longrightarrow> mset (swap_at i j xs) = mset xs"
  by (simp add: swap_at_def mset_swap)

lemma length_swap_at [simp]: "length (swap_at i j xs) = length xs"
  by (simp add: swap_at_def)

lemma mset_shuffle_loop: "i < length xs \<Longrightarrow> mset (shuffle_loop draws i xs) = mset xs"
proof (induction i arbitrary: xs)
  case 0
  then show ?case by simp
next
  case (Suc i)
  have "draws (Suc i) mod (Suc i + 1) < length xs"
    using Suc.prems mod_less_divisor[of "Suc i + 1" "draws (Suc i)"] by linarith
  with Suc show ?case by (simp add: mset_swap_at)
qed

lemma mset_Shuffle: "mset (Shuffle draws xs) = mset xs"
  by (cases xs) (simp_all add: Shuffle_def mset_shuffle_loop)

lemma length_Shuffle [simp]: "length (Shuffle draws xs) = length xs"
  using mset_eq_length[OF mset_Shuffle] .

text \<open>Peers are chosen without repetition: whatever the random draws, \<open>SelectPeers\<close> returns
  \<open>n\<close> of the given peers, or all of them when there are no more than \<open>n\<close>, each at most as often
  as it was given.\<close>

theorem SelectPeers_choice:
  "mset (SelectPeers draws peers n) \<subseteq># mset peers \<and>
   length (SelectPeers draws peers n) = min n (length peers)"
proof (cases "n \<ge> length peers")
  case True
  then show ?thesis by (simp add: SelectPeers_def)
next
  case False
  have "mset (take n (Shuffle draws peers)) \<subseteq># mset (Shuffle draws peers)"
    by (metis append_take_drop_id mset_append mset_subset_eq_add_left)
  with False show ?thesis by (simp add: SelectPeers_def mset_Shuffle)
qed

lemma set_SelectPeers: "set (SelectPeers draws peers n) \<subseteq> set peers"
proof -
  have "set (Shuffle draws peers) = set peers" by (metis mset_Shuffle set_mset_mset)
  then show ?thesis by (auto simp: SelectPeers_def dest: in_set_takeD)
qed

lemma distinct_SelectPeers: "distinct peers \<Longrightarrow> distinct (SelectPeers draws peers n)"
  by (metis SelectPeers_def distinct_take mset_Shuffle mset_eq_imp_distinct_iff)

section \<open>The cache as a machine\<close>

text \<open>Requests by any goroutine and ticks of the clean-up, each under the mutex.\<close>

datatype gossip_event = Ask hash32 gtime bool nat | Tick gtime

inductive gossip_step :: "gossip \<Rightarrow> gossip_event \<Rightarrow> gossip \<Rightarrow> bool" where
  ask: "ShouldForward g now m = ((b, h), g') \<Longrightarrow> gossip_step g (Ask m now b h) g'"
| tick: "gossip_step g (Tick now) (cleanup g now)"

inductive_simps gossip_step_simps [simp]:
  "gossip_step g (Ask m now b h) g'" "gossip_step g (Tick now) g'"

definition hops_ok :: "gossip \<Rightarrow> bool" where
  "hops_ok g \<longleftrightarrow> (\<forall>m msg. g m = Some msg \<longrightarrow> 1 \<le> gm_hops msg \<and> gm_hops msg \<le> gossipHops)"

lemma hops_ok_New: "hops_ok NewGossip"
  by (simp add: hops_ok_def NewGossip_def)

lemma hops_ok_ShouldForward: "hops_ok g \<Longrightarrow> hops_ok (snd (ShouldForward g now m))"
  by (auto simp: hops_ok_def ShouldForward_def gossipHops_def split: option.splits)

lemma hops_ok_step: "hops_ok g \<Longrightarrow> gossip_step g e g' \<Longrightarrow> hops_ok g'"
proof (cases e)
  case (Ask m now b h)
  assume "hops_ok g" "gossip_step g e g'"
  with Ask hops_ok_ShouldForward[of g now m] show ?thesis by simp
next
  case (Tick now)
  assume "hops_ok g" "gossip_step g e g'"
  with Tick show ?thesis by (auto simp: hops_ok_def cleanup_def split: option.splits if_splits)
qed

interpretation cache: machine "\<lambda>g. g = NewGossip" gossip_step hops_ok
  by unfold_locales (auto simp: hops_ok_New intro: hops_ok_step)

fun is_ask :: "hash32 \<Rightarrow> gossip_event \<Rightarrow> bool" where
  "is_ask m (Ask k now b h) \<longleftrightarrow> k = m"
| "is_ask m (Tick now) \<longleftrightarrow> False"

fun is_forward :: "hash32 \<Rightarrow> gossip_event \<Rightarrow> bool" where
  "is_forward m (Ask k now b h) \<longleftrightarrow> k = m \<and> b"
| "is_forward m (Tick now) \<longleftrightarrow> False"

text \<open>No tick comes more than the time to live after a request for the message.\<close>

fun asked_at :: "hash32 \<Rightarrow> gossip_event \<Rightarrow> gtime set" where
  "asked_at m (Ask k now b h) = (if k = m then {now} else {})"
| "asked_at m (Tick now) = {}"

definition ask_times :: "hash32 \<Rightarrow> gossip_event list \<Rightarrow> gtime set" where
  "ask_times m es = \<Union> (asked_at m ` set es)"

lemma ask_times_snoc [simp]: "ask_times m (es @ [e]) = ask_times m es \<union> asked_at m e"
  by (auto simp: ask_times_def)

definition young :: "hash32 \<Rightarrow> gossip_event list \<Rightarrow> bool" where
  "young m es \<longleftrightarrow>
     (\<forall>now t. Tick now \<in> set es \<and> t \<in> ask_times m es \<longrightarrow> now - t \<le> gossipMsgTTL)"

lemma forward_state:
  assumes "runs gossip_step NewGossip es g" and "young m es"
  shows "let asks = length (filter (is_ask m) es) in
     length (filter (is_forward m) es) = min gossipHops asks
     \<and> (case g m of None \<Rightarrow> asks = 0
        | Some msg \<Rightarrow> gm_hops msg = min gossipHops asks \<and> 0 < asks
            \<and> gm_seenAt msg \<in> ask_times m es)"
  using assms
proof (induction rule: runs.induct)
  case runs_Nil
  then show ?case by (simp add: NewGossip_def)
next
  case (runs_snoc es g e g')
  have y: "young m es" using runs_snoc.prems by (auto simp: young_def)
  note IH = runs_snoc.IH[OF y, unfolded Let_def]
  show ?case
  proof (cases e)
    case (Ask k now b h)
    with runs_snoc.hyps(2) have "ShouldForward g now k = ((b, h), g')" by simp
    with IH Ask show ?thesis
      by (auto simp: ShouldForward_def Let_def gossipHops_def split: option.splits if_splits)
  next
    case (Tick now)
    with runs_snoc.hyps(2) have g': "g' = cleanup g now" by simp
    show ?thesis
    proof (cases "g m")
      case None
      with IH Tick g' show ?thesis by (simp add: cleanup_def)
    next
      case (Some msg)
      with IH have "gm_seenAt msg \<in> ask_times m es" by auto
      with runs_snoc.prems Tick have "now - gm_seenAt msg \<le> gossipMsgTTL"
        by (auto simp: young_def)
      with Some g' have "g' m = Some msg" by (simp add: cleanup_def)
      with IH Tick Some show ?thesis by auto
    qed
  qed
qed

text \<open>C36. A message is forwarded six times, not once: in any run of the cache from its creation in
  which no clean-up comes more than the time to live after a request for the message, the number
  of requests answered with yes is the number of requests, capped at \<open>gossipHops\<close>.\<close>

theorem ShouldForward_count:
  assumes "runs gossip_step NewGossip es g" and "young m es"
  shows "length (filter (is_forward m) es) = min gossipHops (length (filter (is_ask m) es))"
  using forward_state[OF assms] by (simp add: Let_def)

text \<open>Two requests for one message, both answered yes.\<close>

theorem ShouldForward_count_witness:
  "\<exists>g. runs gossip_step NewGossip [Ask 5 0 True 1, Ask 5 1 True 2] g
    \<and> length (filter (is_forward 5) [Ask 5 0 True 1, Ask 5 1 True 2]) = 2"
proof -
  let ?es = "[Ask 5 0 True 1, Ask 5 1 True 2]"
  obtain g where g: "runs gossip_step NewGossip ?es g"
    by (simp add: runs_Cons ShouldForward_def NewGossip_def gossipHops_def)
  moreover have "young 5 ?es" by (simp add: young_def)
  ultimately show ?thesis using ShouldForward_count[OF g, of 5] by (auto simp: gossipHops_def)
qed

text \<open>A message that keeps coming is forwarded again after its time to live: counting does not
  refresh the entry, so a clean-up later than that after the first request drops it, and the next
  request is answered with yes as if the message were new, whatever was counted.\<close>

theorem cleanup_forgets:
  assumes "runs gossip_step NewGossip es g" and "g m = Some msg"
    and "gossipMsgTTL < now - gm_seenAt msg"
  shows "fst (ShouldForward (cleanup g now) now' m) = (True, 1)
    \<and> (\<forall>k. g k \<noteq> None \<and> k \<noteq> m \<and> now - gm_seenAt (the (g k)) \<le> gossipMsgTTL \<longrightarrow>
         cleanup g now k = g k)
    \<and> gm_hops msg \<le> gossipHops"
  using assms cache.inv_reachable[OF refl assms(1)]
  by (auto simp: ShouldForward_def cleanup_def hops_ok_def)

theorem cleanup_forgets_witness:
  "\<exists>g msg. runs gossip_step NewGossip [Ask 5 0 True 1] g \<and> g 5 = Some msg
    \<and> fst (ShouldForward (cleanup g (11 * 60 * Second)) (11 * 60 * Second) 5) = (True, 1)"
proof -
  obtain g where g: "runs gossip_step NewGossip [Ask 5 0 True 1] g"
    and e: "g 5 = Some \<lparr>gm_seenAt = 0, gm_hops = 1\<rparr>"
    by (simp add: runs_Cons ShouldForward_def NewGossip_def)
  from cleanup_forgets[OF g e, of "11 * 60 * Second" "11 * 60 * Second"] g e show ?thesis
    by (auto simp: gossipMsgTTL_def)
qed

end
