(* ===== verification/Packet.thy ===== *)
theory Packet
  imports Chain
begin

text \<open>
  The framing of \<^verbatim>\<open>internal/network/packet.go\<close>: a packet goes over the connection as a 4-byte
  big-endian length and its JSON text. JSON coding is the parameter \<open>J\<close>; the connection is the
  bytes still to come, followed by its end.
\<close>

record packet =
  pk_Type :: packet_type
  pk_MsgID :: hash32
  pk_Payload :: bytes

definition Encode :: "packet codec \<Rightarrow> packet \<Rightarrow> bytes result" where
  "Encode J p =
     (case marshal J p of
        Inl e \<Rightarrow> Err e
      | Inr data \<Rightarrow> Ok (PutUint32 (word_of_nat (length data)) @ data))"

text \<open>\<^verbatim>\<open>io.ReadFull\<close> into a buffer of \<open>n\<close> bytes: an error when the connection ends before.\<close>

definition ReadFull :: "nat \<Rightarrow> bytes \<Rightarrow> (error + bytes) \<times> bytes" where
  "ReadFull n conn =
     (if length conn < n then (Inl (LibError ''EOF''), [])
      else (Inr (take n conn), drop n conn))"

definition maxPacket :: u32 where "maxPacket = 10 * 1024 * 1024"

definition ReadPacket :: "packet codec \<Rightarrow> bytes \<Rightarrow> packet result \<times> bytes" where
  "ReadPacket J conn =
     (case ReadFull 4 conn of
        (Inl e, conn1) \<Rightarrow> (Err e, conn1)
      | (Inr lenBuf, conn1) \<Rightarrow>
          (case Uint32 lenBuf of
             Ok sz \<Rightarrow>
               if sz > maxPacket
               then (Err (Errorf ''packet too large: %d'' [uint sz]), conn1)
               else (case ReadFull (unat sz) conn1 of
                       (Inl e, conn2) \<Rightarrow> (Err e, conn2)
                     | (Inr data, conn2) \<Rightarrow>
                         (case unmarshal J data of
                            Inl e \<Rightarrow> (Err e, conn2)
                          | Inr pkt \<Rightarrow> (Ok pkt, conn2)))
           | Err e \<Rightarrow> (Err e, conn1) | Panic \<Rightarrow> (Panic, conn1) | Blocked \<Rightarrow> (Blocked, conn1)))"

text \<open>The reads of a connection, one after the other, up to \<open>n\<close> packets or the first error.\<close>

fun ReadPackets :: "packet codec \<Rightarrow> nat \<Rightarrow> bytes \<Rightarrow> packet list \<times> bytes" where
  "ReadPackets J 0 conn = ([], conn)"
| "ReadPackets J (Suc n) conn =
     (case ReadPacket J conn of
        (Ok p, conn') \<Rightarrow> (case ReadPackets J n conn' of (ps, rest) \<Rightarrow> (p # ps, rest))
      | (_, conn') \<Rightarrow> ([], conn'))"

lemma ReadFull_append [simp]: "length bs = n \<Longrightarrow> ReadFull n (bs @ rest) = (Inr bs, rest)"
  by (simp add: ReadFull_def)

lemma unat_maxPacket: "unat maxPacket = 10485760"
  by (simp add: maxPacket_def)

lemma unat_frame_length: "n < 2 ^ 32 \<Longrightarrow> unat (word_of_nat n :: u32) = n"
  by (simp add: unat_of_nat take_bit_nat_eq_self)

lemma ReadPacket_frame:
  assumes "length data < 2 ^ 32"
  shows "ReadPacket J (PutUint32 (word_of_nat (length data)) @ data @ rest) =
    (if length data > 10485760
     then (Err (Errorf ''packet too large: %d'' [int (length data)]), data @ rest)
     else (case unmarshal J data of Inl e \<Rightarrow> (Err e, rest) | Inr p \<Rightarrow> (Ok p, rest)))"
proof -
  have u: "unat (word_of_nat (length data) :: u32) = length data"
    using assms by (rule unat_frame_length)
  then have "uint (word_of_nat (length data) :: u32) = int (length data)"
    by (metis uint_nat)
  then show ?thesis
    using u by (simp add: ReadPacket_def word_less_nat_alt unat_maxPacket split: sum.splits)
qed

lemma read_encoded:
  assumes "Encode J p = Ok bs" and "roundtrips J p" and "length bs \<le> 4 + 10 * 1024 * 1024"
  shows "ReadPacket J (bs @ rest) = (Ok p, rest)"
proof -
  from assms(1) obtain data where m: "marshal J p = Inr data"
    and bs: "bs = PutUint32 (word_of_nat (length data)) @ data"
    by (auto simp: Encode_def split: sum.splits)
  with assms(2,3) ReadPacket_frame[of data J rest] show ?thesis
    by (simp add: roundtrips_def)
qed

text \<open>What is encoded is read back: a packet whose JSON text round-trips and is at most 10 MiB
  long is read from its encoding, whatever follows on the connection, and what follows is left.\<close>

theorem Encode_ReadPacket:
  assumes "Encode J p = Ok bs" and "roundtrips J p" and "length bs \<le> 4 + 10 * 1024 * 1024"
  shows "ReadPacket J (bs @ rest) = (Ok p, rest)"
  by (rule read_encoded[OF assms])

text \<open>Packets written one after the other are read in that order.\<close>

primrec frames :: "packet codec \<Rightarrow> packet list \<Rightarrow> bytes" where
  "frames J [] = []"
| "frames J (p # ps) = (case Encode J p of Ok bs \<Rightarrow> bs | _ \<Rightarrow> []) @ frames J ps"

definition sendable :: "packet codec \<Rightarrow> packet \<Rightarrow> bool" where
  "sendable J p \<longleftrightarrow> roundtrips J p \<and>
     (\<exists>data. marshal J p = Inr data \<and> length data \<le> 10 * 1024 * 1024)"

lemma sendable_Encode:
  assumes "sendable J p"
  obtains bs where "Encode J p = Ok bs" "length bs \<le> 4 + 10 * 1024 * 1024" "roundtrips J p"
  using assms by (auto simp: sendable_def Encode_def)

text \<open>C28. A connection carries a sequence: reading as many packets as were written, each at most
  10 MiB long and round-tripping, returns them in the order written and leaves what follows.\<close>

theorem ReadPackets_frames:
  assumes "\<forall>p \<in> set ps. sendable J p"
  shows "ReadPackets J (length ps) (frames J ps @ rest) = (ps, rest)"
  using assms
proof (induction ps)
  case Nil
  then show ?case by simp
next
  case (Cons p ps)
  then obtain bs where "Encode J p = Ok bs" "length bs \<le> 4 + 10 * 1024 * 1024" "roundtrips J p"
    using sendable_Encode[of J p] by auto
  with Cons read_encoded[of J p bs "frames J ps @ rest"] show ?case by simp
qed

text \<open>A larger packet is sent but never received: \<open>Encode\<close> has no limit, and reading an encoding
  with more than 10 MiB (and less than 4 GiB) of text is an error that leaves the text unread, so
  the next read would take the text for a length.\<close>

theorem ReadPacket_too_large:
  assumes "marshal J p = Inr data" and "10 * 1024 * 1024 < length data" and "length data < 2 ^ 32"
  shows "\<exists>bs. Encode J p = Ok bs \<and>
    ReadPacket J (bs @ rest)
      = (Err (Errorf ''packet too large: %d'' [int (length data)]), data @ rest)"
  using assms ReadPacket_frame[OF assms(3), of J rest] by (simp add: Encode_def)

text \<open>A codec of constant text for one packet, short or long.\<close>

definition sample_packet :: packet where
  "sample_packet = \<lparr>pk_Type = PacketNonceLock, pk_MsgID = 7, pk_Payload = [1, 2]\<rparr>"

definition sample_packet_codec :: "nat \<Rightarrow> packet codec" where
  "sample_packet_codec n = \<lparr>marshal = (\<lambda>p. Inr (replicate n 9)), unmarshal = (\<lambda>b. Inr sample_packet)\<rparr>"

theorem Encode_ReadPacket_witness:
  "\<exists>bs. Encode (sample_packet_codec 3) sample_packet = Ok bs
    \<and> ReadPacket (sample_packet_codec 3) (bs @ [5]) = (Ok sample_packet, [5])"
proof -
  let ?J = "sample_packet_codec 3"
  obtain bs where bs: "Encode ?J sample_packet = Ok bs" "length bs = 7"
    by (simp add: Encode_def sample_packet_codec_def)
  have "roundtrips ?J sample_packet" by (simp add: roundtrips_def sample_packet_codec_def)
  with Encode_ReadPacket[OF bs(1), of "[5]"] bs show ?thesis by simp
qed

theorem ReadPackets_frames_witness:
  "ReadPackets (sample_packet_codec 3) 2
     (frames (sample_packet_codec 3) [sample_packet, sample_packet] @ [5])
   = ([sample_packet, sample_packet], [5])"
proof -
  have "\<forall>p \<in> set [sample_packet, sample_packet]. sendable (sample_packet_codec 3) p"
    by (simp add: sendable_def roundtrips_def sample_packet_codec_def)
  from ReadPackets_frames[OF this, of "[5]"] show ?thesis
    by (simp only: list.size One_nat_def add_0 add_Suc numeral_2_eq_2 plus_1_eq_Suc)
qed

theorem ReadPacket_too_large_witness:
  "\<exists>bs. Encode (sample_packet_codec 10485761) sample_packet = Ok bs \<and>
    fst (ReadPacket (sample_packet_codec 10485761) (bs @ []))
      = Err (Errorf ''packet too large: %d'' [10485761])"
  using ReadPacket_too_large[of "sample_packet_codec 10485761" sample_packet "replicate 10485761 9" "[]"]
  by (auto simp: sample_packet_codec_def)

end
