(* ===== verification/Peer.thy ===== *)
theory Peer
  imports Packet Machine "HOL-Library.Multiset" "HOL-Library.Sublist"
begin

text \<open>
  The peer of \<^verbatim>\<open>internal/network/packet.go\<close>: its state, its bounded send channel and its
  operations. \<open>Send\<close> and \<open>Close\<close> hold the mutex only for their first half, so each is given as
  two halves and as the whole; the machine at the end interleaves the halves of any number of
  goroutines.
\<close>

section \<open>The peer\<close>

datatype peer_state = PeerConnecting | PeerActive | PeerClosed

text \<open>
  The channel is its queue and whether it was closed. The close callback is the node's
  \<^verbatim>\<open>removePeer\<close> for every peer the program makes; the node runs it.
\<close>

record peer =
  pe_PubKey :: pubkey
  pe_Addr :: string
  pe_connOpen :: bool
  pe_sendCh :: "bytes list"
  pe_chClosed :: bool
  pe_state :: peer_state

definition sendChCap :: nat where "sendChCap = 64"

definition NewPeer :: "pubkey \<Rightarrow> string \<Rightarrow> peer" where
  "NewPeer pubKey addr =
     \<lparr>pe_PubKey = pubKey, pe_Addr = addr, pe_connOpen = True, pe_sendCh = [], pe_chClosed = False,
      pe_state = PeerActive\<rparr>"

text \<open>The first half of \<open>Send\<close>: the state is checked and the packet encoded.\<close>

definition Send_check :: "packet codec \<Rightarrow> peer \<Rightarrow> packet \<Rightarrow> bytes result" where
  "Send_check J p pkt =
     (if pe_state p \<noteq> PeerActive then Err (Errorf ''peer not active'' []) else Encode J pkt)"

text \<open>The second half: a non-blocking send. Sending on a closed channel panics.\<close>

definition Send_push :: "peer \<Rightarrow> bytes \<Rightarrow> unit result \<times> peer" where
  "Send_push p data =
     (if pe_chClosed p then (Panic, p)
      else if length (pe_sendCh p) < sendChCap
      then (Ok (), p\<lparr>pe_sendCh := pe_sendCh p @ [data]\<rparr>)
      else (Err (Errorf ''send channel full'' []), p))"

definition Send :: "packet codec \<Rightarrow> peer \<Rightarrow> packet \<Rightarrow> unit result \<times> peer" where
  "Send J p pkt =
     (case Send_check J p pkt of
        Ok data \<Rightarrow> Send_push p data
      | Err e \<Rightarrow> (Err e, p) | Panic \<Rightarrow> (Panic, p) | Blocked \<Rightarrow> (Blocked, p))"

text \<open>The first half of \<open>Close\<close>: whether this call is the one that closes.\<close>

definition Close_mark :: "peer \<Rightarrow> bool \<times> peer" where
  "Close_mark p =
     (if pe_state p = PeerClosed then (False, p) else (True, p\<lparr>pe_state := PeerClosed\<rparr>))"

text \<open>The second half, up to the callback. Closing a closed channel panics.\<close>

definition Close_finish :: "peer \<Rightarrow> unit result \<times> peer" where
  "Close_finish p =
     (let p1 = p\<lparr>pe_connOpen := False\<rparr> in
      if pe_chClosed p1 then (Panic, p1) else (Ok (), p1\<lparr>pe_chClosed := True\<rparr>))"

text \<open>\<open>Close\<close> without its callback: whether the callback is to run, and the peer.\<close>

definition Close :: "peer \<Rightarrow> bool result \<times> peer" where
  "Close p =
     (case Close_mark p of
        (False, p1) \<Rightarrow> (Ok False, p1)
      | (True, p1) \<Rightarrow>
          (case Close_finish p1 of
             (Ok _, p2) \<Rightarrow> (Ok True, p2)
           | (Err e, p2) \<Rightarrow> (Err e, p2) | (Panic, p2) \<Rightarrow> (Panic, p2) | (Blocked, p2) \<Rightarrow> (Blocked, p2)))"

text \<open>
  One round of \<open>StartWritePump\<close>: what it wrote, if anything, and whether the pump goes on. It
  waits (no step) on an empty open channel; it ends, and closes the peer, when the channel is
  closed and drained or when the write, \<open>ok\<close>, fails.
\<close>

definition PumpStep :: "peer \<Rightarrow> bool \<Rightarrow> (bytes option \<times> bool \<times> peer) option" where
  "PumpStep p ok =
     (case pe_sendCh p of
        [] \<Rightarrow> if pe_chClosed p then Some (None, False, p) else None
      | data # rest \<Rightarrow>
          if ok \<and> pe_connOpen p then Some (Some data, True, p\<lparr>pe_sendCh := rest\<rparr>)
          else Some (None, False, p\<lparr>pe_sendCh := rest\<rparr>))"

section \<open>One goroutine at a time\<close>

text \<open>A frame: a text behind its length, as \<open>Encode\<close> makes it.\<close>

definition is_frame :: "bytes \<Rightarrow> bool" where
  "is_frame d \<longleftrightarrow> (\<exists>x. d = PutUint32 (word_of_nat (length x)) @ x)"

lemma Encode_frame: "Encode J p = Ok d \<Longrightarrow> is_frame d"
  by (auto simp: Encode_def is_frame_def split: sum.splits)

text \<open>Between whole calls the channel and the connection are closed just when the state says so, and the
  channel is not too long and holds frames.\<close>

definition peer_wf :: "peer \<Rightarrow> bool" where
  "peer_wf p \<longleftrightarrow> (pe_chClosed p \<longleftrightarrow> pe_state p = PeerClosed)
     \<and> (pe_connOpen p \<longleftrightarrow> pe_state p \<noteq> PeerClosed) \<and> length (pe_sendCh p) \<le> sendChCap
     \<and> (\<forall>d \<in> set (pe_sendCh p). is_frame d)"

lemma peer_wf_New [simp]: "peer_wf (NewPeer pk a)"
  by (simp add: peer_wf_def NewPeer_def)

lemma Encode_no_panic [simp]: "Encode J p \<noteq> Panic" "Encode J p \<noteq> Blocked"
  by (auto simp: Encode_def split: sum.splits)

lemma Send_wf:
  assumes "peer_wf p" and "Send J p pkt = (r, p')"
  shows "peer_wf p' \<and> r \<noteq> Panic \<and> r \<noteq> Blocked
    \<and> pe_PubKey p' = pe_PubKey p \<and> pe_state p' = pe_state p \<and> pe_Addr p' = pe_Addr p"
  using assms
  by (auto simp: Send_def Send_check_def Send_push_def peer_wf_def
      split: outcome.splits if_splits dest: Encode_frame)

lemma Close_wf:
  assumes "peer_wf p"
  shows "Close p = (Ok (pe_state p \<noteq> PeerClosed),
    if pe_state p = PeerClosed then p
    else p\<lparr>pe_state := PeerClosed, pe_connOpen := False, pe_chClosed := True\<rparr>)"
  using assms by (auto simp: Close_def Close_mark_def Close_finish_def peer_wf_def)

lemma peer_wf_Close: "peer_wf p \<Longrightarrow> peer_wf (snd (Close p)) \<and> pe_state (snd (Close p)) = PeerClosed"
  by (simp add: Close_wf) (simp add: peer_wf_def)

section \<open>Many goroutines\<close>

text \<open>
  One peer, the sends between their halves (the data each has encoded), the closes between
  their halves, whether the write pump runs, and whether the process panicked.
\<close>

record peer_sys =
  ps_peer :: peer
  ps_sending :: "bytes multiset"
  ps_closing :: nat
  ps_pumping :: bool
  ps_panicked :: bool

definition peer_start :: "pubkey \<Rightarrow> string \<Rightarrow> peer_sys" where
  "peer_start pk a =
     \<lparr>ps_peer = NewPeer pk a, ps_sending = {#}, ps_closing = 0, ps_pumping = True,
      ps_panicked = False\<rparr>"

datatype peer_event =
    Checked packet bytes | Pushed bytes | Dropped bytes | PushPanic bytes
  | Marked | Finished | FinishPanic | Wrote bytes | PumpEnd

inductive peer_step :: "packet codec \<Rightarrow> peer_sys \<Rightarrow> peer_event \<Rightarrow> peer_sys \<Rightarrow> bool"
  for J :: "packet codec" where
  check: "\<not> ps_panicked s \<Longrightarrow> Send_check J (ps_peer s) pkt = Ok data \<Longrightarrow>
    peer_step J s (Checked pkt data) (s\<lparr>ps_sending := add_mset data (ps_sending s)\<rparr>)"
| push: "\<not> ps_panicked s \<Longrightarrow> data \<in># ps_sending s \<Longrightarrow> Send_push (ps_peer s) data = (Ok (), p') \<Longrightarrow>
    peer_step J s (Pushed data) (s\<lparr>ps_peer := p', ps_sending := ps_sending s - {#data#}\<rparr>)"
| drop: "\<not> ps_panicked s \<Longrightarrow> data \<in># ps_sending s \<Longrightarrow> Send_push (ps_peer s) data = (Err e, p') \<Longrightarrow>
    peer_step J s (Dropped data) (s\<lparr>ps_peer := p', ps_sending := ps_sending s - {#data#}\<rparr>)"
| push_panic: "\<not> ps_panicked s \<Longrightarrow> data \<in># ps_sending s \<Longrightarrow> Send_push (ps_peer s) data = (Panic, p') \<Longrightarrow>
    peer_step J s (PushPanic data) (s\<lparr>ps_peer := p', ps_panicked := True\<rparr>)"
| mark: "\<not> ps_panicked s \<Longrightarrow> Close_mark (ps_peer s) = (True, p') \<Longrightarrow>
    peer_step J s Marked (s\<lparr>ps_peer := p', ps_closing := ps_closing s + 1\<rparr>)"
| finish: "\<not> ps_panicked s \<Longrightarrow> 0 < ps_closing s \<Longrightarrow> Close_finish (ps_peer s) = (Ok (), p') \<Longrightarrow>
    peer_step J s Finished (s\<lparr>ps_peer := p', ps_closing := ps_closing s - 1\<rparr>)"
| finish_panic: "\<not> ps_panicked s \<Longrightarrow> 0 < ps_closing s \<Longrightarrow> Close_finish (ps_peer s) = (Panic, p') \<Longrightarrow>
    peer_step J s FinishPanic (s\<lparr>ps_peer := p', ps_panicked := True\<rparr>)"
| wrote: "\<not> ps_panicked s \<Longrightarrow> ps_pumping s \<Longrightarrow> PumpStep (ps_peer s) ok = Some (Some data, True, p') \<Longrightarrow>
    peer_step J s (Wrote data) (s\<lparr>ps_peer := p'\<rparr>)"
| pump_end: "\<not> ps_panicked s \<Longrightarrow> ps_pumping s \<Longrightarrow> PumpStep (ps_peer s) ok = Some (None, False, p') \<Longrightarrow>
    peer_step J s PumpEnd (s\<lparr>ps_peer := p', ps_pumping := False\<rparr>)"

inductive_cases peer_stepE: "peer_step J s e s'"

text \<open>At most one close is between its halves, and then the channel is still open.\<close>

definition peer_sys_ok :: "peer_sys \<Rightarrow> bool" where
  "peer_sys_ok s \<longleftrightarrow>
     length (pe_sendCh (ps_peer s)) \<le> sendChCap \<and>
     (if pe_state (ps_peer s) = PeerClosed
      then ps_closing s = (if pe_chClosed (ps_peer s) then 0 else 1)
      else ps_closing s = 0 \<and> \<not> pe_chClosed (ps_peer s))"

lemmas half_defs = Send_check_def Send_push_def Close_mark_def Close_finish_def PumpStep_def

lemma peer_sys_ok_start: "peer_sys_ok (peer_start pk a)"
  by (simp add: peer_sys_ok_def peer_start_def NewPeer_def)

lemma peer_sys_ok_step: "peer_step J s e s' \<Longrightarrow> peer_sys_ok s \<Longrightarrow> peer_sys_ok s'"
  by (induction rule: peer_step.induct)
    (auto simp: peer_sys_ok_def half_defs Let_def split: if_splits list.splits)

interpretation peers: machine "\<lambda>s. s = peer_start pk a" "peer_step J" peer_sys_ok for pk a J
  by unfold_locales (auto simp: peer_sys_ok_start intro: peer_sys_ok_step)

text \<open>A connection is closed once: however sends, closes and the write pump interleave, the
  close of the channel never panics, the channel never holds more than 64 encodings, and a closed
  channel means a closed peer.\<close>

theorem Close_never_panics:
  assumes "runs (peer_step J) (peer_start pk a) es s"
  shows "FinishPanic \<notin> set es \<and> length (pe_sendCh (ps_peer s)) \<le> sendChCap
    \<and> (pe_chClosed (ps_peer s) \<longrightarrow> pe_state (ps_peer s) = PeerClosed)"
proof -
  have "FinishPanic \<notin> set es"
    using assms
  proof (induction rule: runs.induct)
    case runs_Nil
    then show ?case by simp
  next
    case (runs_snoc es s e s')
    have "peer_sys_ok s" using peers.inv_reachable[OF refl runs_snoc.hyps(1)] .
    with runs_snoc.hyps(2) have "e \<noteq> FinishPanic"
      by (cases rule: peer_step.cases)
        (auto simp: peer_sys_ok_def Close_finish_def Let_def split: if_splits)
    with runs_snoc.IH show ?case by simp
  qed
  with peers.inv_reachable[OF refl assms] show ?thesis
    by (auto simp: peer_sys_ok_def split: if_splits)
qed

text \<open>A send can panic: the state is checked under the mutex and the channel used after it, so
  for every packet that encodes there is an interleaving of one send with one close in which the
  send hits the closed channel, which takes the whole process down.\<close>

theorem Send_Close_race:
  assumes "Encode J pkt = Ok data"
  shows "\<exists>s. runs (peer_step J) (peer_start pk a) [Checked pkt data, Marked, Finished, PushPanic data] s
    \<and> ps_panicked s"
proof -
  let ?s0 = "peer_start pk a"
  let ?s1 = "?s0\<lparr>ps_sending := {#data#}\<rparr>"
  let ?s2 = "?s1\<lparr>ps_peer := (ps_peer ?s1)\<lparr>pe_state := PeerClosed\<rparr>, ps_closing := 1\<rparr>"
  let ?s3 = "?s2\<lparr>ps_peer := (ps_peer ?s2)\<lparr>pe_connOpen := False, pe_chClosed := True\<rparr>, ps_closing := 0\<rparr>"
  let ?s4 = "?s3\<lparr>ps_panicked := True\<rparr>"
  have 1: "peer_step J ?s0 (Checked pkt data) ?s1"
    using peer_step.check[of ?s0 J pkt data] assms
    by (simp add: peer_start_def NewPeer_def half_defs)
  have 2: "peer_step J ?s1 Marked ?s2"
    using peer_step.mark[of ?s1 _ J] by (simp add: peer_start_def NewPeer_def half_defs)
  have 3: "peer_step J ?s2 Finished ?s3"
    using peer_step.finish[of ?s2 _ J] by (simp add: peer_start_def NewPeer_def half_defs)
  have 4: "peer_step J ?s3 (PushPanic data) ?s4"
    using peer_step.push_panic[of ?s3 data _ J] by (simp add: peer_start_def NewPeer_def half_defs)
  from 1 2 3 4 have "runs (peer_step J) ?s0 [Checked pkt data, Marked, Finished, PushPanic data] ?s4"
    unfolding runs_Cons by (intro exI conjI) (assumption+, simp)
  then show ?thesis by (intro exI[of _ ?s4]) simp
qed

theorem Close_never_panics_witness:
  "\<exists>s. runs (peer_step J) (peer_start 3 ''a'') [Marked] s \<and> FinishPanic \<notin> set [Marked :: peer_event]
    \<and> length (pe_sendCh (ps_peer s)) \<le> 64"
proof -
  let ?s0 = "peer_start 3 ''a''"
  have "peer_step J ?s0 Marked
      (?s0\<lparr>ps_peer := (ps_peer ?s0)\<lparr>pe_state := PeerClosed\<rparr>, ps_closing := ps_closing ?s0 + 1\<rparr>)"
    by (rule peer_step.mark) (simp_all add: peer_start_def NewPeer_def Close_mark_def)
  then have "runs (peer_step J) ?s0 [Marked]
      (?s0\<lparr>ps_peer := (ps_peer ?s0)\<lparr>pe_state := PeerClosed\<rparr>, ps_closing := ps_closing ?s0 + 1\<rparr>)"
    by (simp add: runs_Cons)
  from this Close_never_panics[OF this] show ?thesis unfolding sendChCap_def by blast
qed

theorem Send_Close_race_witness:
  "\<exists>data s. runs (peer_step (sample_packet_codec 3)) (peer_start 3 ''a'')
      [Checked sample_packet data, Marked, Finished, PushPanic data] s \<and> ps_panicked s"
proof -
  obtain data where "Encode (sample_packet_codec 3) sample_packet = Ok data"
    by (simp add: Encode_def sample_packet_codec_def)
  from Send_Close_race[OF this] show ?thesis by blast
qed

text \<open>What the channel took and what the pump wrote, in order.\<close>

fun taken :: "peer_event \<Rightarrow> bytes list" where
  "taken (Pushed data) = [data]"
| "taken e = []"

fun written :: "peer_event \<Rightarrow> bytes list" where
  "written (Wrote data) = [data]"
| "written e = []"

lemma written_taken:
  assumes "runs (peer_step J) (peer_start pk a) es s"
  shows "if ps_pumping s
    then concat (map taken es) = concat (map written es) @ pe_sendCh (ps_peer s)
    else prefix (concat (map written es)) (concat (map taken es))"
  using assms
proof (induction rule: runs.induct)
  case runs_Nil
  then show ?case by (simp add: peer_start_def NewPeer_def)
next
  case (runs_snoc es s e s')
  from runs_snoc.hyps(2) show ?case
    by (cases rule: peer_step.cases)
      (use runs_snoc.IH in \<open>auto simp: half_defs Let_def split: if_splits list.splits\<close>)
qed

text \<open>The pump keeps the order: however the goroutines interleave, what was written to the
  connection is a prefix of what the channel took, and while the pump runs the rest is still in
  the channel.\<close>

theorem pump_in_order:
  assumes "runs (peer_step J) (peer_start pk a) es s"
  shows "prefix (concat (map written es)) (concat (map taken es))
    \<and> (ps_pumping s \<longrightarrow>
         concat (map taken es) = concat (map written es) @ pe_sendCh (ps_peer s))"
  using written_taken[OF assms] by (auto split: if_splits)

text \<open>One packet sent and written.\<close>

theorem pump_in_order_witness:
  "\<exists>data s. runs (peer_step (sample_packet_codec 3)) (peer_start 3 ''a'')
      [Checked sample_packet data, Pushed data, Wrote data] s
    \<and> prefix [data] (concat (map taken [Checked sample_packet data, Pushed data, Wrote data]))"
proof -
  let ?J = "sample_packet_codec 3"
  obtain data where enc: "Encode ?J sample_packet = Ok data"
    by (simp add: Encode_def sample_packet_codec_def)
  let ?s0 = "peer_start 3 ''a''"
  let ?s1 = "?s0\<lparr>ps_sending := {#data#}\<rparr>"
  let ?s2 = "?s1\<lparr>ps_peer := (ps_peer ?s1)\<lparr>pe_sendCh := [data]\<rparr>, ps_sending := {#}\<rparr>"
  let ?s3 = "?s2\<lparr>ps_peer := (ps_peer ?s2)\<lparr>pe_sendCh := []\<rparr>\<rparr>"
  have 1: "peer_step ?J ?s0 (Checked sample_packet data) ?s1"
    using peer_step.check[of ?s0 ?J sample_packet data] enc
    by (simp add: peer_start_def NewPeer_def half_defs)
  have 2: "peer_step ?J ?s1 (Pushed data) ?s2"
    using peer_step.push[of ?s1 data _ ?J]
    by (simp add: peer_start_def NewPeer_def half_defs sendChCap_def)
  have 3: "peer_step ?J ?s2 (Wrote data) ?s3"
    using peer_step.wrote[of ?s2 True data _ ?J] by (simp add: peer_start_def NewPeer_def half_defs)
  from 1 2 3 have r: "runs (peer_step ?J) ?s0 [Checked sample_packet data, Pushed data, Wrote data] ?s3"
    unfolding runs_Cons by (intro exI conjI) (assumption+, simp)
  from r pump_in_order[OF r] show ?thesis by (intro exI[of _ data] exI[of _ ?s3]) simp
qed

end
