(* ===== verification/Node.thy ===== *)
theory Node
  imports TxVerify Gossip Peer "HOL-Library.AList"
begin

text \<open>
  \<^verbatim>\<open>node/node.go\<close>: the node's peers, its packet handlers, the collection of witness signatures and
  the confirmation of a transaction. Each handler is one step over the node's state; the clock it
  reads and the random draws of its broadcasts come with the call.
\<close>

section \<open>State\<close>

type_synonym peer_id = nat

definition quorumK :: nat where "quorumK = 3"

text \<open>
  A pending transaction. The program keeps a pointer to the transaction that \<open>SendTx\<close> also
  returns; nothing but \<open>confirmTx\<close> writes through it, after the entry is gone.
\<close>

record pending_meta =
  pm_tx :: transaction
  pm_sigs :: "witness_signature list"
  pm_confirmed :: bool

record nonce_lock_msg =
  nl_From :: pubkey
  nl_Nonce :: u64

record tx_verify_msg =
  tv_Tx :: "transaction option"
  tv_Snapshot :: "snapshot option"

record wit_sig_msg =
  wm_TxHash :: hash32
  wm_Sig :: witness_signature

record confirmed_msg =
  cm_Tx :: "transaction option"

text \<open>The environment of the processor and the JSON coding of packets and messages.\<close>

record ('db, 'txn) net_env =
  ne_env :: "('db, 'txn) env"
  ne_packet :: "packet codec"
  ne_pubkey :: "pubkey codec"
  ne_nonceLock :: "nonce_lock_msg codec"
  ne_txVerify :: "tx_verify_msg codec"
  ne_witSig :: "wit_sig_msg codec"
  ne_confirmed :: "confirmed_msg codec"

text \<open>What one call of a handler gets from outside: the time, and the draws of each broadcast.\<close>

record step_ctx =
  cx_now :: gtime
  cx_draws :: "nat \<Rightarrow> nat \<Rightarrow> nat"

text \<open>
  The peers are objects: the map holds references into \<open>nd_heap\<close>. \<open>nd_spawned\<close> are the
  confirmations started as goroutines and not yet run, \<open>nd_snapJobs\<close> the snapshots.
\<close>

record 'db node =
  nd_kp :: keypair
  nd_tp :: "'db tx_processor"
  nd_gossip :: gossip
  nd_peers :: "(pubkey \<times> peer_id) list"
  nd_heap :: "peer_id \<Rightarrow> peer option"
  nd_next :: peer_id
  nd_pending :: "hash32 \<Rightarrow> pending_meta option"
  nd_spawned :: "(transaction \<times> witness_signature list) list"
  nd_snapJobs :: "(pubkey \<times> amount \<times> u64) list"

text \<open>The node \<^verbatim>\<open>New\<close> makes once the key is loaded and the database open.\<close>

definition NewNode :: "keypair \<Rightarrow> 'db \<Rightarrow> 'db node" where
  "NewNode kp db =
     \<lparr>nd_kp = kp, nd_tp = \<lparr>tp_db = db, tp_dag = NewDAGManager\<rparr>, nd_gossip = NewGossip,
      nd_peers = [], nd_heap = (\<lambda>_. None), nd_next = 0, nd_pending = (\<lambda>_. None),
      nd_spawned = [], nd_snapJobs = []\<rparr>"

abbreviation nd_db :: "'db node \<Rightarrow> 'db" where
  "nd_db nd \<equiv> tp_db (nd_tp nd)"

abbreviation set_db :: "'db \<Rightarrow> 'db node \<Rightarrow> 'db node" where
  "set_db db nd \<equiv> nd\<lparr>nd_tp := (nd_tp nd)\<lparr>tp_db := db\<rparr>\<rparr>"

section \<open>Sequencing\<close>

text \<open>Statement after statement: a panic or a wait for ever ends the call.\<close>

definition andThen ::
  "'a result \<times> 's \<Rightarrow> ('s \<Rightarrow> 'b result \<times> 's) \<Rightarrow> 'b result \<times> 's" where
  "andThen m f =
     (case fst m of Ok _ \<Rightarrow> f (snd m) | Err e \<Rightarrow> (Err e, snd m)
      | Panic \<Rightarrow> (Panic, snd m) | Blocked \<Rightarrow> (Blocked, snd m))"

text \<open>\<^verbatim>\<open>payload, _ := json.Marshal(x)\<close>.\<close>

definition marshal_or_nil :: "'a codec \<Rightarrow> 'a \<Rightarrow> bytes" where
  "marshal_or_nil J x = (case marshal J x of Inr b \<Rightarrow> b | Inl e \<Rightarrow> [])"

section \<open>Peers\<close>

text \<open>\<^verbatim>\<open>_ = peer.Send(pkt)\<close>: only a panic is noticed.\<close>

definition sendToPeer :: "('db, 'txn) net_env \<Rightarrow> 'db node \<Rightarrow> peer_id \<Rightarrow> packet \<Rightarrow> unit result \<times> 'db node" where
  "sendToPeer NE nd i pkt =
     (case nd_heap nd i of
        None \<Rightarrow> (Panic, nd)
      | Some p \<Rightarrow>
          (case Send (ne_packet NE) p pkt of
             (r, p') \<Rightarrow>
               (let nd' = nd\<lparr>nd_heap := (nd_heap nd)(i \<mapsto> p')\<rparr> in
                case r of Panic \<Rightarrow> (Panic, nd') | Blocked \<Rightarrow> (Blocked, nd') | _ \<Rightarrow> (Ok (), nd'))))"

fun sendAll :: "('db, 'txn) net_env \<Rightarrow> 'db node \<Rightarrow> peer_id list \<Rightarrow> packet \<Rightarrow> unit result \<times> 'db node" where
  "sendAll NE nd [] pkt = (Ok (), nd)"
| "sendAll NE nd (i # is) pkt = andThen (sendToPeer NE nd i pkt) (\<lambda>nd'. sendAll NE nd' is pkt)"

text \<open>
  \<^verbatim>\<open>broadcast\<close> ranges over the map: the list is its pairs in the order Go visits them. No caller
  excludes a peer.
\<close>

definition broadcast ::
  "('db, 'txn) net_env \<Rightarrow> (nat \<Rightarrow> nat) \<Rightarrow> 'db node \<Rightarrow> packet \<Rightarrow> peer_id option \<Rightarrow>
     unit result \<times> 'db node" where
  "broadcast NE draws nd pkt exclude =
     sendAll NE nd
       (SelectPeers draws (filter (\<lambda>i. Some i \<noteq> exclude) (map snd (nd_peers nd))) Fanout) pkt"

definition sendToOriginator ::
  "('db, 'txn) net_env \<Rightarrow> 'db node \<Rightarrow> pubkey \<Rightarrow> packet \<Rightarrow> unit result \<times> 'db node" where
  "sendToOriginator NE nd from pkt =
     (case map_of (nd_peers nd) from of
        Some i \<Rightarrow> sendToPeer NE nd i pkt
      | None \<Rightarrow> (Ok (), nd))"

definition removePeer :: "'db node \<Rightarrow> pubkey \<Rightarrow> 'db node" where
  "removePeer nd pk = nd\<lparr>nd_peers := AList.delete pk (nd_peers nd)\<rparr>"

text \<open>
  \<^verbatim>\<open>p.Close()\<close> with the callback \<^verbatim>\<open>removePeer\<close>, which takes the node's lock: \<open>locked\<close> says that the
  calling goroutine holds it already, and then the callback waits for ever.
\<close>

definition ClosePeer :: "'db node \<Rightarrow> peer_id \<Rightarrow> bool \<Rightarrow> unit result \<times> 'db node" where
  "ClosePeer nd i locked =
     (case nd_heap nd i of
        None \<Rightarrow> (Panic, nd)
      | Some p \<Rightarrow>
          (case Close p of
             (r, p') \<Rightarrow>
               (let nd' = nd\<lparr>nd_heap := (nd_heap nd)(i \<mapsto> p')\<rparr> in
                case r of
                  Ok True \<Rightarrow> if locked then (Blocked, nd') else (Ok (), removePeer nd' (pe_PubKey p'))
                | Ok False \<Rightarrow> (Ok (), nd')
                | Err e \<Rightarrow> (Err e, nd') | Panic \<Rightarrow> (Panic, nd') | Blocked \<Rightarrow> (Blocked, nd'))))"

definition addPeer :: "'db node \<Rightarrow> peer_id \<Rightarrow> unit result \<times> 'db node" where
  "addPeer nd i =
     (case nd_heap nd i of
        None \<Rightarrow> (Panic, nd)
      | Some p \<Rightarrow>
          if length (nd_peers nd) \<ge> MaxPeers then ClosePeer nd i True
          else (Ok (), nd\<lparr>nd_peers := AList.update (pe_PubKey p) i (nd_peers nd)\<rparr>))"

text \<open>A new peer object: \<^verbatim>\<open>network.NewPeer(conn, theirPub, addr, n.removePeer)\<close>.\<close>

definition allocPeer :: "'db node \<Rightarrow> pubkey \<Rightarrow> string \<Rightarrow> peer_id \<times> 'db node" where
  "allocPeer nd pk addr =
     (nd_next nd, nd\<lparr>nd_heap := (nd_heap nd)(nd_next nd \<mapsto> NewPeer pk addr), nd_next := nd_next nd + 1\<rparr>)"

fun stopLoop :: "'db node \<Rightarrow> peer_id list \<Rightarrow> unit result \<times> 'db node" where
  "stopLoop nd [] = (Ok (), nd)"
| "stopLoop nd (i # is) = andThen (ClosePeer nd i True) (\<lambda>nd'. stopLoop nd' is)"

text \<open>\<^verbatim>\<open>Stop\<close>, between closing the listener and closing the database: the peers are closed under the
  read lock.\<close>

definition Stop :: "'db node \<Rightarrow> unit result \<times> 'db node" where
  "Stop nd = stopLoop nd (map snd (nd_peers nd))"

definition PeerCount :: "'db node \<Rightarrow> nat" where
  "PeerCount nd = length (nd_peers nd)"

definition PeerList :: "'db node \<Rightarrow> (string \<times> string) list" where
  "PeerList nd =
     map (\<lambda>(k, i). case nd_heap nd i of
            Some p \<Rightarrow> (hex_encode (arr32 (pe_PubKey p)), pe_Addr p) | None \<Rightarrow> ('''', ''''))
       (nd_peers nd)"

end
