(* ===== verification/Handlers.thy ===== *)
theory Handlers
  imports Node
begin

text \<open>
  The handlers of \<^verbatim>\<open>node/node.go\<close> and the two calls that start and finish a payment, \<open>SendTx\<close> and
  \<open>confirmTx\<close>.
\<close>

section \<open>Packet handlers\<close>

definition handleNonceLock ::
  "('db, 'txn) net_env \<Rightarrow> step_ctx \<Rightarrow> 'db node \<Rightarrow> packet \<Rightarrow> unit result \<times> 'db node" where
  "handleNonceLock NE cx nd pkt =
     (case ShouldForward (nd_gossip nd) (cx_now cx) (pk_MsgID pkt) of
        ((should, hops), g) \<Rightarrow>
          (let nd1 = nd\<lparr>nd_gossip := g\<rparr> in
           if \<not> should then (Ok (), nd1)
           else (case unmarshal (ne_nonceLock NE) (pk_Payload pkt) of
                   Inl e \<Rightarrow> (Ok (), nd1)
                 | Inr msg \<Rightarrow>
                     (let db' = snd (Lock (en_badger (ne_env NE)) (nd_db nd1) (cx_now cx)
                                       (nl_From msg) (nl_Nonce msg))
                      in broadcast NE (cx_draws cx 0) (set_db db' nd1) pkt None))))"

text \<open>The message id of a witness signature, byte by byte: the transaction hash xor the key.\<close>

definition sigMsgID :: "hash32 \<Rightarrow> pubkey \<Rightarrow> hash32" where
  "sigMsgID h pk = be_word (map2 (XOR) (arr32 h) (arr32 pk))"

text \<open>What a witness does once it accepted the transaction: sign, answer, and pass the packet on.\<close>

definition witnessReply ::
  "('db, 'txn) net_env \<Rightarrow> step_ctx \<Rightarrow> 'db node \<Rightarrow> packet \<Rightarrow> transaction \<Rightarrow> hash32 \<Rightarrow>
     unit result \<times> 'db node" where
  "witnessReply NE cx nd pkt tx tip =
     (let E = ne_env NE;
          seen = IsLocked (en_badger E) (nd_db nd) (cx_now cx) (tx_From tx) (tx_Nonce tx) in
      case SignAsWitness (en_crypto E) (nd_kp nd) (tx_Hash tx) tip seen of
        Err e \<Rightarrow> (Ok (), nd) | Panic \<Rightarrow> (Panic, nd) | Blocked \<Rightarrow> (Blocked, nd)
      | Ok sig \<Rightarrow>
          (let witPkt = \<lparr>pk_Type = PacketTxWitnessSig,
                         pk_MsgID = sigMsgID (tx_Hash tx) (ws_WitnessPubKey sig),
                         pk_Payload = marshal_or_nil (ne_witSig NE)
                                        \<lparr>wm_TxHash = tx_Hash tx, wm_Sig = sig\<rparr>\<rparr>
           in andThen
                (if map_of (nd_peers nd) (tx_From tx) \<noteq> None
                 then sendToOriginator NE nd (tx_From tx) witPkt
                 else broadcast NE (cx_draws cx 0) nd witPkt None)
                (\<lambda>nd'. broadcast NE (cx_draws cx 1) nd' pkt None)))"

definition handleTxVerify ::
  "('db, 'txn) net_env \<Rightarrow> step_ctx \<Rightarrow> 'db node \<Rightarrow> packet \<Rightarrow> unit result \<times> 'db node" where
  "handleTxVerify NE cx nd pkt =
     (case ShouldForward (nd_gossip nd) (cx_now cx) (pk_MsgID pkt) of
        ((should, hops), g) \<Rightarrow>
          (let E = ne_env NE; nd1 = nd\<lparr>nd_gossip := g\<rparr> in
           if \<not> should then (Ok (), nd1)
           else (case unmarshal (ne_txVerify NE) (pk_Payload pkt) of
              Inl e \<Rightarrow> (Ok (), nd1)
            | Inr msg \<Rightarrow>
                (case GetActiveSet (en_badger E) (en_wits E) (nd_db nd1) (cx_now cx) of
                   Err e \<Rightarrow> (Ok (), nd1) | Panic \<Rightarrow> (Panic, nd1) | Blocked \<Rightarrow> (Blocked, nd1)
                 | Ok validSet \<Rightarrow>
                     if validSet = {} then (Ok (), nd1)
                     else if kp_Public (nd_kp nd1) \<notin> validSet then (Ok (), nd1)
                     else
                       (let tips = CurrentTips (tp_dag (nd_tp nd1));
                            tip = (case tips of [] \<Rightarrow> 0 | t # _ \<Rightarrow> t) in
                        case TxProcessor_VerifyTx E (nd_db nd1) (cx_now cx)
                               \<lparr>vp_Tx = tv_Tx msg, vp_Snapshot = tv_Snapshot msg, vp_KnownTips = {}\<rparr> of
                          Err e \<Rightarrow> (Ok (), nd1) | Panic \<Rightarrow> (Panic, nd1) | Blocked \<Rightarrow> (Blocked, nd1)
                        | Ok _ \<Rightarrow>
                            (case tv_Tx msg of
                               None \<Rightarrow> (Panic, nd1)
                             | Some tx \<Rightarrow> witnessReply NE cx nd1 pkt tx tip))))))"

definition handleWitnessSig ::
  "('db, 'txn) net_env \<Rightarrow> step_ctx \<Rightarrow> 'db node \<Rightarrow> packet \<Rightarrow> unit result \<times> 'db node" where
  "handleWitnessSig NE cx nd pkt =
     (case unmarshal (ne_witSig NE) (pk_Payload pkt) of
        Inl e \<Rightarrow> (Ok (), nd)
      | Inr msg \<Rightarrow>
          (case nd_pending nd (wm_TxHash msg) of
             None \<Rightarrow>
               (case ShouldForward (nd_gossip nd) (cx_now cx) (pk_MsgID pkt) of
                  ((should, hops), g) \<Rightarrow>
                    (let nd1 = nd\<lparr>nd_gossip := g\<rparr> in
                     if should then broadcast NE (cx_draws cx 0) nd1 pkt None else (Ok (), nd1)))
           | Some meta \<Rightarrow>
               (let sigs = pm_sigs meta @ [wm_Sig msg];
                    shouldConfirm = (length sigs = quorumK \<and> \<not> pm_confirmed meta);
                    meta' = meta\<lparr>pm_sigs := sigs, pm_confirmed := pm_confirmed meta \<or> shouldConfirm\<rparr>
                in if shouldConfirm
                   then (Ok (), nd\<lparr>nd_pending := (nd_pending nd)(wm_TxHash msg := None),
                                   nd_spawned := nd_spawned nd @ [(pm_tx meta, sigs)]\<rparr>)
                   else (Ok (), nd\<lparr>nd_pending := (nd_pending nd)(wm_TxHash msg \<mapsto> meta')\<rparr>))))"

definition handleTxConfirmed ::
  "('db, 'txn) net_env \<Rightarrow> step_ctx \<Rightarrow> 'db node \<Rightarrow> packet \<Rightarrow> unit result \<times> 'db node" where
  "handleTxConfirmed NE cx nd pkt =
     (case ShouldForward (nd_gossip nd) (cx_now cx) (pk_MsgID pkt) of
        ((should, hops), g) \<Rightarrow>
          (let nd1 = nd\<lparr>nd_gossip := g\<rparr> in
           if \<not> should then (Ok (), nd1)
           else (case unmarshal (ne_confirmed NE) (pk_Payload pkt) of
                   Inl e \<Rightarrow> (Ok (), nd1)
                 | Inr msg \<Rightarrow>
                     (case ApplyConfirmedTxBalance (ne_env NE) (nd_db nd1) (cx_now cx) (cm_Tx msg) of
                        (Panic, db') \<Rightarrow> (Panic, set_db db' nd1)
                      | (Blocked, db') \<Rightarrow> (Blocked, set_db db' nd1)
                      | (_, db') \<Rightarrow> broadcast NE (cx_draws cx 0) (set_db db' nd1) pkt None))))"

definition handlePacket ::
  "('db, 'txn) net_env \<Rightarrow> step_ctx \<Rightarrow> 'db node \<Rightarrow> peer_id \<Rightarrow> packet \<Rightarrow> unit result \<times> 'db node" where
  "handlePacket NE cx nd i pkt =
     (if pk_Type pkt = PacketNonceLock then handleNonceLock NE cx nd pkt
      else if pk_Type pkt = PacketTxVerify then handleTxVerify NE cx nd pkt
      else if pk_Type pkt = PacketTxWitnessSig then handleWitnessSig NE cx nd pkt
      else if pk_Type pkt = PacketTxConfirmed then handleTxConfirmed NE cx nd pkt
      else if pk_Type pkt = PacketPing
      then sendToPeer NE nd i \<lparr>pk_Type = PacketPong, pk_MsgID = 0, pk_Payload = []\<rparr>
      else (Ok (), nd))"

section \<open>Payments\<close>

text \<open>
  \<^verbatim>\<open>confirmTx\<close>, which runs as a goroutine: the signatures are checked, the transaction confirmed and
  the confirmation broadcast. Failures are only logged.
\<close>

definition confirmTx ::
  "('db, 'txn) net_env \<Rightarrow> step_ctx \<Rightarrow> 'db node \<Rightarrow> transaction \<Rightarrow> witness_signature list \<Rightarrow>
     unit result \<times> 'db node" where
  "confirmTx NE cx nd tx sigs =
     (let E = ne_env NE in
      case GetActiveSet (en_badger E) (en_wits E) (nd_db nd) (cx_now cx) of
        Err e \<Rightarrow> (Ok (), nd) | Panic \<Rightarrow> (Panic, nd) | Blocked \<Rightarrow> (Blocked, nd)
      | Ok validSet \<Rightarrow>
          (case VerifyQuorum (en_crypto E) sigs (tx_Hash tx) validSet (int quorumK) of
             Some e \<Rightarrow> (Ok (), nd)
           | None \<Rightarrow>
               (let c = ConfirmTx E (nd_tp nd) (cx_now cx) (tx\<lparr>tx_WitnessSigs := sigs\<rparr>);
                    nd1 = nd\<lparr>nd_tp := cr_tp c,
                             nd_snapJobs := nd_snapJobs nd @ (case cr_go c of None \<Rightarrow> [] | Some j \<Rightarrow> [j])\<rparr>
                in case cr_out c of
                     Err e \<Rightarrow> (Ok (), nd1) | Panic \<Rightarrow> (Panic, nd1) | Blocked \<Rightarrow> (Blocked, nd1)
                   | Ok _ \<Rightarrow>
                       broadcast NE (cx_draws cx 0) nd1
                         \<lparr>pk_Type = PacketTxConfirmed, pk_MsgID = tx_Hash tx,
                          pk_Payload = marshal_or_nil (ne_confirmed NE) \<lparr>cm_Tx = Some (cr_tx c)\<rparr>\<rparr>
                         None)))"

text \<open>\<^verbatim>\<open>v, _ :=\<close> of a read: 0 after an error.\<close>

definition value_or_zero :: "u64 result \<Rightarrow> u64 result" where
  "value_or_zero r = (case r of Err e \<Rightarrow> Ok 0 | _ \<Rightarrow> r)"

definition SendTx ::
  "('db, 'txn) net_env \<Rightarrow> step_ctx \<Rightarrow> error + bytes \<Rightarrow> 'db node \<Rightarrow> pubkey \<Rightarrow> amount \<Rightarrow>
     transaction result \<times> 'db node" where
  "SendTx NE cx rnd nd to amt =
     (let E = ne_env NE; now = cx_now cx; me = kp_Public (nd_kp nd) in
      case BuildTx E (nd_tp nd) now rnd (nd_kp nd) to amt of
        Err e \<Rightarrow> (Err e, nd) | Panic \<Rightarrow> (Panic, nd) | Blocked \<Rightarrow> (Blocked, nd)
      | Ok tx \<Rightarrow>
          (case AcquireNonceLock E (nd_db nd) now tx of
             (Some e, db') \<Rightarrow> (Err e, set_db db' nd)
           | (None, db') \<Rightarrow>
               (let nd1 = (set_db db' nd)\<lparr>nd_pending := (nd_pending nd)(tx_Hash tx \<mapsto>
                              \<lparr>pm_tx = tx, pm_sigs = [], pm_confirmed = False\<rparr>)\<rparr>
                in andThen
                     (broadcast NE (cx_draws cx 0) nd1
                        \<lparr>pk_Type = PacketNonceLock, pk_MsgID = tx_Hash tx,
                         pk_Payload = marshal_or_nil (ne_nonceLock NE)
                                        \<lparr>nl_From = tx_From tx, nl_Nonce = tx_Nonce tx\<rparr>\<rparr> None)
                     (\<lambda>nd2.
                        case bindO (value_or_zero (GetBalance (en_badger E) (nd_db nd2) now me)) (\<lambda>bal.
                             bindO (value_or_zero (GetLatestSeq (en_badger E) (nd_db nd2) now me)) (\<lambda>seq.
                             Ok \<lparr>sn_PubKey = me, sn_Sequence = seq, sn_Balance = bal,
                                 sn_DAGTips = CurrentTips (tp_dag (nd_tp nd2)), sn_CreatedAt = now,
                                 sn_ExpiresAt = now + snapshotTTL\<rparr>)) of
                          Err e \<Rightarrow> (Err e, nd2) | Panic \<Rightarrow> (Panic, nd2) | Blocked \<Rightarrow> (Blocked, nd2)
                        | Ok snap \<Rightarrow>
                            andThen
                              (broadcast NE (cx_draws cx 1) nd2
                                 \<lparr>pk_Type = PacketTxVerify, pk_MsgID = tx_Hash tx,
                                  pk_Payload = marshal_or_nil (ne_txVerify NE)
                                                 \<lparr>tv_Tx = Some tx, tv_Snapshot = Some snap\<rparr>\<rparr> None)
                              (\<lambda>nd3. (Ok tx, nd3))))))"

section \<open>Connections\<close>

text \<open>
  The packet loop of one connection: every packet is handled, the first read error closes the
  peer. \<open>cxs n\<close> is the context of the \<open>n\<close>-th packet; the loop ends because every packet takes at
  least its four length bytes.
\<close>

lemma ReadFull_rest: "ReadFull n c = (Inr b, c') \<Longrightarrow> length c' + n = length c"
  by (auto simp: ReadFull_def split: if_splits)

lemma ReadPacket_consumes:
  assumes "ReadPacket J c = (Ok p, c')"
  shows "length c' < length c"
proof -
  obtain b c1 where 1: "ReadFull 4 c = (Inr b, c1)"
    using assms by (auto simp: ReadPacket_def split: prod.splits sum.splits)
  with assms obtain n d where "ReadFull n c1 = (Inr d, c')"
    by (auto simp: ReadPacket_def split: prod.splits sum.splits outcome.splits if_splits)
  with ReadFull_rest[OF 1] show ?thesis using ReadFull_rest by force
qed

function readLoop ::
  "('db, 'txn) net_env \<Rightarrow> (nat \<Rightarrow> step_ctx) \<Rightarrow> nat \<Rightarrow> 'db node \<Rightarrow> peer_id \<Rightarrow> bytes \<Rightarrow>
     unit result \<times> 'db node" where
  "readLoop NE cxs n nd i conn =
     (case ReadPacket (ne_packet NE) conn of
        (Ok pkt, conn') \<Rightarrow>
          andThen (handlePacket NE (cxs n) nd i pkt) (\<lambda>nd'. readLoop NE cxs (n + 1) nd' i conn')
      | (_, conn') \<Rightarrow> ClosePeer nd i False)"
  by pat_completeness auto
termination readLoop
  by (relation "measure (\<lambda>(NE, cxs, n, nd, i, conn). length conn)") (auto dest: ReadPacket_consumes[OF sym])

declare readLoop.simps [simp del]

text \<open>
  \<^verbatim>\<open>handleInbound\<close> up to the start of its two goroutines, the write pump and the packet loop: what
  is written back, and the new peer with what is left of the connection, if the handshake went
  well.
\<close>

definition handleInbound ::
  "('db, 'txn) net_env \<Rightarrow> 'db node \<Rightarrow> string \<Rightarrow> bytes \<Rightarrow>
     (bytes \<times> (peer_id \<times> bytes) option) result \<times> 'db node" where
  "handleInbound NE nd addr conn =
     (case ReadPacket (ne_packet NE) conn of
        (Ok pkt, conn') \<Rightarrow>
          if pk_Type pkt \<noteq> PacketHandshake then (Ok ([], None), nd)
          else (case unmarshal (ne_pubkey NE) (pk_Payload pkt) of
                  Inl e \<Rightarrow> (Ok ([], None), nd)
                | Inr theirPub \<Rightarrow>
                    (let reply = (case Encode (ne_packet NE)
                                    \<lparr>pk_Type = PacketHandshake, pk_MsgID = 0,
                                     pk_Payload = marshal_or_nil (ne_pubkey NE) (kp_Public (nd_kp nd))\<rparr> of
                                    Ok b \<Rightarrow> b | _ \<Rightarrow> []) in
                     case allocPeer nd theirPub addr of
                       (i, nd1) \<Rightarrow> andThen (addPeer nd1 i) (\<lambda>nd2. (Ok (reply, Some (i, conn')), nd2))))
      | (_, conn') \<Rightarrow> (Ok ([], None), nd))"

text \<open>
  One round of \<^verbatim>\<open>connectToSeed\<close>: \<open>dial\<close> is the other side's stream, if the connection came up. The
  round that gets through the handshake runs the packet loop until the connection ends.
\<close>

definition connectRound ::
  "('db, 'txn) net_env \<Rightarrow> (nat \<Rightarrow> step_ctx) \<Rightarrow> 'db node \<Rightarrow> string \<Rightarrow> bytes option \<Rightarrow>
     unit result \<times> 'db node" where
  "connectRound NE cxs nd addr dial =
     (case dial of
        None \<Rightarrow> (Ok (), nd)
      | Some conn \<Rightarrow>
          (case ReadPacket (ne_packet NE) conn of
             (Ok pkt, conn') \<Rightarrow>
               if pk_Type pkt \<noteq> PacketHandshake then (Ok (), nd)
               else (case unmarshal (ne_pubkey NE) (pk_Payload pkt) of
                       Inl e \<Rightarrow> (Ok (), nd)
                     | Inr theirPub \<Rightarrow>
                         (case allocPeer nd theirPub addr of
                            (i, nd1) \<Rightarrow> andThen (addPeer nd1 i) (\<lambda>nd2. readLoop NE cxs 0 nd2 i conn')))
           | (_, conn') \<Rightarrow> (Ok (), nd)))"

end
