(* ===== verification/NodeInv.thy ===== *)
theory NodeInv
  imports Handlers
begin

text \<open>
  What every handler keeps: the store well-formed, the cache's counts in bounds, the peer table
  consistent with the peer objects, and the graph empty; and which packets make a handler panic.
\<close>

section \<open>Sending changes the channels only\<close>

definition same_peer :: "peer \<Rightarrow> peer \<Rightarrow> bool" where
  "same_peer p p' \<longleftrightarrow> pe_PubKey p' = pe_PubKey p \<and> pe_Addr p' = pe_Addr p \<and> pe_state p' = pe_state p
     \<and> (peer_wf p \<longrightarrow> peer_wf p')"

definition same_heap :: "(peer_id \<Rightarrow> peer option) \<Rightarrow> (peer_id \<Rightarrow> peer option) \<Rightarrow> bool" where
  "same_heap h h' \<longleftrightarrow> (\<forall>i. rel_option same_peer (h i) (h' i))"

definition sent :: "'db node \<Rightarrow> 'db node \<Rightarrow> bool" where
  "sent nd nd' \<longleftrightarrow> (\<exists>h. nd' = nd\<lparr>nd_heap := h\<rparr> \<and> same_heap (nd_heap nd) h)"

lemma same_peer_refl [simp]: "same_peer p p"
  by (simp add: same_peer_def)

lemma same_peer_trans: "same_peer p q \<Longrightarrow> same_peer q r \<Longrightarrow> same_peer p r"
  by (auto simp: same_peer_def)

lemma sent_refl [simp]: "sent nd nd"
  by (auto simp: sent_def same_heap_def intro!: exI[of _ "nd_heap nd"] option.rel_refl)

lemma sent_trans:
  assumes "sent a b" and "sent b c"
  shows "sent a c"
proof -
  from assms obtain h k where b: "b = a\<lparr>nd_heap := h\<rparr>" "same_heap (nd_heap a) h"
    and c: "c = b\<lparr>nd_heap := k\<rparr>" "same_heap (nd_heap b) k"
    by (auto simp: sent_def)
  have "same_heap (nd_heap a) k"
    unfolding same_heap_def
  proof
    fix i
    have "rel_option same_peer (nd_heap a i) (h i)" "rel_option same_peer (h i) (k i)"
      using b c by (simp_all add: same_heap_def)
    then show "rel_option same_peer (nd_heap a i) (k i)"
      by (cases "nd_heap a i"; cases "h i"; cases "k i") (auto intro: same_peer_trans)
  qed
  with b c show ?thesis by (auto simp: sent_def)
qed

definition heap_wf :: "(peer_id \<Rightarrow> peer option) \<Rightarrow> bool" where
  "heap_wf h \<longleftrightarrow> (\<forall>i p. h i = Some p \<longrightarrow> peer_wf p)"

text \<open>The table names existing peers that are active, under their own keys, each key once, and is
  not too long.\<close>

definition peers_ok :: "'db node \<Rightarrow> bool" where
  "peers_ok nd \<longleftrightarrow> heap_wf (nd_heap nd) \<and> distinct (map fst (nd_peers nd)) \<and>
     length (nd_peers nd) \<le> MaxPeers \<and>
     (\<forall>(k, i) \<in> set (nd_peers nd). \<exists>p. nd_heap nd i = Some p \<and> pe_PubKey p = k \<and> pe_state p = PeerActive) \<and>
     (\<forall>i \<ge> nd_next nd. nd_heap nd i = None)"

lemma same_heap_Some: "same_heap h h' \<Longrightarrow> h i = Some p \<Longrightarrow> \<exists>p'. h' i = Some p' \<and> same_peer p p'"
  by (auto simp: same_heap_def option_rel_Some1 dest: spec[of _ i])

lemma same_heap_None: "same_heap h h' \<Longrightarrow> h i = None \<longleftrightarrow> h' i = None"
  by (metis option.rel_distinct same_heap_def option.exhaust)

lemma same_heap_Some_iff: "same_heap h h' \<Longrightarrow> (\<exists>p. h' i = Some p) \<longleftrightarrow> (\<exists>p. h i = Some p)"
  using same_heap_None[of h h' i] by auto

lemma same_heap_back:
  assumes "same_heap h h'" and "h' i = Some p'"
  obtains p where "h i = Some p" "same_peer p p'"
  using assms same_heap_None[OF assms(1), of i] same_heap_Some[OF assms(1), of i]
  by (cases "h i") auto

lemma same_heap_wf: "same_heap h h' \<Longrightarrow> heap_wf h \<Longrightarrow> heap_wf h'"
  by (auto simp: heap_wf_def same_peer_def elim!: same_heap_back)

lemma sent_peers_ok:
  assumes "sent nd nd'" and "peers_ok nd"
  shows "peers_ok nd'"
proof -
  from assms(1) obtain h where nd': "nd' = nd\<lparr>nd_heap := h\<rparr>" and h: "same_heap (nd_heap nd) h"
    by (auto simp: sent_def)
  have "\<exists>p. h i = Some p \<and> pe_PubKey p = k \<and> pe_state p = PeerActive" if "(k, i) \<in> set (nd_peers nd)" for k i
  proof -
    from that assms(2) obtain p where "nd_heap nd i = Some p" "pe_PubKey p = k" "pe_state p = PeerActive"
      by (auto simp: peers_ok_def)
    with same_heap_Some[OF h] show ?thesis by (force simp: same_peer_def)
  qed
  moreover have "h i = None" if "i \<ge> nd_next nd" for i
    using that assms(2) same_heap_None[OF h, of i] by (simp add: peers_ok_def)
  ultimately show ?thesis
    using assms(2) same_heap_wf[OF h] by (auto simp: nd' peers_ok_def)
qed

lemma sendToPeer_sent:
  assumes "heap_wf (nd_heap nd)" and "nd_heap nd i \<noteq> None"
  shows "fst (sendToPeer NE nd i pkt) = Ok () \<and> sent nd (snd (sendToPeer NE nd i pkt))"
proof -
  from assms obtain p where p: "nd_heap nd i = Some p" "peer_wf p"
    by (auto simp: heap_wf_def)
  obtain r p' where s: "Send (ne_packet NE) p pkt = (r, p')" by fastforce
  from Send_wf[OF p(2) s] have r: "r \<noteq> Panic" "r \<noteq> Blocked" and same: "same_peer p p'"
    by (auto simp: same_peer_def)
  have "same_heap (nd_heap nd) ((nd_heap nd)(i \<mapsto> p'))"
    using p same by (auto simp: same_heap_def intro: option.rel_refl)
  with p s r show ?thesis
    by (cases r) (auto simp: sendToPeer_def sent_def Let_def)
qed

lemma sendAll_sent:
  assumes "heap_wf (nd_heap nd)" and "\<forall>i \<in> set is. nd_heap nd i \<noteq> None"
  shows "fst (sendAll NE nd is pkt) = Ok () \<and> sent nd (snd (sendAll NE nd is pkt))"
  using assms
proof (induction "is" arbitrary: nd)
  case Nil
  then show ?case by simp
next
  case (Cons i "is")
  obtain nd1 where 1: "sendToPeer NE nd i pkt = (Ok (), nd1)" and s: "sent nd nd1"
    using sendToPeer_sent[OF Cons.prems(1), of i NE pkt] Cons.prems(2)
    by (cases "sendToPeer NE nd i pkt") auto
  from s have "heap_wf (nd_heap nd1)" and "\<forall>j \<in> set is. nd_heap nd1 j \<noteq> None"
    using Cons.prems by (auto simp: sent_def same_heap_wf same_heap_Some_iff)
  from Cons.IH[OF this] 1 s show ?case by (auto simp: andThen_def intro: sent_trans)
qed

lemma broadcast_sent:
  assumes "peers_ok nd"
  obtains nd' where "broadcast NE draws nd pkt ex = (Ok (), nd')" and "sent nd nd'"
proof -
  let ?is = "SelectPeers draws (filter (\<lambda>i. Some i \<noteq> ex) (map snd (nd_peers nd))) Fanout"
  have "\<forall>i \<in> set ?is. nd_heap nd i \<noteq> None"
    using set_SelectPeers[of draws "filter (\<lambda>i. Some i \<noteq> ex) (map snd (nd_peers nd))" Fanout] assms
    by (fastforce simp: peers_ok_def)
  from sendAll_sent[OF _ this, of NE pkt] assms that show ?thesis
    by (cases "sendAll NE nd ?is pkt") (auto simp: broadcast_def peers_ok_def)
qed

lemma sendToOriginator_sent:
  assumes "peers_ok nd"
  obtains nd' where "sendToOriginator NE nd pk pkt = (Ok (), nd')" and "sent nd nd'"
proof (cases "map_of (nd_peers nd) pk")
  case None
  then show ?thesis using that by (simp add: sendToOriginator_def)
next
  case (Some i)
  then have "nd_heap nd i \<noteq> None" using assms by (fastforce simp: peers_ok_def dest: map_of_SomeD)
  with sendToPeer_sent[of nd i NE pkt] assms Some that show ?thesis
    by (cases "sendToPeer NE nd i pkt") (auto simp: sendToOriginator_def peers_ok_def)
qed

section \<open>The processor never panics but on a null transaction\<close>

lemma bindO_Panic_iff: "bindO r f = Panic \<longleftrightarrow> r = Panic \<or> (\<exists>a. r = Ok a \<and> f a = Panic)"
  by (cases r) auto

lemma bindO_Blocked_iff: "bindO r f = Blocked \<longleftrightarrow> r = Blocked \<or> (\<exists>a. r = Ok a \<and> f a = Blocked)"
  by (cases r) auto

lemma verify_outcome:
  assumes "store_ok E A db"
  shows "TxProcessor_VerifyTx E db now pkt \<noteq> Blocked"
    and "TxProcessor_VerifyTx E db now pkt = Panic \<Longrightarrow> vp_Tx pkt = None"
proof -
  have seq: "GetLatestSeq (en_badger E) db now pk \<noteq> Panic"
    "GetLatestSeq (en_badger E) db now pk \<noteq> Blocked" for pk
    using chain.get_seq_no_panic[OF assms] by blast+
  have bal: "GetBalance (en_badger E) db now pk \<noteq> Panic"
    "GetBalance (en_badger E) db now pk \<noteq> Blocked" for pk
    using chain.get_bal_no_panic[OF assms] by blast+
  have eff: "effectiveBal E db now sn pk \<noteq> Panic" "effectiveBal E db now sn pk \<noteq> Blocked" for sn pk
    using bal by (auto simp: effectiveBal_def Let_def bindO_Panic_iff bindO_Blocked_iff)
  show "TxProcessor_VerifyTx E db now pkt \<noteq> Blocked"
    using seq eff by (auto simp: TxProcessor_VerifyTx_def verifyTxInternal_def bindO_Blocked_iff Let_def
        split: option.splits if_splits)
  show "TxProcessor_VerifyTx E db now pkt = Panic \<Longrightarrow> vp_Tx pkt = None"
    using seq eff by (auto simp: TxProcessor_VerifyTx_def verifyTxInternal_def bindO_Panic_iff Let_def
        split: option.splits if_splits)
qed

lemma GetActiveSet_outcome [simp]:
  "GetActiveSet B J db now \<noteq> Panic" "GetActiveSet B J db now \<noteq> Blocked"
  by (auto simp: GetActiveSet_def GetActiveWitnesses_def bindO_Panic_iff bindO_Blocked_iff
      split: prod.splits option.splits sum.splits)

lemma apply_outcome:
  assumes "store_ok E A db" and "ApplyConfirmedTxBalance E db now ptx = (r, db')"
  shows "store_ok E A db' \<and> r \<noteq> Blocked \<and> (r = Panic \<longleftrightarrow> ptx = None)"
proof (cases ptx)
  case None
  with assms show ?thesis by (auto simp: ApplyConfirmedTxBalance_def)
next
  case (Some tx)
  let ?new = "SafeAdd (read_or_zero E db now (tx_To tx)) (tx_Amount tx)"
  have eq: "ApplyConfirmedTxBalance E db now ptx =
    (if IsConfirmedTxApplied (en_badger E) db now (tx_Hash tx) then (Ok (), db)
     else (case ?new of
        Ok v \<Rightarrow> (case SaveBalance (en_badger E) db now (tx_To tx) v of
            (Some e, db1) \<Rightarrow> (Err e, db1)
          | (None, db1) \<Rightarrow> (Ok (), snd (MarkConfirmedTxApplied (en_badger E) db1 now (tx_Hash tx))))
      | Err e \<Rightarrow> (Err e, db) | Panic \<Rightarrow> (Panic, db) | Blocked \<Rightarrow> (Blocked, db)))"
    unfolding ApplyConfirmedTxBalance_def Some option.case drop_error_read[OF assms(1)] bindO.simps ..
  show ?thesis
  proof (cases "IsConfirmedTxApplied (en_badger E) db now (tx_Hash tx) \<or> \<not> is_ok ?new")
    case True
    with assms Some eq show ?thesis by (cases ?new) (auto split: if_splits)
  next
    case False
    then obtain v where v: "?new = Ok v" by (auto simp: is_ok_iff)
    obtain e db1 where w: "SaveBalance (en_badger E) db now (tx_To tx) v = (e, db1)" by fastforce
    have ok1: "store_ok E A db1"
      using chain.writes_keep_good(1)[OF assms(1), of now "tx_To tx" v] w by simp
    with False v w Some assms(2) eq mark_cases[OF ok1, of now "tx_Hash tx"] show ?thesis
      by (cases e) auto
  qed
qed

lemma ConfirmTx_outcome:
  assumes "store_ok E A (tp_db tp)"
  shows "cr_out (ConfirmTx E tp now tx) \<noteq> Panic" "cr_out (ConfirmTx E tp now tx) \<noteq> Blocked"
    "store_ok E A (tp_db (cr_tp (ConfirmTx E tp now tx)))"
proof -
  have *: "(cr_out (ConfirmTx E tp now tx) = Ok () \<or> (\<exists>e. cr_out (ConfirmTx E tp now tx) = Err e))
    \<and> store_ok E A (tp_db (cr_tp (ConfirmTx E tp now tx)))"
  proof (cases "confirmAmounts E (tp_db tp) now tx")
    case (Ok bals)
    with confirmWrite_cases[OF assms refl, of now tx bals] show ?thesis
      by (auto simp: ConfirmTx_def)
  qed (use confirmAmounts_cases[OF assms, of now tx] assms in \<open>simp_all add: ConfirmTx_def\<close>)
  from * show "cr_out (ConfirmTx E tp now tx) \<noteq> Panic" by auto
  from * show "cr_out (ConfirmTx E tp now tx) \<noteq> Blocked" by auto
  from * show "store_ok E A (tp_db (cr_tp (ConfirmTx E tp now tx)))" by blast
qed

lemma ConfirmTx_no_parents:
  "tx_ParentHashes tx = [] \<Longrightarrow> tp_dag (cr_tp (ConfirmTx E tp now tx)) = tp_dag tp"
  by (auto simp: ConfirmTx_def confirmWrite_def Let_def split: outcome.splits prod.splits option.splits)

section \<open>The node's invariants\<close>

definition core_ok :: "('db, 'txn) env \<Rightarrow> ('db, 'txn) badger_abs \<Rightarrow> 'db node \<Rightarrow> bool" where
  "core_ok E A nd \<longleftrightarrow> store_ok E A (nd_db nd) \<and> hops_ok (nd_gossip nd)
     \<and> length (kp_private (nd_kp nd)) = PrivateKeySize"

definition node_ok :: "('db, 'txn) env \<Rightarrow> ('db, 'txn) badger_abs \<Rightarrow> 'db node \<Rightarrow> bool" where
  "node_ok E A nd \<longleftrightarrow> core_ok E A nd \<and> peers_ok nd"

text \<open>The graph has no edge, and no payment under way would add one.\<close>

definition no_edges :: "'db node \<Rightarrow> bool" where
  "no_edges nd \<longleftrightarrow> dm_edges (tp_dag (nd_tp nd)) = [] \<and>
     (\<forall>h m. nd_pending nd h = Some m \<longrightarrow> tx_ParentHashes (pm_tx m) = []) \<and>
     (\<forall>(tx, sigs) \<in> set (nd_spawned nd). tx_ParentHashes tx = [])"

lemma CurrentTips_empty: "dm_edges dm = [] \<Longrightarrow> CurrentTips dm = []"
  by (simp add: CurrentTips_def nodesOf_def sort_by_def)

text \<open>What sending leaves alone.\<close>

lemma sent_same [simp]:
  assumes "sent nd nd'"
  shows "nd_tp nd' = nd_tp nd" "nd_gossip nd' = nd_gossip nd" "nd_kp nd' = nd_kp nd"
    "nd_pending nd' = nd_pending nd" "nd_spawned nd' = nd_spawned nd" "nd_peers nd' = nd_peers nd"
    "nd_snapJobs nd' = nd_snapJobs nd" "nd_next nd' = nd_next nd"
  using assms by (auto simp: sent_def)

lemma sent_node_ok: "sent nd nd' \<Longrightarrow> node_ok E A nd \<Longrightarrow> node_ok E A nd'"
  by (simp add: node_ok_def core_ok_def sent_peers_ok)

lemma sent_no_edges: "sent nd nd' \<Longrightarrow> no_edges nd' \<longleftrightarrow> no_edges nd"
  by (simp add: no_edges_def)

lemma node_ok_updates [simp]:
  "node_ok E A (nd\<lparr>nd_pending := pd\<rparr>) \<longleftrightarrow> node_ok E A nd"
  "node_ok E A (nd\<lparr>nd_spawned := sp\<rparr>) \<longleftrightarrow> node_ok E A nd"
  "node_ok E A (nd\<lparr>nd_snapJobs := sj\<rparr>) \<longleftrightarrow> node_ok E A nd"
  by (auto simp: node_ok_def core_ok_def peers_ok_def hops_ok_New)

lemma node_ok_gossip:
  assumes "node_ok E A nd" and "ShouldForward (nd_gossip nd) now m = (r, g)"
  shows "node_ok E A (nd\<lparr>nd_gossip := g\<rparr>)"
  using assms hops_ok_ShouldForward[of "nd_gossip nd" now m]
  by (simp add: node_ok_def core_ok_def peers_ok_def)

lemma node_ok_db: "node_ok E A nd \<Longrightarrow> store_ok E A db \<Longrightarrow> node_ok E A (set_db db nd)"
  by (simp add: node_ok_def core_ok_def peers_ok_def)

lemma node_ok_tp: "node_ok E A nd \<Longrightarrow> store_ok E A (tp_db tp) \<Longrightarrow> node_ok E A (nd\<lparr>nd_tp := tp\<rparr>)"
  by (simp add: node_ok_def core_ok_def peers_ok_def)

lemma broadcast_done:
  assumes "node_ok E A nd"
  shows "\<exists>nd'. broadcast NE draws nd pkt ex = (Ok (), nd') \<and> node_ok E A nd' \<and> sent nd nd'"
  using assms broadcast_sent[of nd NE draws pkt ex] sent_node_ok[OF _ assms]
  by (metis node_ok_def)

lemma sendToOriginator_done:
  assumes "node_ok E A nd"
  shows "\<exists>nd'. sendToOriginator NE nd pk pkt = (Ok (), nd') \<and> node_ok E A nd' \<and> sent nd nd'"
  using assms sendToOriginator_sent[of nd NE pk pkt] sent_node_ok[OF _ assms]
  by (metis node_ok_def)

text \<open>
  A handler's outcome: it returns, or it panics over a null transaction; the invariants hold
  either way.
\<close>

definition outcome_ok ::
  "('db, 'txn) env \<Rightarrow> ('db, 'txn) badger_abs \<Rightarrow> 'db node \<Rightarrow> bool \<Rightarrow> 'a result \<times> 'db node \<Rightarrow> bool" where
  "outcome_ok E A nd null out \<longleftrightarrow>
     node_ok E A (snd out) \<and> (no_edges nd \<longrightarrow> no_edges (snd out))
     \<and> fst out \<noteq> Blocked \<and> (fst out = Panic \<longrightarrow> null)"

lemma outcome_return: "node_ok E A nd \<Longrightarrow> outcome_ok E A nd null (Ok x, nd)"
  by (simp add: outcome_ok_def)

lemma outcome_broadcast:
  assumes "node_ok E A nd" and "no_edges nd0 \<Longrightarrow> no_edges nd"
  shows "outcome_ok E A nd0 null (broadcast NE draws nd pkt ex)"
  using broadcast_done[OF assms(1), of NE draws pkt ex] assms(2)
  by (auto simp: outcome_ok_def sent_no_edges)

lemma no_edges_updates [simp]:
  "no_edges (nd\<lparr>nd_gossip := g\<rparr>) \<longleftrightarrow> no_edges nd"
  "tp_dag tp = tp_dag (nd_tp nd) \<Longrightarrow> no_edges (nd\<lparr>nd_tp := tp\<rparr>) \<longleftrightarrow> no_edges nd"
  "no_edges (nd\<lparr>nd_snapJobs := sj\<rparr>) \<longleftrightarrow> no_edges nd"
  by (simp_all add: no_edges_def)

lemma handleNonceLock_ok:
  assumes "node_ok (ne_env NE) A nd"
  shows "outcome_ok (ne_env NE) A nd False (handleNonceLock NE cx nd pkt)"
proof -
  obtain should hops g where g: "ShouldForward (nd_gossip nd) (cx_now cx) (pk_MsgID pkt) = ((should, hops), g)"
    by (metis prod.collapse)
  let ?nd1 = "nd\<lparr>nd_gossip := g\<rparr>"
  have ok1: "node_ok (ne_env NE) A ?nd1" using node_ok_gossip[OF assms g] .
  have lock: "store_ok (ne_env NE) A (snd (Lock (en_badger (ne_env NE)) (nd_db ?nd1) now pk n))" for now pk n
    using Lock_ledger(2)[of "en_badger (ne_env NE)" A "nd_db ?nd1" now pk n] ok1
    by (metis core_ok_def node_ok_def prod.collapse)
  show ?thesis
  proof (cases "unmarshal (ne_nonceLock NE) (pk_Payload pkt)")
    case (Inl e)
    with g ok1 show ?thesis by (simp add: handleNonceLock_def outcome_ok_def Let_def)
  next
    case (Inr msg)
    have "outcome_ok (ne_env NE) A nd False (broadcast NE (cx_draws cx 0)
        (set_db (snd (Lock (en_badger (ne_env NE)) (nd_db ?nd1) (cx_now cx) (nl_From msg) (nl_Nonce msg))) ?nd1)
        pkt None)"
      by (rule outcome_broadcast[OF node_ok_db[OF ok1 lock]]) simp
    with Inr g ok1 show ?thesis
      by (cases should) (simp_all add: handleNonceLock_def outcome_ok_def Let_def)
  qed
qed

lemma handleTxConfirmed_ok:
  assumes "node_ok (ne_env NE) A nd"
  shows "outcome_ok (ne_env NE) A nd
    (\<exists>msg. unmarshal (ne_confirmed NE) (pk_Payload pkt) = Inr msg \<and> cm_Tx msg = None)
    (handleTxConfirmed NE cx nd pkt)"
proof -
  obtain should hops g where g: "ShouldForward (nd_gossip nd) (cx_now cx) (pk_MsgID pkt) = ((should, hops), g)"
    by (metis prod.collapse)
  let ?nd1 = "nd\<lparr>nd_gossip := g\<rparr>"
  have ok1: "node_ok (ne_env NE) A ?nd1" using node_ok_gossip[OF assms g] .
  show ?thesis
  proof (cases "unmarshal (ne_confirmed NE) (pk_Payload pkt)")
    case (Inl e)
    with g ok1 show ?thesis by (simp add: handleTxConfirmed_def outcome_ok_def Let_def)
  next
    case (Inr msg)
    obtain r db' where a: "ApplyConfirmedTxBalance (ne_env NE) (nd_db nd) (cx_now cx) (cm_Tx msg) = (r, db')"
      by fastforce
    have st: "store_ok (ne_env NE) A (nd_db nd)" using assms by (simp add: node_ok_def core_ok_def)
    from apply_outcome[OF st a] have db': "store_ok (ne_env NE) A db'" and r: "r \<noteq> Blocked"
      "r = Panic \<Longrightarrow> cm_Tx msg = None" by blast+
    have ok2: "node_ok (ne_env NE) A (set_db db' ?nd1)" using node_ok_db[OF ok1 db'] .
    have "outcome_ok (ne_env NE) A nd
        (\<exists>msg. unmarshal (ne_confirmed NE) (pk_Payload pkt) = Inr msg \<and> cm_Tx msg = None)
        (broadcast NE (cx_draws cx 0) (set_db db' ?nd1) pkt None)"
      by (rule outcome_broadcast[OF ok2]) simp
    with Inr g ok1 ok2 a r show ?thesis
      by (cases should; cases r) (simp_all add: handleTxConfirmed_def outcome_ok_def Let_def)
  qed
qed

lemma Sign_cases:
  "length (kp_private kp) = PrivateKeySize \<Longrightarrow> \<exists>ws. SignAsWitness C kp h t b = Ok ws"
  by (simp add: SignAsWitness_def Sign_def)

lemma witnessReply_ok:
  assumes "node_ok (ne_env NE) A nd" and "no_edges nd0 \<Longrightarrow> no_edges nd"
  shows "outcome_ok (ne_env NE) A nd0 null (witnessReply NE cx nd pkt tx tip)"
proof -
  let ?seen = "IsLocked (en_badger (ne_env NE)) (nd_db nd) (cx_now cx) (tx_From tx) (tx_Nonce tx)"
  obtain ws where ws: "SignAsWitness (en_crypto (ne_env NE)) (nd_kp nd) (tx_Hash tx) tip ?seen = Ok ws"
    using Sign_cases assms(1) by (metis core_ok_def node_ok_def)
  let ?wit = "\<lparr>pk_Type = PacketTxWitnessSig, pk_MsgID = sigMsgID (tx_Hash tx) (ws_WitnessPubKey ws),
      pk_Payload = marshal_or_nil (ne_witSig NE) \<lparr>wm_TxHash = tx_Hash tx, wm_Sig = ws\<rparr>\<rparr>"
  obtain nd1 where 1: "(if map_of (nd_peers nd) (tx_From tx) \<noteq> None
      then sendToOriginator NE nd (tx_From tx) ?wit
      else broadcast NE (cx_draws cx 0) nd ?wit None) = (Ok (), nd1)"
    and ok1: "node_ok (ne_env NE) A nd1" and s: "sent nd nd1"
    using sendToOriginator_done[OF assms(1), of NE "tx_From tx" ?wit]
      broadcast_done[OF assms(1), of NE "cx_draws cx 0" ?wit None] by (metis (full_types))
  have "witnessReply NE cx nd pkt tx tip = broadcast NE (cx_draws cx 1) nd1 pkt None"
    using ws 1 by (simp add: witnessReply_def Let_def andThen_def)
  with outcome_broadcast[OF ok1, of nd0] assms(2) s show ?thesis by (simp add: sent_no_edges)
qed

lemma handleTxVerify_ok:
  assumes "node_ok (ne_env NE) A nd"
  shows "outcome_ok (ne_env NE) A nd
    (\<exists>msg. unmarshal (ne_txVerify NE) (pk_Payload pkt) = Inr msg \<and> tv_Tx msg = None)
    (handleTxVerify NE cx nd pkt)"
proof -
  obtain should hops g where g: "ShouldForward (nd_gossip nd) (cx_now cx) (pk_MsgID pkt) = ((should, hops), g)"
    by (metis prod.collapse)
  let ?nd1 = "nd\<lparr>nd_gossip := g\<rparr>"
  have ok1: "node_ok (ne_env NE) A ?nd1" using node_ok_gossip[OF assms g] .
  have ret: "outcome_ok (ne_env NE) A nd null (Ok (), ?nd1)" for null
    using ok1 by (simp add: outcome_ok_def)
  note defs = handleTxVerify_def Let_def
  have st: "store_ok (ne_env NE) A (nd_db nd)" using assms by (simp add: node_ok_def core_ok_def)
  show ?thesis
  proof (cases "should \<and> (\<exists>msg. unmarshal (ne_txVerify NE) (pk_Payload pkt) = Inr msg)")
    case False
    with g ret show ?thesis by (auto simp: defs split: sum.splits)
  next
    case True
    then obtain msg where msg: "should" "unmarshal (ne_txVerify NE) (pk_Payload pkt) = Inr msg" by blast
    show ?thesis
    proof (cases "\<exists>S. GetActiveSet (en_badger (ne_env NE)) (en_wits (ne_env NE)) (nd_db nd) (cx_now cx) = Ok S
        \<and> S \<noteq> {} \<and> kp_Public (nd_kp nd) \<in> S")
      case False
      with g ret msg show ?thesis
        by (auto simp: defs split: outcome.splits)
    next
      case True
      then obtain S where S: "GetActiveSet (en_badger (ne_env NE)) (en_wits (ne_env NE)) (nd_db nd) (cx_now cx) = Ok S"
        "S \<noteq> {}" "kp_Public (nd_kp nd) \<in> S" by blast
      let ?vp = "\<lparr>vp_Tx = tv_Tx msg, vp_Snapshot = tv_Snapshot msg, vp_KnownTips = {}\<rparr>"
      let ?v = "TxProcessor_VerifyTx (ne_env NE) (nd_db nd) (cx_now cx) ?vp"
      have pan: "outcome_ok (ne_env NE) A nd (tv_Tx msg = None) (Panic :: unit result, ?nd1)"
        if "tv_Tx msg = None" using ok1 that by (simp add: outcome_ok_def)
      show ?thesis
        using g msg S ret pan verify_outcome[OF st, of "cx_now cx" ?vp] witnessReply_ok[OF ok1, of nd]
        by (cases ?v; cases "tv_Tx msg") (simp_all add: defs)
    qed
  qed
qed

end
