(* ===== verification/NodeRun.thy ===== *)
theory NodeRun
  imports NodeInv
begin

text \<open>
  The rest of the handlers' outcomes, the node as a machine whose steps are whole calls, and the
  properties of its runs.
\<close>

lemma handleWitnessSig_ok:
  assumes "node_ok (ne_env NE) A nd"
  shows "outcome_ok (ne_env NE) A nd False (handleWitnessSig NE cx nd pkt)"
proof (cases "unmarshal (ne_witSig NE) (pk_Payload pkt)")
  case (Inl e)
  with assms show ?thesis by (simp add: handleWitnessSig_def outcome_return)
next
  case msg: (Inr msg)
  show ?thesis
  proof (cases "nd_pending nd (wm_TxHash msg)")
    case None
    obtain should hops g where
      g: "ShouldForward (nd_gossip nd) (cx_now cx) (pk_MsgID pkt) = ((should, hops), g)"
      by (metis prod.collapse)
    have ok1: "node_ok (ne_env NE) A (nd\<lparr>nd_gossip := g\<rparr>)" using node_ok_gossip[OF assms g] .
    then have "outcome_ok (ne_env NE) A nd False (Ok (), nd\<lparr>nd_gossip := g\<rparr>)"
      and "outcome_ok (ne_env NE) A nd False (broadcast NE (cx_draws cx 0) (nd\<lparr>nd_gossip := g\<rparr>) pkt None)"
      by (simp add: outcome_ok_def, intro outcome_broadcast) simp_all
    with None msg g show ?thesis by (simp add: handleWitnessSig_def Let_def)
  next
    case (Some m)
    with assms msg show ?thesis
      by (auto simp: handleWitnessSig_def Let_def outcome_ok_def no_edges_def)
  qed
qed

lemma handlePacket_outcome:
  assumes "node_ok (ne_env NE) A nd" and "nd_heap nd i \<noteq> None"
  shows "outcome_ok (ne_env NE) A nd
    ((pk_Type pkt = PacketTxVerify \<and>
        (\<exists>msg. unmarshal (ne_txVerify NE) (pk_Payload pkt) = Inr msg \<and> tv_Tx msg = None)) \<or>
     (pk_Type pkt = PacketTxConfirmed \<and>
        (\<exists>msg. unmarshal (ne_confirmed NE) (pk_Payload pkt) = Inr msg \<and> cm_Tx msg = None)))
    (handlePacket NE cx nd i pkt)"
proof -
  have weaken: "outcome_ok E A nd p out \<Longrightarrow> (p \<Longrightarrow> q) \<Longrightarrow> outcome_ok E A nd q out"
    for E p q and out :: "unit result \<times> 'a node"
    by (auto simp: outcome_ok_def)
  have ping: "outcome_ok (ne_env NE) A nd False (sendToPeer NE nd i p)" for p
    using sendToPeer_sent[of nd i NE p] assms
    by (auto simp: outcome_ok_def sent_no_edges node_ok_def peers_ok_def
        dest: sent_node_ok[unfolded node_ok_def peers_ok_def])
  consider "pk_Type pkt = PacketTxVerify" | "pk_Type pkt = PacketTxConfirmed"
    | "pk_Type pkt \<noteq> PacketTxVerify \<and> pk_Type pkt \<noteq> PacketTxConfirmed" by blast
  then show ?thesis
  proof cases
    case 1
    then have "handlePacket NE cx nd i pkt = handleTxVerify NE cx nd pkt"
      by (simp add: handlePacket_def PacketTxVerify_def PacketNonceLock_def)
    with weaken[OF handleTxVerify_ok[OF assms(1), of pkt cx]] 1 show ?thesis by auto
  next
    case 2
    then have "handlePacket NE cx nd i pkt = handleTxConfirmed NE cx nd pkt"
      by (simp add: handlePacket_def PacketTxVerify_def PacketNonceLock_def PacketTxConfirmed_def
          PacketTxWitnessSig_def)
    with weaken[OF handleTxConfirmed_ok[OF assms(1), of pkt cx]] 2 show ?thesis by auto
  next
    case 3
    then have "outcome_ok (ne_env NE) A nd False (handlePacket NE cx nd i pkt)"
      unfolding handlePacket_def
      by (simp only: if_False if_split)
        (intro conjI impI handleNonceLock_ok[OF assms(1)] handleWitnessSig_ok[OF assms(1)] ping
          outcome_return[OF assms(1)])
    then show ?thesis by (rule weaken) simp
  qed
qed

lemma confirmTx_ok:
  assumes "node_ok (ne_env NE) A nd" and "no_edges nd0 \<Longrightarrow> no_edges nd \<and> tx_ParentHashes tx = []"
  shows "outcome_ok (ne_env NE) A nd0 False (confirmTx NE cx nd tx sigs)"
proof -
  let ?E = "ne_env NE" and ?tx = "tx\<lparr>tx_WitnessSigs := sigs\<rparr>"
  let ?c = "ConfirmTx ?E (nd_tp nd) (cx_now cx) ?tx"
  define jobs where "jobs = nd_snapJobs nd @ (case cr_go ?c of None \<Rightarrow> [] | Some j \<Rightarrow> [j])"
  let ?nd1 = "nd\<lparr>nd_tp := cr_tp ?c, nd_snapJobs := jobs\<rparr>"
  have st: "store_ok ?E A (nd_db nd)" using assms(1) by (simp add: node_ok_def core_ok_def)
  note co = ConfirmTx_outcome[OF st, of "cx_now cx" ?tx]
  have ok1: "node_ok ?E A ?nd1" using node_ok_tp[OF assms(1) co(3)] by simp
  have ne1: "no_edges ?nd1" if "no_edges nd0"
    using assms(2)[OF that] ConfirmTx_no_parents[of ?tx ?E "nd_tp nd" "cx_now cx"] by simp
  have ret: "outcome_ok ?E A nd0 False (Ok (), nd)" "outcome_ok ?E A nd0 False (Ok (), ?nd1)"
    using assms ok1 ne1 by (simp_all add: outcome_ok_def)
  note br = outcome_broadcast[OF ok1 ne1, of nd0 False NE "cx_draws cx 0" _ None]
  show ?thesis
    unfolding confirmTx_def Let_def jobs_def[symmetric]
    by (auto split: outcome.split option.split intro: ret br simp: co)
qed

text \<open>\<^verbatim>\<open>rand.Read\<close> fills its buffer or reports an error.\<close>

definition nonce_draw :: "error + bytes \<Rightarrow> bool" where
  "nonce_draw rnd \<longleftrightarrow> (\<forall>b. rnd = Inr b \<longrightarrow> length b = 8)"

lemma SignTx_no_panic:
  assumes "length (kp_private kp) = PrivateKeySize"
  shows "SignTx C kp tx \<noteq> Panic" "SignTx C kp tx \<noteq> Blocked"
  using assms by (simp_all add: SignTx_def Sign_def Let_def)

lemma BuildTx_outcome:
  assumes "store_ok E A (tp_db tp)" and "length (kp_private kp) = PrivateKeySize" and "nonce_draw rnd"
  shows "BuildTx E tp now rnd kp to amt \<noteq> Panic" "BuildTx E tp now rnd kp to amt \<noteq> Blocked"
proof -
  have seq: "GetLatestSeq (en_badger E) (tp_db tp) now pk \<noteq> Panic"
    "GetLatestSeq (en_badger E) (tp_db tp) now pk \<noteq> Blocked" for pk
    using chain.get_seq_no_panic[OF assms(1)] by blast+
  have bal: "GetBalance (en_badger E) (tp_db tp) now pk \<noteq> Panic"
    "GetBalance (en_badger E) (tp_db tp) now pk \<noteq> Blocked" for pk
    using chain.get_bal_no_panic[OF assms(1)] by blast+
  have me: "mapErr g r = Blocked \<longleftrightarrow> r = Blocked" for g :: "error \<Rightarrow> error" and r :: "u64 result"
    by (cases r) auto
  note rules = seq bal me SignTx_no_panic[OF assms(2)] bindO_Panic_iff bindO_Blocked_iff
  show "BuildTx E tp now rnd kp to amt \<noteq> Panic"
    using assms(3) by (cases rnd) (auto simp: BuildTx_def rules nonce_draw_def Uint64_def split: option.splits)
  show "BuildTx E tp now rnd kp to amt \<noteq> Blocked"
    using assms(3) by (cases rnd) (auto simp: BuildTx_def rules nonce_draw_def Uint64_def split: option.splits)
qed

lemma BuildTx_parents:
  "BuildTx E tp now rnd kp to amt = Ok tx \<Longrightarrow> tx_ParentHashes tx = CurrentTips (tp_dag tp)"
  by (cases rnd) (auto simp: BuildTx_def bindO_eq_Ok SignTx_Ok split: option.splits if_splits)

lemma andThen_broadcast:
  assumes "node_ok E A nd" and "no_edges nd0 \<Longrightarrow> no_edges nd"
    and "\<And>nd'. node_ok E A nd' \<Longrightarrow> sent nd nd' \<Longrightarrow> (no_edges nd0 \<Longrightarrow> no_edges nd') \<Longrightarrow>
      outcome_ok E A nd0 null (f nd')"
  shows "outcome_ok E A nd0 null (andThen (broadcast NE draws nd pkt ex) f)"
proof -
  obtain nd' where "broadcast NE draws nd pkt ex = (Ok (), nd')" "node_ok E A nd'" "sent nd nd'"
    using broadcast_done[OF assms(1)] by metis
  with assms(2,3) show ?thesis by (simp add: andThen_def sent_no_edges)
qed

lemma SendTx_ok:
  assumes "node_ok (ne_env NE) A nd" and "nonce_draw rnd"
  shows "outcome_ok (ne_env NE) A nd False (SendTx NE cx rnd nd to amt)"
proof -
  let ?E = "ne_env NE" and ?now = "cx_now cx"
  have st: "store_ok ?E A (nd_db nd)" and kp: "length (kp_private (nd_kp nd)) = PrivateKeySize"
    using assms(1) by (simp_all add: node_ok_def core_ok_def)
  note b = BuildTx_outcome[OF st kp assms(2), of ?now to amt]
  show ?thesis
  proof (cases "BuildTx ?E (nd_tp nd) ?now rnd (nd_kp nd) to amt")
    case (Err e)
    with assms(1) show ?thesis by (simp add: SendTx_def Let_def outcome_ok_def)
  next
    case (Ok tx)
    obtain e db' where l: "AcquireNonceLock ?E (nd_db nd) ?now tx = (e, db')" by fastforce
    have db': "store_ok ?E A db'"
      using Lock_ledger(2)[of "en_badger ?E" A "nd_db nd" ?now "tx_From tx" "tx_Nonce tx" e db'] l st
      by (simp add: AcquireNonceLock_def)
    let ?m = "\<lparr>pm_tx = tx, pm_sigs = [], pm_confirmed = False\<rparr>"
    let ?nd1 = "(set_db db' nd)\<lparr>nd_pending := (nd_pending nd)(tx_Hash tx \<mapsto> ?m)\<rparr>"
    have ok1: "node_ok ?E A ?nd1" "node_ok ?E A (set_db db' nd)"
      using node_ok_db[OF assms(1) db'] by simp_all
    have ne1: "no_edges ?nd1" if "no_edges nd"
      using that BuildTx_parents[OF Ok] by (simp add: no_edges_def CurrentTips_empty)
    show ?thesis
    proof (cases e)
      case None
      have snap: "value_or_zero r \<noteq> Panic" "value_or_zero r \<noteq> Blocked" if "r \<noteq> Panic \<and> r \<noteq> Blocked" for r
        using that by (auto simp: value_or_zero_def split: outcome.splits)
      have rd: "bindO (value_or_zero (GetBalance (en_badger ?E) (nd_db nd2) ?now me)) (\<lambda>bal.
          bindO (value_or_zero (GetLatestSeq (en_badger ?E) (nd_db nd2) ?now me)) (\<lambda>seq. Ok (g bal seq)))
          \<noteq> Panic \<and>
          bindO (value_or_zero (GetBalance (en_badger ?E) (nd_db nd2) ?now me)) (\<lambda>bal.
          bindO (value_or_zero (GetLatestSeq (en_badger ?E) (nd_db nd2) ?now me)) (\<lambda>seq. Ok (g bal seq)))
          \<noteq> Blocked" if "node_ok ?E A nd2" for nd2 me and g :: "u64 \<Rightarrow> u64 \<Rightarrow> snapshot"
      proof -
        have "store_ok ?E A (nd_db nd2)" using that by (simp add: node_ok_def core_ok_def)
        from snap[OF chain.get_bal_no_panic[OF this]] snap[OF chain.get_seq_no_panic[OF this]]
        show ?thesis by (auto simp: bindO_Panic_iff bindO_Blocked_iff)
      qed
      show ?thesis
        unfolding SendTx_def Let_def Ok outcome.case l None prod.case option.case
        apply (rule andThen_broadcast[OF ok1(1) ne1], assumption)
        subgoal premises prems for nd2
        proof -
          have ret: "outcome_ok ?E A nd False (r, nd2)" if "r \<noteq> Panic" "r \<noteq> Blocked" for r
            using prems that by (simp add: outcome_ok_def)
          have last: "outcome_ok ?E A nd False
              (andThen (broadcast NE draws nd2 pkt None) (\<lambda>nd3. (Ok tx, nd3)))" for draws pkt
            by (rule andThen_broadcast[OF prems(1,3)]) (simp_all add: outcome_ok_def)
          show ?thesis
            using rd[OF prems(1)] by (auto split: outcome.split intro: ret last)
        qed
        done
    next
      case (Some err)
      with Ok l ok1(2) show ?thesis by (simp add: SendTx_def Let_def outcome_ok_def)
    qed
  qed (use b in simp_all)
qed

section \<open>Peers coming and going\<close>

lemma ClosePeer_cases:
  assumes "heap_wf (nd_heap nd)" and "nd_heap nd i = Some p"
  shows "ClosePeer nd i locked =
    (if pe_state p = PeerClosed then (Ok (), nd\<lparr>nd_heap := (nd_heap nd)(i \<mapsto> p)\<rparr>)
     else let nd' = nd\<lparr>nd_heap := (nd_heap nd)(i \<mapsto> snd (Close p))\<rparr> in
          if locked then (Blocked, nd') else (Ok (), removePeer nd' (pe_PubKey p)))"
  using assms Close_wf[of p] by (simp add: ClosePeer_def Let_def heap_wf_def)

lemma distinct_delete: "distinct (map fst al) \<Longrightarrow> distinct (map fst (AList.delete k al))"
  by (induction al) (auto simp: AList.delete_eq)

lemma set_AList_delete: "set (AList.delete k al) = {p \<in> set al. fst p \<noteq> k}"
  by (auto simp: AList.delete_eq)

text \<open>Closing a peer and taking its key out of the table keeps the table live, also when the table has
  another peer under that key.\<close>

lemma peers_ok_closed:
  assumes "peers_ok nd" and "nd_heap nd i = Some p" and "peer_wf p'" and "pe_PubKey p' = pe_PubKey p"
  shows "peers_ok (removePeer (nd\<lparr>nd_heap := (nd_heap nd)(i \<mapsto> p')\<rparr>) (pe_PubKey p))"
proof -
  have "\<exists>q. ((nd_heap nd)(i \<mapsto> p')) j = Some q \<and> pe_PubKey q = k \<and> pe_state q = PeerActive"
    if "(k, j) \<in> set (nd_peers nd)" and "k \<noteq> pe_PubKey p" for k j
    using assms(1,2) that by (cases "j = i") (force simp: peers_ok_def)+
  moreover have "heap_wf ((nd_heap nd)(i \<mapsto> p'))" "\<forall>j \<ge> nd_next nd. ((nd_heap nd)(i \<mapsto> p')) j = None"
    using assms by (auto simp: peers_ok_def heap_wf_def)
  moreover have "length (AList.delete (pe_PubKey p) (nd_peers nd)) \<le> MaxPeers"
    using assms(1) length_delete_le[of "pe_PubKey p" "nd_peers nd"] by (simp add: peers_ok_def)
  ultimately show ?thesis
    using assms(1) unfolding peers_ok_def removePeer_def
    by (simp add: distinct_delete set_AList_delete split_beta del: fun_upd_apply)
qed

lemma ClosePeer_unlocked:
  assumes "node_ok E A nd" and "nd_heap nd i = Some p"
  shows "outcome_ok E A nd False (ClosePeer nd i False) \<and> fst (ClosePeer nd i False) = Ok ()"
proof -
  from assms have wf: "heap_wf (nd_heap nd)" "peer_wf p" and pk: "peers_ok nd" "core_ok E A nd"
    by (auto simp: node_ok_def peers_ok_def heap_wf_def)
  have p': "peer_wf (snd (Close p))" "pe_PubKey (snd (Close p)) = pe_PubKey p"
    using wf(2) peer_wf_Close[of p] by (simp_all add: Close_wf)
  let ?nd1 = "nd\<lparr>nd_heap := (nd_heap nd)(i \<mapsto> snd (Close p))\<rparr>"
  have 1: "peers_ok (removePeer ?nd1 (pe_PubKey p))"
    by (rule peers_ok_closed[OF pk(1) assms(2) p'])
  have h: "(nd_heap nd)(i \<mapsto> p) = nd_heap nd" using assms(2) by auto
  have "outcome_ok E A nd False (Ok (), removePeer ?nd1 (pe_PubKey p))"
    "outcome_ok E A nd False (Ok (), nd\<lparr>nd_heap := (nd_heap nd)(i \<mapsto> p)\<rparr>)"
    using 1 assms(1) pk(2) unfolding h
    by (simp_all add: outcome_ok_def node_ok_def core_ok_def no_edges_def removePeer_def)
  then show ?thesis using ClosePeer_cases[OF wf(1) assms(2), of False] by (simp add: Let_def)
qed

lemma distinct_update: "distinct (map fst al) \<Longrightarrow> distinct (map fst (AList.update k v al))"
  by (rule AList.distinct_update)

lemma length_AList_update: "length (AList.update k v al) \<le> Suc (length al)"
  by (induction al) auto

lemma join_ok:
  assumes "node_ok E A nd" and "length (nd_peers nd) < MaxPeers" and "allocPeer nd pk addr = (i, nd1)"
  shows "\<exists>nd2. addPeer nd1 i = (Ok (), nd2) \<and> node_ok E A nd2 \<and> (no_edges nd \<longrightarrow> no_edges nd2)
    \<and> map_of (nd_peers nd2) pk = Some i \<and> nd_heap nd2 i = Some (NewPeer pk addr)"
proof -
  let ?h = "(nd_heap nd)(nd_next nd \<mapsto> NewPeer pk addr)"
  let ?nd2 = "nd\<lparr>nd_heap := ?h, nd_next := nd_next nd + 1,
      nd_peers := AList.update pk (nd_next nd) (nd_peers nd)\<rparr>"
  from assms(1) have pk: "peers_ok nd" and core: "core_ok E A nd" by (simp_all add: node_ok_def)
  have add: "addPeer nd1 i = (Ok (), ?nd2)" and i: "i = nd_next nd"
    using assms(2,3) by (auto simp: allocPeer_def addPeer_def NewPeer_def)
  have "heap_wf ?h" using pk by (auto simp: peers_ok_def heap_wf_def)
  moreover have table: "\<exists>p. ?h j = Some p \<and> pe_PubKey p = k \<and> pe_state p = PeerActive"
    if "(k, j) \<in> set (AList.update pk (nd_next nd) (nd_peers nd))" for k j
  proof (cases "k = pk \<and> j = nd_next nd")
    case True
    then show ?thesis by (simp add: NewPeer_def)
  next
    case False
    have "map_of (AList.update pk (nd_next nd) (nd_peers nd)) k = Some j"
      using that pk by (intro map_of_is_SomeI distinct_update) (auto simp: peers_ok_def)
    with False have "(k, j) \<in> set (nd_peers nd)"
      by (auto simp: update_conv' dest!: map_of_SomeD split: if_splits)
    with pk obtain p where "nd_heap nd j = Some p" "pe_PubKey p = k" "pe_state p = PeerActive"
      by (auto simp: peers_ok_def)
    moreover from this pk have "j \<noteq> nd_next nd" by (auto simp: peers_ok_def)
    ultimately show ?thesis by simp
  qed
  moreover have "length (AList.update pk (nd_next nd) (nd_peers nd)) \<le> MaxPeers"
    using length_AList_update[of pk "nd_next nd" "nd_peers nd"] assms(2) by linarith
  moreover have "\<forall>(k, j) \<in> set (AList.update pk (nd_next nd) (nd_peers nd)).
      \<exists>p. ?h j = Some p \<and> pe_PubKey p = k \<and> pe_state p = PeerActive"
    using table by blast
  moreover have "\<forall>j \<ge> nd_next nd + 1. ?h j = None"
    using pk by (auto simp: peers_ok_def)
  ultimately have "peers_ok ?nd2"
    using pk unfolding peers_ok_def by (simp add: distinct_update del: fun_upd_apply)
  with core add i show ?thesis
    by (auto simp: node_ok_def core_ok_def no_edges_def update_conv')
qed

end
