(* ===== verification/NodeProps.thy ===== *)
theory NodeProps
  imports NodeRun
begin

text \<open>
  The node as a machine whose steps are whole calls, its invariants over every run, and what its
  handlers do to the ledger, the peers and the payments under way.
\<close>

section \<open>Runs of a node\<close>

datatype node_event =
    Receive step_ctx peer_id packet
  | Pay step_ctx "error + bytes" pubkey amount
  | Confirm step_ctx transaction "witness_signature list"
  | Snap gtime
  | Join pubkey string
  | Leave peer_id
  | Pump peer_id "bytes option"
  | Sweep gtime

text \<open>
  The calls that return: a packet is handled, a payment sent, a spawned confirmation or snapshot
  run, a peer added after its handshake or closed by its own goroutines, one round of a peer's write
  pump with what it wrote (the round that ends the pump closes the peer), the cache swept. Calls on
  different goroutines are taken one after the other.
\<close>

inductive node_step :: "('db, 'txn) net_env \<Rightarrow> 'db node \<Rightarrow> node_event \<Rightarrow> 'db node \<Rightarrow> bool"
  for NE :: "('db, 'txn) net_env" where
  receive: "nd_heap nd i \<noteq> None \<Longrightarrow> handlePacket NE cx nd i pkt = (Ok (), nd') \<Longrightarrow>
    node_step NE nd (Receive cx i pkt) nd'"
| pay: "nonce_draw rnd \<Longrightarrow> SendTx NE cx rnd nd to amt = (r, nd') \<Longrightarrow>
    node_step NE nd (Pay cx rnd to amt) nd'"
| confirm: "nd_spawned nd = xs @ (tx, sigs) # ys \<Longrightarrow>
    confirmTx NE cx (nd\<lparr>nd_spawned := xs @ ys\<rparr>) tx sigs = (Ok (), nd') \<Longrightarrow>
    node_step NE nd (Confirm cx tx sigs) nd'"
| snap: "nd_snapJobs nd = xs @ j # ys \<Longrightarrow>
    node_step NE nd (Snap now)
      (nd\<lparr>nd_snapJobs := xs @ ys, nd_tp := autoSnapshot (ne_env NE) (nd_tp nd) now j\<rparr>)"
| join: "allocPeer nd pk addr = (i, nd1) \<Longrightarrow> addPeer nd1 i = (Ok (), nd') \<Longrightarrow>
    node_step NE nd (Join pk addr) nd'"
| leave: "nd_heap nd i \<noteq> None \<Longrightarrow> ClosePeer nd i False = (Ok (), nd') \<Longrightarrow>
    node_step NE nd (Leave i) nd'"
| pump: "nd_heap nd i = Some p \<Longrightarrow> PumpStep p ok = Some (out, True, p') \<Longrightarrow>
    node_step NE nd (Pump i out) (nd\<lparr>nd_heap := (nd_heap nd)(i \<mapsto> p')\<rparr>)"
| pump_ends: "nd_heap nd i = Some p \<Longrightarrow> PumpStep p ok = Some (out, False, p') \<Longrightarrow>
    ClosePeer (nd\<lparr>nd_heap := (nd_heap nd)(i \<mapsto> p')\<rparr>) i False = (Ok (), nd') \<Longrightarrow>
    node_step NE nd (Pump i out) nd'"
| sweep: "node_step NE nd (Sweep now) (nd\<lparr>nd_gossip := cleanup (nd_gossip nd) now\<rparr>)"

inductive_cases node_stepE: "node_step NE nd e nd'"

definition fresh_node :: "('db, 'txn) net_env \<Rightarrow> ('db, 'txn) badger_abs \<Rightarrow> 'db node \<Rightarrow> bool" where
  "fresh_node NE A nd \<longleftrightarrow>
     (\<exists>kp db. nd = NewNode kp db \<and> store_ok (ne_env NE) A db
        \<and> length (kp_private kp) = PrivateKeySize)"

definition node_inv :: "('db, 'txn) net_env \<Rightarrow> ('db, 'txn) badger_abs \<Rightarrow> 'db node \<Rightarrow> bool" where
  "node_inv NE A nd \<longleftrightarrow> node_ok (ne_env NE) A nd \<and> no_edges nd"

lemma node_inv_New: "fresh_node NE A nd \<Longrightarrow> node_inv NE A nd"
  by (auto simp: fresh_node_def node_inv_def node_ok_def core_ok_def peers_ok_def heap_wf_def
      no_edges_def NewNode_def NewDAGManager_def hops_ok_New)

lemma outcome_inv:
  "node_inv NE A nd \<Longrightarrow> outcome_ok (ne_env NE) A nd null (r, nd') \<Longrightarrow> node_inv NE A nd'"
  by (simp add: outcome_ok_def node_inv_def)

lemma addPeer_full:
  assumes "node_ok E A nd" and "length (nd_peers nd) \<ge> MaxPeers" and "allocPeer nd pk addr = (i, nd1)"
  shows "fst (addPeer nd1 i) = Blocked"
  using assms(2,3)
  by (auto simp: allocPeer_def addPeer_def ClosePeer_def Close_def Close_mark_def Close_finish_def
      NewPeer_def)

lemma autoSnapshot_ok:
  assumes "store_ok E A (tp_db tp)"
  shows "store_ok E A (tp_db (autoSnapshot E tp now j)) \<and> tp_dag (autoSnapshot E tp now j) = tp_dag tp
    \<and> led A (tp_db (autoSnapshot E tp now j)) = led A (tp_db tp)"
proof -
  obtain pk bal seq where j: "j = (pk, bal, seq)" by (cases j) auto
  let ?s = "\<lparr>sn_PubKey = pk, sn_Sequence = seq, sn_Balance = bal, sn_DAGTips = CurrentTips (tp_dag tp),
     sn_CreatedAt = now, sn_ExpiresAt = now + snapshotTTL\<rparr>"
  obtain e db' where "SaveSnapshot (en_badger E) (en_snap E) (tp_db tp) now ?s = (e, db')" by fastforce
  with SaveSnapshot_ledger[of "en_badger E" A "en_snap E" "tp_db tp" now ?s e db'] assms j
  show ?thesis by (simp add: autoSnapshot_def Let_def)
qed

text \<open>A round of the write pump takes from the channel and leaves the rest of the peer alone.\<close>

lemma PumpStep_same:
  "PumpStep p ok = Some (out, go, p') \<Longrightarrow> same_peer p p'"
  by (auto simp: PumpStep_def same_peer_def peer_wf_def split: list.splits if_splits)

lemma node_inv_pumped:
  assumes "node_inv NE A nd" and "nd_heap nd i = Some p" and "PumpStep p ok = Some (out, go, p')"
  shows "node_inv NE A (nd\<lparr>nd_heap := (nd_heap nd)(i \<mapsto> p')\<rparr>)"
proof -
  have "same_heap (nd_heap nd) ((nd_heap nd)(i \<mapsto> p'))"
    using assms(2) PumpStep_same[OF assms(3)] by (auto simp: same_heap_def option.rel_refl)
  then have "sent nd (nd\<lparr>nd_heap := (nd_heap nd)(i \<mapsto> p')\<rparr>)" unfolding sent_def by blast
  with assms(1) show ?thesis by (auto simp: node_inv_def sent_node_ok sent_no_edges)
qed

lemma node_inv_left:
  assumes "node_inv NE A nd" and "nd_heap nd i = Some p" and "ClosePeer nd i False = (Ok (), nd')"
  shows "node_inv NE A nd'"
  using ClosePeer_unlocked[of "ne_env NE" A nd i p] assms
  by (intro outcome_inv[OF assms(1)]) (auto simp: node_inv_def)

lemma node_inv_step:
  assumes "node_inv NE A nd" and "node_step NE nd e nd'"
  shows "node_inv NE A nd'"
  using assms(2)
proof (cases rule: node_step.cases)
  case (receive i cx pkt)
  with handlePacket_outcome[of NE A nd i pkt cx] assms(1) show ?thesis
    by (intro outcome_inv[OF assms(1)]) (auto simp: node_inv_def)
next
  case (pay rnd cx to amt r)
  with SendTx_ok[of NE A nd rnd cx to amt] assms(1) show ?thesis
    by (intro outcome_inv[OF assms(1)]) (auto simp: node_inv_def)
next
  case (confirm xs tx sigs ys cx)
  let ?nd = "nd\<lparr>nd_spawned := xs @ ys\<rparr>"
  have "node_ok (ne_env NE) A ?nd" using assms(1) by (simp add: node_inv_def)
  moreover have "no_edges ?nd \<and> tx_ParentHashes tx = []"
    using assms(1) confirm(2) by (auto simp: node_inv_def no_edges_def)
  ultimately have "outcome_ok (ne_env NE) A nd False (confirmTx NE cx ?nd tx sigs)"
    by (intro confirmTx_ok) simp_all
  with confirm(3) show ?thesis by (intro outcome_inv[OF assms(1)]) simp
next
  case (snap xs j ys now)
  have "store_ok (ne_env NE) A (nd_db nd)"
    using assms(1) by (simp add: node_inv_def node_ok_def core_ok_def)
  from autoSnapshot_ok[OF this, of now j] assms(1) snap show ?thesis
    by (simp add: node_inv_def node_ok_def core_ok_def peers_ok_def no_edges_def)
next
  case (join pk addr i nd1)
  then have "length (nd_peers nd) < MaxPeers"
    using addPeer_full[of "ne_env NE" A nd pk addr i nd1] assms(1)
    by (force simp: node_inv_def not_less)
  with join_ok[of "ne_env NE" A nd pk addr i nd1] join assms(1) show ?thesis
    by (auto simp: node_inv_def)
next
  case (leave i)
  with node_inv_left[OF assms(1)] show ?thesis by auto
next
  case (pump i p ok out p')
  with node_inv_pumped[OF assms(1)] show ?thesis by simp
next
  case (pump_ends i p ok out p')
  then have "node_inv NE A (nd\<lparr>nd_heap := (nd_heap nd)(i \<mapsto> p')\<rparr>)"
    by (intro node_inv_pumped[OF assms(1)])
  from node_inv_left[OF this _ pump_ends(4)] show ?thesis by simp
next
  case (sweep now)
  with assms(1) hops_ok_step[of "nd_gossip nd" "Tick now"] show ?thesis
    by (simp add: node_inv_def node_ok_def core_ok_def peers_ok_def no_edges_def)
qed

interpretation nodes: machine "fresh_node NE A" "node_step NE" "node_inv NE A" for NE A
  by unfold_locales (auto intro: node_inv_New node_inv_step)

section \<open>The graph\<close>

text \<open>C27. The graph of transactions never gets an edge: in every run of a node from its start, whatever
  packets come and payments go, the edge map is empty. A payment's parents are the current tips,
  of which an empty graph has none, and a confirmation adds edges for parents only; so no tip is
  ever recorded and every witness signs over the zero tip.\<close>

theorem dag_stays_empty:
  assumes "fresh_node NE A nd0" and "runs (node_step NE) nd0 es nd"
  shows "dm_edges (tp_dag (nd_tp nd)) = [] \<and> CurrentTips (tp_dag (nd_tp nd)) = []
    \<and> Depth (tp_dag (nd_tp nd)) = 0"
  using nodes.inv_reachable[OF assms]
  by (simp add: node_inv_def no_edges_def CurrentTips_empty Depth_def)

section \<open>Panics\<close>


text \<open>C35. Any peer can take a node down with one packet: a confirmation whose transaction is null, new
  to the cache, makes the handler dereference nil, and the panic ends the process.\<close>

theorem null_confirmation_panics:
  assumes "pk_Type pkt = PacketTxConfirmed" and "nd_gossip nd (pk_MsgID pkt) = None"
    and "unmarshal (ne_confirmed NE) (pk_Payload pkt) = Inr msg" and "cm_Tx msg = None"
  shows "fst (handlePacket NE cx nd i pkt) = Panic"
  using assms
  by (simp add: handlePacket_def handleTxConfirmed_def ShouldForward_def ApplyConfirmedTxBalance_def
      PacketTxConfirmed_def PacketNonceLock_def PacketTxVerify_def PacketTxWitnessSig_def Let_def)

section \<open>Peers\<close>

text \<open>C33. The connection that is one too many hangs the node: with \<open>MaxPeers\<close> peers in the table,
  \<open>addPeer\<close> closes the newcomer while it holds the node's lock, the close calls \<open>removePeer\<close>, and
  that waits for the same lock for ever.\<close>

theorem addPeer_full_hangs:
  assumes "fresh_node NE A nd0" and "runs (node_step NE) nd0 es nd" and "PeerCount nd = MaxPeers"
    and "allocPeer nd pk addr = (i, nd1)"
  shows "fst (addPeer nd1 i) = Blocked"
  using nodes.inv_reachable[OF assms(1,2)] assms(3,4) addPeer_full[of "ne_env NE" A nd pk addr i nd1]
  by (simp add: node_inv_def PeerCount_def)

lemma stopLoop_blocks:
  assumes "heap_wf (nd_heap nd)" and "\<forall>i \<in> set is. nd_heap nd i \<noteq> None"
    and "\<exists>i \<in> set is. \<exists>p. nd_heap nd i = Some p \<and> pe_state p \<noteq> PeerClosed"
  shows "fst (stopLoop nd is) = Blocked"
  using assms
proof (induction "is" arbitrary: nd)
  case Nil
  then show ?case by simp
next
  case (Cons i "is")
  from Cons.prems(2) obtain p where p: "nd_heap nd i = Some p" by auto
  note cl = ClosePeer_cases[OF Cons.prems(1) p, of True]
  show ?case
  proof (cases "pe_state p = PeerClosed")
    case False
    with cl show ?thesis by (simp add: andThen_def Let_def)
  next
    case True
    have h: "(nd_heap nd)(i \<mapsto> p) = nd_heap nd" using p by auto
    from True Cons.prems p have "fst (stopLoop (nd\<lparr>nd_heap := nd_heap nd\<rparr>) is) = Blocked"
      by (intro Cons.IH) auto
    with True cl h show ?thesis by (simp add: andThen_def)
  qed
qed

text \<open>\<open>Stop\<close> closes the peers under the read lock: the first one that is not closed yet calls
  \<open>removePeer\<close>, which waits for the write lock for ever. Every peer in the table of a running node is
  one that is not closed.\<close>

lemma Stop_blocks:
  assumes "node_inv NE A nd"
  shows "fst (Stop nd) = (if nd_peers nd = [] then Ok () else Blocked)"
proof (cases "nd_peers nd")
  case Nil
  then show ?thesis by (simp add: Stop_def)
next
  case (Cons e es)
  have "peers_ok nd" using assms by (simp add: node_inv_def node_ok_def)
  moreover from this have "\<exists>p. nd_heap nd (snd e) = Some p \<and> pe_state p \<noteq> PeerClosed"
    using Cons by (cases e) (auto simp: peers_ok_def)
  ultimately have "fst (stopLoop nd (map snd (nd_peers nd))) = Blocked"
    using Cons by (intro stopLoop_blocks) (fastforce simp: peers_ok_def)+
  with Cons show ?thesis by (simp add: Stop_def)
qed

text \<open>A reconnecting peer is lost: when a peer joins again under the same key and its old
  connection then ends, \<open>removePeer\<close> deletes the key, so the node forgets the new connection, which
  is still active.\<close>

theorem stale_close_forgets:
  assumes "node_ok E A nd" and "length (nd_peers nd) + 1 < MaxPeers"
    and "allocPeer nd pk a = (i, nd1)" and "addPeer nd1 i = (Ok (), nd2)"
    and "allocPeer nd2 pk b = (j, nd3)" and "addPeer nd3 j = (Ok (), nd4)"
    and "ClosePeer nd4 i False = (r, nd5)"
  shows "map_of (nd_peers nd4) pk = Some j \<and> map_of (nd_peers nd5) pk = None
    \<and> (\<exists>p. nd_heap nd5 j = Some p \<and> pe_state p = PeerActive)"
proof -
  from join_ok[OF assms(1) _ assms(3)] assms(2,4) have 2: "node_ok E A nd2"
    "nd_heap nd2 i = Some (NewPeer pk a)" by auto
  have i: "i = nd_next nd" "nd_next nd2 = nd_next nd + 1" "length (nd_peers nd2) \<le> length (nd_peers nd) + 1"
    using assms(3,4) length_AList_update[of pk i "nd_peers nd"]
    by (auto simp: allocPeer_def addPeer_def ClosePeer_def Close_def Close_mark_def Close_finish_def
        NewPeer_def Let_def split: if_splits)
  from join_ok[OF 2(1) _ assms(5)] assms(2,6) i(3) have 4: "node_ok E A nd4"
    "nd_heap nd4 j = Some (NewPeer pk b)" "map_of (nd_peers nd4) pk = Some j" by auto
  have "nd_heap nd4 i = Some (NewPeer pk a)" "j \<noteq> i"
    using 2 i assms(5,6)
    by (auto simp: allocPeer_def addPeer_def ClosePeer_def Close_def Close_mark_def Close_finish_def
        NewPeer_def Let_def split: if_splits)
  with ClosePeer_cases[of nd4 i "NewPeer pk a" False] 4 assms(7) show ?thesis
    by (auto simp: node_ok_def peers_ok_def NewPeer_def Let_def removePeer_def delete_conv')
qed

end
