(* ===== verification/Payments.thy ===== *)
theory Payments
  imports NodeProps
begin

text \<open>
  Payments over the node: what starts one, what the witnesses answer, what the quorum guards and
  what can go wrong with it.
\<close>

section \<open>Frames\<close>

lemma sendToPeer_fields [simp]:
  "nd_gossip (snd (sendToPeer NE nd i pkt)) = nd_gossip nd"
  "nd_tp (snd (sendToPeer NE nd i pkt)) = nd_tp nd"
  "nd_pending (snd (sendToPeer NE nd i pkt)) = nd_pending nd"
  by (auto simp: sendToPeer_def Let_def split: option.split prod.split outcome.split)

lemma sendAll_fields [simp]:
  "nd_gossip (snd (sendAll NE nd is pkt)) = nd_gossip nd"
  "nd_tp (snd (sendAll NE nd is pkt)) = nd_tp nd"
  "nd_pending (snd (sendAll NE nd is pkt)) = nd_pending nd"
  by (induction "is" arbitrary: nd) (auto simp: andThen_def split: outcome.split)

lemma broadcast_fields [simp]:
  "nd_gossip (snd (broadcast NE draws nd pkt ex)) = nd_gossip nd"
  "nd_tp (snd (broadcast NE draws nd pkt ex)) = nd_tp nd"
  "nd_pending (snd (broadcast NE draws nd pkt ex)) = nd_pending nd"
  by (simp_all add: broadcast_def)

section \<open>The quorum\<close>

lemma confirmTx_quorum_guard:
  assumes "\<forall>S. GetActiveSet (en_badger (ne_env NE)) (en_wits (ne_env NE)) (nd_db nd) (cx_now cx) = Ok S \<longrightarrow>
      card (good_witnesses (en_crypto (ne_env NE)) sigs (tx_Hash tx) S) < 3"
  shows "confirmTx NE cx nd tx sigs = (Ok (), nd)"
proof -
  let ?G = "GetActiveSet (en_badger (ne_env NE)) (en_wits (ne_env NE)) (nd_db nd) (cx_now cx)"
  have "VerifyQuorum (en_crypto (ne_env NE)) sigs (tx_Hash tx) S (int quorumK) \<noteq> None"
    if "?G = Ok S" for S
    using assms that by (simp add: VerifyQuorum_None_iff quorumK_def not_le)
  then show ?thesis
    by (auto simp: confirmTx_def Let_def split: outcome.split option.split)
qed

text \<open>Nothing is confirmed without a quorum: when fewer than three different active witnesses gave
  a valid signature with the lock seen, or the active set cannot be read, \<open>confirmTx\<close> changes
  nothing of the node.\<close>

theorem confirmTx_needs_quorum:
  assumes "\<forall>S. GetActiveSet (en_badger (ne_env NE)) (en_wits (ne_env NE)) (nd_db nd) (cx_now cx) = Ok S \<longrightarrow>
      card (good_witnesses (en_crypto (ne_env NE)) sigs (tx_Hash tx) S) < 3"
  shows "confirmTx NE cx nd tx sigs = (Ok (), nd)"
  by (rule confirmTx_quorum_guard[OF assms])

lemma confirmTx_transfer:
  assumes "node_ok (ne_env NE) A nd"
    and "GetActiveSet (en_badger (ne_env NE)) (en_wits (ne_env NE)) (nd_db nd) (cx_now cx) = Ok S"
    and "3 \<le> card (good_witnesses (en_crypto (ne_env NE)) sigs (tx_Hash tx) S)"
    and "cr_out (ConfirmTx (ne_env NE) (nd_tp nd) (cx_now cx) (tx\<lparr>tx_WitnessSigs := sigs\<rparr>)) = Ok ()"
    and "tx_From tx \<noteq> tx_To tx"
    and "is_ok (GetBalance (en_badger (ne_env NE)) (nd_db nd) (cx_now cx) (tx_To tx))"
    and "confirmTx NE cx nd tx sigs = (r, nd')"
  shows "r = Ok ()
    \<and> unat (balance (led A (nd_db nd')) (tx_From tx)) + cost tx
        = unat (balance (led A (nd_db nd)) (tx_From tx))
    \<and> unat (balance (led A (nd_db nd')) (tx_To tx))
        = unat (balance (led A (nd_db nd)) (tx_To tx)) + unat (tx_Amount tx)
    \<and> lg_seq (led A (nd_db nd')) (tx_From tx) = tx_Sequence tx"
proof -
  let ?E = "ne_env NE" and ?tx = "tx\<lparr>tx_WitnessSigs := sigs\<rparr>"
  let ?c = "ConfirmTx ?E (nd_tp nd) (cx_now cx) ?tx"
  have st: "store_ok ?E A (nd_db nd)" using assms(1) by (simp add: node_ok_def core_ok_def)
  have q: "VerifyQuorum (en_crypto ?E) sigs (tx_Hash tx) S (int quorumK) = None"
    using assms(3) by (simp add: VerifyQuorum_None_iff quorumK_def)
  let ?nd1 = "nd\<lparr>nd_tp := cr_tp ?c,
      nd_snapJobs := nd_snapJobs nd @ (case cr_go ?c of None \<Rightarrow> [] | Some j \<Rightarrow> [j])\<rparr>"
  have ok1: "node_ok ?E A ?nd1"
    using node_ok_tp[OF assms(1) ConfirmTx_outcome(3)[OF st, of "cx_now cx" ?tx]] by simp
  let ?pkt = "\<lparr>pk_Type = PacketTxConfirmed, pk_MsgID = tx_Hash tx,
       pk_Payload = marshal_or_nil (ne_confirmed NE) \<lparr>cm_Tx = Some (cr_tx ?c)\<rparr>\<rparr>"
  have eq: "confirmTx NE cx nd tx sigs = broadcast NE (cx_draws cx 0) ?nd1 ?pkt None"
    using assms(2,4) q by (simp add: confirmTx_def Let_def)
  obtain nd2 where "broadcast NE (cx_draws cx 0) ?nd1 ?pkt None = (Ok (), nd2)" and "sent ?nd1 nd2"
    using broadcast_done[OF ok1, of NE "cx_draws cx 0" ?pkt None] by blast
  with eq assms(7) have "nd_tp nd' = cr_tp ?c" and "r = Ok ()" by auto
  then show ?thesis
    using ConfirmTx_effect[OF st refl assms(4)] assms(5,6) by (simp add: Let_def cost_def)
qed


text \<open>C32. Three arbitrary signatures kill a payment: the collector counts what it is sent without
  checking anything, so three packets that name a pending transaction, from whomever and with
  whatever signatures, take it out of the pending table and start its only confirmation with just
  these three; unless they are valid signatures of three active witnesses, that changes nothing,
  and signatures that come later find nothing pending.\<close>

theorem junk_signatures_kill_payment:
  assumes "nd_pending nd h = Some m" and "pm_sigs m = []" and "\<not> pm_confirmed m"
    and "tx_Hash (pm_tx m) = h"
    and "unmarshal (ne_witSig NE) (pk_Payload p1) = Inr \<lparr>wm_TxHash = h, wm_Sig = s1\<rparr>"
    and "unmarshal (ne_witSig NE) (pk_Payload p2) = Inr \<lparr>wm_TxHash = h, wm_Sig = s2\<rparr>"
    and "unmarshal (ne_witSig NE) (pk_Payload p3) = Inr \<lparr>wm_TxHash = h, wm_Sig = s3\<rparr>"
    and "nd3 = foldl (\<lambda>n p. snd (handleWitnessSig NE cx n p)) nd [p1, p2, p3]"
    and "\<forall>S. GetActiveSet (en_badger (ne_env NE)) (en_wits (ne_env NE)) (nd_db nd) (cx_now cx) = Ok S \<longrightarrow>
      card (good_witnesses (en_crypto (ne_env NE)) [s1, s2, s3] h S) < 3"
  shows "nd_pending nd3 h = None \<and> nd_spawned nd3 = nd_spawned nd @ [(pm_tx m, [s1, s2, s3])]
    \<and> confirmTx NE cx nd3 (pm_tx m) [s1, s2, s3] = (Ok (), nd3)"
proof -
  have 3: "nd3 = nd\<lparr>nd_pending := (nd_pending nd)(h := None),
      nd_spawned := nd_spawned nd @ [(pm_tx m, [s1, s2, s3])]\<rparr>"
    using assms(1-3,5-8) by (simp add: handleWitnessSig_def Let_def quorumK_def)
  have "confirmTx NE cx nd3 (pm_tx m) [s1, s2, s3] = (Ok (), nd3)"
    using assms(4,9) 3 by (intro confirmTx_quorum_guard) simp
  with 3 show ?thesis by simp
qed

section \<open>The shared hop count\<close>

lemma handleNonceLock_gossip:
  "nd_gossip (snd (handleNonceLock NE cx nd pkt))
    = snd (ShouldForward (nd_gossip nd) (cx_now cx) (pk_MsgID pkt))"
  by (auto simp: handleNonceLock_def Let_def split: prod.split sum.split)

lemma nonce_locks_count:
  assumes "\<forall>p \<in> set ps. pk_MsgID p = h" and "nd_gossip nd h = None \<and> n = 0 \<or> (\<exists>m. nd_gossip nd h = Some m \<and> gm_hops m = n \<and> 0 < n)"
    and "n + length ps \<le> gossipHops" and "0 < n + length ps"
  shows "\<exists>m. nd_gossip (foldl (\<lambda>x p. snd (handleNonceLock NE cx x p)) nd ps) h = Some m
    \<and> gm_hops m = n + length ps"
  using assms
proof (induction ps arbitrary: nd n)
  case Nil
  then show ?case by auto
next
  case (Cons p ps)
  let ?nd = "snd (handleNonceLock NE cx nd p)"
  have "\<exists>m. nd_gossip ?nd h = Some m \<and> gm_hops m = Suc n"
    using Cons.prems by (auto simp: handleNonceLock_gossip ShouldForward_def)
  from Cons.IH[of ?nd "Suc n"] this Cons.prems show ?case by auto
qed

text \<open>The copies of a lock request can starve the verification request: both carry the
  transaction's hash as message id, so they share one hop count; when a node has handled six
  copies of the lock request, it ignores the verification request and later the confirmation of
  the same transaction.\<close>

theorem nonce_locks_starve:
  assumes "nd_gossip nd h = None" and "length ps = 6" and "\<forall>p \<in> set ps. pk_MsgID p = h"
    and "nd' = foldl (\<lambda>x p. snd (handleNonceLock NE cx x p)) nd ps"
    and "pk_MsgID pkt = h" and "pk_Type pkt \<in> {PacketTxVerify, PacketTxConfirmed, PacketNonceLock}"
  shows "handlePacket NE cx' nd' i pkt = (Ok (), nd')"
proof -
  obtain m where m: "nd_gossip nd' h = Some m" "gm_hops m = 6"
    using nonce_locks_count[of ps h nd 0 NE cx] assms(1-4) by (auto simp: gossipHops_def)
  then have no: "ShouldForward (nd_gossip nd') (cx_now cx') (pk_MsgID pkt) = ((False, 6), nd_gossip nd')"
    using assms(5) by (simp add: ShouldForward_def gossipHops_def)
  have same: "nd'\<lparr>nd_gossip := nd_gossip nd'\<rparr> = nd'" by simp
  have "handleTxVerify NE cx' nd' pkt = (Ok (), nd')" "handleTxConfirmed NE cx' nd' pkt = (Ok (), nd')"
    "handleNonceLock NE cx' nd' pkt = (Ok (), nd')"
    by (simp_all only: handleTxVerify_def handleTxConfirmed_def handleNonceLock_def no prod.case
        Let_def same not_False_eq_True if_True)
  with assms(6) show ?thesis
    unfolding handlePacket_def
    by (auto simp: PacketTxConfirmed_def PacketNonceLock_def PacketTxVerify_def PacketTxWitnessSig_def
        PacketPing_def)
qed

section \<open>Starting a payment\<close>

lemma SendTx_effect:
  assumes "node_ok (ne_env NE) A nd" and "ed25519_ok (en_crypto (ne_env NE))"
    and "kp_wf (en_crypto (ne_env NE)) (nd_kp nd)"
    and "SendTx NE cx rnd nd to amt = (Ok tx, nd')"
  shows "nd_pending nd' (tx_Hash tx) = Some \<lparr>pm_tx = tx, pm_sigs = [], pm_confirmed = False\<rparr>
    \<and> led A (nd_db nd') = led A (nd_db nd)
    \<and> VerifyTx (en_crypto (ne_env NE)) tx = None
    \<and> tx_From tx = kp_Public (nd_kp nd) \<and> tx_To tx = to \<and> tx_Amount tx = amt
    \<and> tx_Sequence tx = lg_seq (led A (nd_db nd)) (kp_Public (nd_kp nd)) + 1
    \<and> cost tx \<le> unat (balance (led A (nd_db nd)) (kp_Public (nd_kp nd)))
    \<and> (\<exists>db'. Lock (en_badger (ne_env NE)) (nd_db nd) (cx_now cx) (tx_From tx) (tx_Nonce tx) = (None, db')
         \<and> nd_db nd' = db')
    \<and> cost tx \<le> unat MaxAmount \<and> tx_ParentHashes tx = CurrentTips (tp_dag (nd_tp nd))"
proof -
  let ?E = "ne_env NE"
  have st: "store_ok ?E A (nd_db nd)" using assms(1) by (simp add: node_ok_def core_ok_def)
  from assms(4) obtain tx0 where b0: "BuildTx ?E (nd_tp nd) (cx_now cx) rnd (nd_kp nd) to amt = Ok tx0"
    by (auto simp: SendTx_def Let_def split: outcome.splits)
  from assms(4) b0 obtain db' where l0: "AcquireNonceLock ?E (nd_db nd) (cx_now cx) tx0 = (None, db')"
    by (auto simp: SendTx_def Let_def split: prod.splits option.splits)
  let ?m = "\<lparr>pm_tx = tx0, pm_sigs = [], pm_confirmed = False\<rparr>"
  let ?nd1 = "(set_db db' nd)\<lparr>nd_pending := (nd_pending nd)(tx_Hash tx0 \<mapsto> ?m)\<rparr>"
  from assms(4) have t: "tx = tx0" "nd_tp nd' = nd_tp ?nd1" "nd_pending nd' = nd_pending ?nd1"
    using broadcast_fields(2,3)[of NE _ _ _ None]
    by (auto simp: SendTx_def Let_def b0 l0 andThen_def bindO_eq_Ok split: outcome.splits)
  from l0 have l: "Lock (en_badger ?E) (nd_db nd) (cx_now cx) (tx_From tx) (tx_Nonce tx) = (None, db')"
    by (simp add: t AcquireNonceLock_def)
  with Lock_ledger(1)[of "en_badger ?E" A "nd_db nd" "cx_now cx" _ _ None db'] st t(2)
  have "led A (nd_db nd') = led A (nd_db nd)" by simp
  with t l BuildTx_guarantees[OF st assms(2,3), of "cx_now cx" rnd to amt tx] b0 show ?thesis by simp
qed

text \<open>A payment that \<open>SendTx\<close> starts is pending and locked: the transaction it returns is in
  sequence, covered and verifiable, the node has it pending with no signature, its nonce lock was
  taken, and no balance, sequence or record changed.\<close>

theorem SendTx_starts:
  assumes "node_ok (ne_env NE) A nd" and "ed25519_ok (en_crypto (ne_env NE))"
    and "kp_wf (en_crypto (ne_env NE)) (nd_kp nd)"
    and "SendTx NE cx rnd nd to amt = (Ok tx, nd')"
  shows "nd_pending nd' (tx_Hash tx) = Some \<lparr>pm_tx = tx, pm_sigs = [], pm_confirmed = False\<rparr>
    \<and> led A (nd_db nd') = led A (nd_db nd)
    \<and> VerifyTx (en_crypto (ne_env NE)) tx = None
    \<and> tx_From tx = kp_Public (nd_kp nd) \<and> tx_To tx = to \<and> tx_Amount tx = amt
    \<and> tx_Sequence tx = lg_seq (led A (nd_db nd)) (kp_Public (nd_kp nd)) + 1
    \<and> cost tx \<le> unat (balance (led A (nd_db nd)) (kp_Public (nd_kp nd)))
    \<and> (\<exists>db'. Lock (en_badger (ne_env NE)) (nd_db nd) (cx_now cx) (tx_From tx) (tx_Nonce tx) = (None, db')
         \<and> nd_db nd' = db')"
  using SendTx_effect[OF assms] by blast

section \<open>Completing a payment\<close>

lemma ConfirmTx_succeeds:
  assumes "store_ok E A (tp_db tp)"
    and "is_ok (GetBalance (en_badger E) (tp_db tp) now (tx_From tx))"
    and "is_ok (GetBalance (en_badger E) (tp_db tp) now (tx_To tx))"
    and "cost tx \<le> unat MaxAmount" and "cost tx \<le> unat (balance (led A (tp_db tp)) (tx_From tx))"
    and "unat (balance (led A (tp_db tp)) (tx_To tx)) + unat (tx_Amount tx) \<le> unat MaxAmount"
    and "tx_ParentHashes tx = []"
    and writes: "\<And>b. cb_Tx b = tx\<lparr>tx_Status := TxConfirmed\<rparr> \<Longrightarrow>
      fst (ConfirmTxBatch (en_badger E) (en_tx E) (tp_db tp) now b) = None"
  shows "cr_out (ConfirmTx E tp now tx) = Ok ()"
proof -
  let ?L = "led A (tp_db tp)" and ?amt = "tx_Amount tx"
  have bal: "GetBalance (en_badger E) (tp_db tp) now (tx_From tx) = Ok (balance ?L (tx_From tx))"
    "GetBalance (en_badger E) (tp_db tp) now (tx_To tx) = Ok (balance ?L (tx_To tx))"
    using assms(2,3) chain.get_bal_Ok[OF assms(1)] by (auto simp: is_ok_iff)
  have total: "SafeAdd ?amt (BondAmount ?amt) = Ok (?amt + BondAmount ?amt)"
    and cost: "unat (?amt + BondAmount ?amt) = cost tx"
    using assms(4) unat_MaxAmount by (simp_all add: SafeAdd_Ok_iff cost_def unat_word_ariths)
  have sub: "SafeSub (balance ?L (tx_From tx)) (?amt + BondAmount ?amt)
      = Ok (balance ?L (tx_From tx) - (?amt + BondAmount ?amt))"
    using assms(5) cost by (simp add: SafeSub_def word_less_nat_alt)
  have recv: "SafeAdd (balance ?L (tx_To tx)) ?amt = Ok (balance ?L (tx_To tx) + ?amt)"
    using assms(6) unat_MaxAmount by (simp add: SafeAdd_Ok_iff unat_word_ariths)
  let ?bals = "(balance ?L (tx_From tx) - (?amt + BondAmount ?amt), balance ?L (tx_To tx) + ?amt)"
  let ?b = "\<lparr>cb_Tx = tx\<lparr>tx_Status := TxConfirmed\<rparr>, cb_SenderBal = fst ?bals, cb_ReceiverBal = snd ?bals\<rparr>"
  have "confirmAmounts E (tp_db tp) now tx = Ok ?bals"
    using bal total sub recv by (simp add: confirmAmounts_def)
  then have c: "ConfirmTx E tp now tx = confirmWrite E tp now tx ?bals" by (simp add: ConfirmTx_def)
  obtain db' where w: "ConfirmTxBatch (en_badger E) (en_tx E) (tp_db tp) now ?b = (None, db')"
    using writes[of ?b] by (cases "ConfirmTxBatch (en_badger E) (en_tx E) (tp_db tp) now ?b") auto
  with chain.confirm_done[OF assms(1)] have "store_ok E A db'" by blast
  from chain.bond_cases[OF this, of now "BondAmount ?amt"] obtain r where
    "AccumulateBond (en_badger E) db' now (BondAmount ?amt) = Ok r" by blast
  with w assms(7) show ?thesis by (cases r) (simp add: c confirmWrite_def Let_def)
qed

text \<open>The three packets that carry signatures for a pending transaction start its confirmation.\<close>

lemma three_signatures:
  assumes "nd_pending nd h = Some \<lparr>pm_tx = tx, pm_sigs = [], pm_confirmed = False\<rparr>"
    and "unmarshal (ne_witSig NE) (pk_Payload p1) = Inr \<lparr>wm_TxHash = h, wm_Sig = s1\<rparr>"
    and "unmarshal (ne_witSig NE) (pk_Payload p2) = Inr \<lparr>wm_TxHash = h, wm_Sig = s2\<rparr>"
    and "unmarshal (ne_witSig NE) (pk_Payload p3) = Inr \<lparr>wm_TxHash = h, wm_Sig = s3\<rparr>"
  shows "foldl (\<lambda>n p. snd (handleWitnessSig NE cx n p)) nd [p1, p2, p3]
    = nd\<lparr>nd_pending := (nd_pending nd)(h := None), nd_spawned := nd_spawned nd @ [(tx, [s1, s2, s3])]\<rparr>"
  using assms by (simp add: handleWitnessSig_def Let_def quorumK_def)

lemma three_good:
  assumes "ed25519_ok C" and "kp_wf C k1" and "kp_wf C k2" and "kp_wf C k3"
    and "SignAsWitness C k1 h t1 True = Ok s1" and "SignAsWitness C k2 h t2 True = Ok s2"
    and "SignAsWitness C k3 h t3 True = Ok s3"
    and "distinct [kp_Public k1, kp_Public k2, kp_Public k3]"
    and "{kp_Public k1, kp_Public k2, kp_Public k3} \<subseteq> S"
  shows "3 \<le> card (good_witnesses C [s1, s2, s3] h S)"
proof -
  have sig: "VerifyWitnessSig C s h = None \<and> ws_WitnessPubKey s = kp_Public k \<and> ws_NonceLockSeen s"
    if "kp_wf C k" "SignAsWitness C k h t True = Ok s" for k t s
    using SignAsWitness_Verify[OF assms(1) that(1), of h t True] that(2) by auto
  have "good_witnesses C [s1, s2, s3] h S = {kp_Public k1, kp_Public k2, kp_Public k3}"
    using sig[OF assms(2,5)] sig[OF assms(3,6)] sig[OF assms(4,7)] assms(9)
    by (auto simp: good_witnesses_def)
  with assms(8) show ?thesis by simp
qed

text \<open>A payment completes: after \<open>SendTx\<close> returned a transaction to another account, on a node
  whose graph is empty, the signatures of three different active witnesses who saw the lock,
  delivered in three packets, start a confirmation, and running it, with a store that can be read
  and written and a receiver below \<open>MaxAmount\<close>, moves the money.\<close>

theorem payment_completes:
  assumes "node_ok (ne_env NE) A nd0" and "no_edges nd0" and "ed25519_ok (en_crypto (ne_env NE))"
    and "kp_wf (en_crypto (ne_env NE)) (nd_kp nd0)" and "nonce_draw rnd"
    and "SendTx NE cx0 rnd nd0 to amt = (Ok tx, nd)" and "to \<noteq> kp_Public (nd_kp nd0)"
    and "kp_wf (en_crypto (ne_env NE)) k1" and "kp_wf (en_crypto (ne_env NE)) k2"
    and "kp_wf (en_crypto (ne_env NE)) k3"
    and "SignAsWitness (en_crypto (ne_env NE)) k1 (tx_Hash tx) t1 True = Ok s1"
    and "SignAsWitness (en_crypto (ne_env NE)) k2 (tx_Hash tx) t2 True = Ok s2"
    and "SignAsWitness (en_crypto (ne_env NE)) k3 (tx_Hash tx) t3 True = Ok s3"
    and "distinct [kp_Public k1, kp_Public k2, kp_Public k3]"
    and "unmarshal (ne_witSig NE) (pk_Payload p1) = Inr \<lparr>wm_TxHash = tx_Hash tx, wm_Sig = s1\<rparr>"
    and "unmarshal (ne_witSig NE) (pk_Payload p2) = Inr \<lparr>wm_TxHash = tx_Hash tx, wm_Sig = s2\<rparr>"
    and "unmarshal (ne_witSig NE) (pk_Payload p3) = Inr \<lparr>wm_TxHash = tx_Hash tx, wm_Sig = s3\<rparr>"
    and "nd1 = foldl (\<lambda>n p. snd (handleWitnessSig NE cx n p)) nd [p1, p2, p3]"
    and "GetActiveSet (en_badger (ne_env NE)) (en_wits (ne_env NE)) (nd_db nd) (cx_now cx) = Ok S"
    and "{kp_Public k1, kp_Public k2, kp_Public k3} \<subseteq> S"
    and "is_ok (GetBalance (en_badger (ne_env NE)) (nd_db nd) (cx_now cx) (tx_From tx))"
    and "is_ok (GetBalance (en_badger (ne_env NE)) (nd_db nd) (cx_now cx) (tx_To tx))"
    and "\<And>b. fst (ConfirmTxBatch (en_badger (ne_env NE)) (en_tx (ne_env NE)) (nd_db nd) (cx_now cx) b) = None"
    and "unat (balance (led A (nd_db nd0)) to) + unat amt \<le> unat MaxAmount"
  shows "\<exists>nd2. confirmTx NE cx nd1 tx [s1, s2, s3] = (Ok (), nd2)
    \<and> (tx, [s1, s2, s3]) \<in> set (nd_spawned nd1)
    \<and> unat (balance (led A (nd_db nd2)) (kp_Public (nd_kp nd0))) + cost tx
        = unat (balance (led A (nd_db nd0)) (kp_Public (nd_kp nd0)))
    \<and> unat (balance (led A (nd_db nd2)) to) = unat (balance (led A (nd_db nd0)) to) + unat amt"
proof -
  let ?E = "ne_env NE" and ?sigs = "[s1, s2, s3]" and ?tx = "tx\<lparr>tx_WitnessSigs := [s1, s2, s3]\<rparr>"
  have st0: "store_ok ?E A (nd_db nd0)" using assms(1) by (simp add: node_ok_def core_ok_def)
  have start: "nd_pending nd (tx_Hash tx) = Some \<lparr>pm_tx = tx, pm_sigs = [], pm_confirmed = False\<rparr>"
    "led A (nd_db nd) = led A (nd_db nd0)" "tx_From tx = kp_Public (nd_kp nd0)" "tx_To tx = to"
    "tx_Amount tx = amt" "cost tx \<le> unat (balance (led A (nd_db nd0)) (kp_Public (nd_kp nd0)))"
    "cost tx \<le> unat MaxAmount" "tx_ParentHashes tx = []"
    using SendTx_effect[OF assms(1,3,4,6)] assms(2) by (auto simp: no_edges_def CurrentTips_empty)
  have nd_ok: "node_ok ?E A nd"
    using SendTx_ok[OF assms(1,5), of cx0 to amt] assms(6) by (simp add: outcome_ok_def)
  have nd1: "nd1 = nd\<lparr>nd_pending := (nd_pending nd)(tx_Hash tx := None),
      nd_spawned := nd_spawned nd @ [(tx, ?sigs)]\<rparr>"
    using three_signatures[OF start(1) assms(15-17)] assms(18) by simp
  have ok1: "node_ok ?E A nd1" using nd_ok by (simp add: nd1)
  have q: "3 \<le> card (good_witnesses (en_crypto ?E) ?sigs (tx_Hash tx) S)"
    using three_good[OF assms(3,8-14) assms(20)] .
  have c: "cr_out (ConfirmTx ?E (nd_tp nd1) (cx_now cx) ?tx) = Ok ()"
    using nd_ok assms(21-24) start
    by (intro ConfirmTx_succeeds[of ?E A]) (simp_all add: nd1 cost_def node_ok_def core_ok_def)
  obtain r nd2 where r: "confirmTx NE cx nd1 tx ?sigs = (r, nd2)" by fastforce
  from confirmTx_transfer[OF ok1 _ q c _ _ r] assms(7,19,22) start nd1 r show ?thesis
    by (auto simp: nd1)
qed

end
