(* ===== verification/Startup.thy ===== *)
theory Startup
  imports Files Payments
begin

text \<open>
  \<^verbatim>\<open>node/config.go\<close>, the constructor and the start of \<^verbatim>\<open>node/node.go\<close>, and \<^verbatim>\<open>cmd/cdml/main.go\<close> up to the
  point where the process waits for a signal.
\<close>

section \<open>Configuration (config.go)\<close>

record config =
  cfg_PrivKeyPath :: string
  cfg_DBPath :: string
  cfg_P2PAddr :: string
  cfg_APIAddr :: string
  cfg_SeedPeers :: "string list"
  cfg_NetworkID :: string

definition LoadConfig :: "config codec \<Rightarrow> disk \<Rightarrow> string \<Rightarrow> config result" where
  "LoadConfig J dk path =
     (case ReadFile dk path of
        Inl e \<Rightarrow> Err (Wrapf ''read config: %w'' [] e)
      | Inr data \<Rightarrow>
          (case unmarshal J data of Inl e \<Rightarrow> Err (Wrapf ''parse config: %w'' [] e) | Inr cfg \<Rightarrow> Ok cfg))"

text \<open>\<open>rnd\<close> is what \<^verbatim>\<open>rand.Reader\<close> delivers, as for \<open>Generate\<close>.\<close>

definition loadOrCreateKey ::
  "crypto_ops \<Rightarrow> disk \<Rightarrow> error + bytes \<Rightarrow> string \<Rightarrow> keypair result \<times> disk" where
  "loadOrCreateKey C dk rnd path =
     (let create =
        (case Generate C rnd of
           Ok kp \<Rightarrow>
             (case WriteFile dk path (PrivateBytes kp) of
                (Some e, dk') \<Rightarrow> (Err (Wrapf ''write key: %w'' [] e), dk')
              | (None, dk') \<Rightarrow> (Ok kp, dk'))
         | Err e \<Rightarrow> (Err e, dk) | Panic \<Rightarrow> (Panic, dk) | Blocked \<Rightarrow> (Blocked, dk))
      in case ReadFile dk path of
           Inr data \<Rightarrow> if length data = PrivateKeySize then (LoadFromBytes data, dk) else create
         | Inl e \<Rightarrow> create)"

section \<open>Making and starting a node (node.go)\<close>

definition New ::
  "crypto_ops \<Rightarrow> ('db, 'txn) badger \<Rightarrow> config \<Rightarrow> disk \<Rightarrow> error + bytes \<Rightarrow> 'db node result \<times> disk" where
  "New C B cfg dk rnd =
     (case loadOrCreateKey C dk rnd (cfg_PrivKeyPath cfg) of
        (Ok kp, dk') \<Rightarrow>
          (bindO (DB_Open B \<lparr>op_Path = cfg_DBPath cfg, op_InMemory = False\<rparr>) (\<lambda>db. Ok (NewNode kp db)), dk')
      | (Err e, dk') \<Rightarrow> (Err e, dk') | (Panic, dk') \<Rightarrow> (Panic, dk') | (Blocked, dk') \<Rightarrow> (Blocked, dk'))"

text \<open>\<open>listen\<close> is the error of \<^verbatim>\<open>net.Listen\<close>, if any. A start that succeeds leaves the accept loop and
  one \<^verbatim>\<open>connectToSeed\<close> loop for every seed running: the result is the list of their addresses.\<close>

definition Start :: "config \<Rightarrow> error option \<Rightarrow> string list result" where
  "Start cfg listen =
     (case listen of
        Some e \<Rightarrow> Err (Wrapf (''listen '' @ cfg_P2PAddr cfg @ '': %w'') [] e)
      | None \<Rightarrow> Ok (cfg_SeedPeers cfg))"

text \<open>The connections that the accept loop hands to goroutines, until accepting fails.\<close>

fun acceptLoop :: "(error + 'c) list \<Rightarrow> 'c list" where
  "acceptLoop [] = []"
| "acceptLoop (Inl e # _) = []"
| "acceptLoop (Inr c # cs) = c # acceptLoop cs"

section \<open>The program (main.go)\<close>

text \<open>How the process begins: it ends with a message, or it runs a node with the API at an address
  and connects to the seeds.\<close>

datatype 'db boot = Fatal string error | Crash | Running "'db node" string "string list"

definition main ::
  "config codec \<Rightarrow> crypto_ops \<Rightarrow> ('db, 'txn) badger \<Rightarrow> disk \<Rightarrow> string \<Rightarrow> error + bytes \<Rightarrow> error option \<Rightarrow>
     'db boot \<times> disk" where
  "main J C B dk cfgPath rnd listen =
     (case LoadConfig J dk cfgPath of
        Err e \<Rightarrow> (Fatal ''load config'' e, dk)
      | Ok cfg \<Rightarrow>
          (case New C B cfg dk rnd of
             (Err e, dk') \<Rightarrow> (Fatal ''create node'' e, dk')
           | (Ok nd, dk') \<Rightarrow>
               (case Start cfg listen of
                  Err e \<Rightarrow> (Fatal ''start node'' e, dk')
                | Ok seeds \<Rightarrow> (Running nd (cfg_APIAddr cfg) seeds, dk')
                | _ \<Rightarrow> (Crash, dk'))
           | (_, dk') \<Rightarrow> (Crash, dk'))
      | _ \<Rightarrow> (Crash, dk))"

section \<open>Properties\<close>

lemma Generate_Ok:
  "Generate C rnd = Ok kp \<longleftrightarrow> (\<exists>seed. rnd = Inr seed \<and> kp_private kp = ed_new_key C seed
     \<and> kp_Public kp = ed_public (ed_new_key C seed))"
  by (cases rnd; cases kp) (auto simp: Generate_def Let_def)

lemma Generate_returns: "Generate C rnd \<noteq> Panic" "Generate C rnd \<noteq> Blocked"
  by (simp_all add: Generate_def Let_def split: sum.splits)

lemma loadOrCreateKey_cases:
  assumes "loadOrCreateKey C dk rnd path = (Ok kp, dk')"
  shows "(\<exists>data. ReadFile dk path = Inr data \<and> length data = PrivateKeySize \<and> LoadFromBytes data = Ok kp \<and> dk' = dk)
    \<or> (Generate C rnd = Ok kp \<and> WriteFile dk path (PrivateBytes kp) = (None, dk'))"
proof (cases "\<exists>data. ReadFile dk path = Inr data \<and> length data = PrivateKeySize")
  case True
  with assms show ?thesis by (auto simp: loadOrCreateKey_def Let_def)
next
  case False
  with assms have "(case Generate C rnd of
           Ok kp \<Rightarrow>
             (case WriteFile dk path (PrivateBytes kp) of
                (Some e, dk') \<Rightarrow> (Err (Wrapf ''write key: %w'' [] e), dk')
              | (None, dk') \<Rightarrow> (Ok kp, dk'))
         | Err e \<Rightarrow> (Err e, dk) | Panic \<Rightarrow> (Panic, dk) | Blocked \<Rightarrow> (Blocked, dk)) = (Ok kp, dk')"
    by (auto simp: loadOrCreateKey_def Let_def split: sum.splits if_splits)
  then show ?thesis by (auto split: outcome.splits prod.splits option.splits)
qed

lemma loadOrCreateKey_length:
  assumes "ed25519_ok C" and "loadOrCreateKey C dk rnd path = (Ok kp, dk')"
  shows "length (kp_private kp) = PrivateKeySize"
  using loadOrCreateKey_cases[OF assms(2)] assms(1)
  by (auto simp: LoadFromBytes_def Generate_Ok ed25519_ok_def PrivateKeySize_def)

lemma New_parts:
  assumes "New C B cfg dk rnd = (Ok nd, dk')"
  obtains kp db where "loadOrCreateKey C dk rnd (cfg_PrivKeyPath cfg) = (Ok kp, dk')" and "nd = NewNode kp db"
    and "nd_kp nd = kp" and "nd_db nd = db"
  using assms by (auto simp: New_def bindO_eq_Ok NewNode_def split: prod.splits outcome.splits)

lemma New_fresh:
  assumes "ed25519_ok C" and "New C B cfg dk rnd = (Ok nd, dk')" and "store_ok (ne_env NE) A (nd_db nd)"
  shows "fresh_node NE A nd"
proof -
  obtain kp db where k: "loadOrCreateKey C dk rnd (cfg_PrivKeyPath cfg) = (Ok kp, dk')"
    and nd: "nd = NewNode kp db" "nd_db nd = db"
    using New_parts[OF assms(2)] by blast
  have "store_ok (ne_env NE) A db" using assms(3) nd(2) by simp
  with loadOrCreateKey_length[OF assms(1) k] nd(1) show ?thesis
    unfolding fresh_node_def by blast
qed

lemma main_Running:
  assumes "main J C B dk path rnd listen = (Running nd addr seeds, dk')"
  obtains cfg where "LoadConfig J dk path = Ok cfg" and "New C B cfg dk rnd = (Ok nd, dk')"
    and "addr = cfg_APIAddr cfg" and "seeds = cfg_SeedPeers cfg" and "listen = None"
  using assms
  by (auto simp: main_def Start_def split: outcome.splits prod.splits option.splits)

text \<open>A node keeps its identity: once \<open>loadOrCreateKey\<close> returned a key, every later call on the disk
  it left, whatever the random source then gives, returns the same key and writes nothing; and the
  node made with it starts in a state from which the invariants of a running node hold.\<close>

theorem node_keeps_identity:
  assumes "ed25519_ok C" and "dk_readable dk (cfg_PrivKeyPath cfg)"
    and "New C B cfg dk rnd = (Ok nd, dk')"
  shows "loadOrCreateKey C dk' rnd' (cfg_PrivKeyPath cfg) = (Ok (nd_kp nd), dk')
    \<and> (store_ok (ne_env NE) A (nd_db nd) \<longrightarrow> fresh_node NE A nd)"
proof -
  obtain kp db where k: "loadOrCreateKey C dk rnd (cfg_PrivKeyPath cfg) = (Ok kp, dk')"
    and sel: "nd_kp nd = kp"
    using New_parts[OF assms(3)] by blast
  have "loadOrCreateKey C dk' rnd' (cfg_PrivKeyPath cfg) = (Ok kp, dk')"
    using loadOrCreateKey_cases[OF k]
  proof
    assume "\<exists>data. ReadFile dk (cfg_PrivKeyPath cfg) = Inr data \<and> length data = PrivateKeySize
      \<and> LoadFromBytes data = Ok kp \<and> dk' = dk"
    then show ?thesis by (auto simp: loadOrCreateKey_def Let_def)
  next
    assume g: "Generate C rnd = Ok kp \<and> WriteFile dk (cfg_PrivKeyPath cfg) (PrivateBytes kp) = (None, dk')"
    then have "ReadFile dk' (cfg_PrivKeyPath cfg) = Inr (PrivateBytes kp)"
      using disks.read_written assms(2) by blast
    moreover have "LoadFromBytes (PrivateBytes kp) = Ok kp"
      using g Generate_wf[of C rnd kp] LoadFromBytes_PrivateBytes[OF assms(1)] by blast
    moreover have "length (PrivateBytes kp) = PrivateKeySize"
      using loadOrCreateKey_length[OF assms(1) k] by (simp add: PrivateBytes_def)
    ultimately show ?thesis by (simp add: loadOrCreateKey_def Let_def)
  qed
  moreover have "fresh_node NE A nd" if "store_ok (ne_env NE) A (nd_db nd)"
    using New_fresh[OF assms(1,3) that] .
  ultimately show ?thesis using sel by simp
qed

text \<open>A key file of the wrong length, or one that cannot be read, is replaced: the node silently gets a
  new identity and the old bytes are gone.\<close>

theorem damaged_key_replaced:
  assumes "dk_files dk path = Some old" and "length old \<noteq> PrivateKeySize \<or> \<not> dk_readable dk path"
    and "dk_writable dk path" and "rnd = Inr seed"
  shows "\<exists>kp dk'. loadOrCreateKey C dk rnd path = (Ok kp, dk') \<and> dk_files dk' path = Some (ed_new_key C seed)"
  using assms
  by (auto simp: loadOrCreateKey_def ReadFile_def WriteFile_def Generate_def PrivateBytes_def Let_def)

lemma acceptLoop_prefix: "map Inr (acceptLoop cs) = takeWhile (\<lambda>c. \<exists>x. c = Inr x) cs"
  by (induction cs rule: acceptLoop.induct) auto

definition sample_disk :: disk where
  "sample_disk = \<lparr>dk_files = (\<lambda>_. None), dk_readable = (\<lambda>_. True), dk_writable = (\<lambda>_. True)\<rparr>"

theorem node_keeps_identity_witness:
  "\<exists>nd dk'. New sample_crypto mem_badger
      \<lparr>cfg_PrivKeyPath = ''k'', cfg_DBPath = ''d'', cfg_P2PAddr = [], cfg_APIAddr = [], cfg_SeedPeers = [],
       cfg_NetworkID = []\<rparr> sample_disk (Inr [7]) = (Ok nd, dk')
    \<and> loadOrCreateKey sample_crypto dk' (Inr [8]) ''k'' = (Ok (nd_kp nd), dk')"
proof -
  let ?cfg = "\<lparr>cfg_PrivKeyPath = ''k'', cfg_DBPath = ''d'', cfg_P2PAddr = [], cfg_APIAddr = [], cfg_SeedPeers = [],
       cfg_NetworkID = []\<rparr>"
  obtain nd dk' where n: "New sample_crypto mem_badger ?cfg sample_disk (Inr [7]) = (Ok nd, dk')"
    by (simp add: New_def loadOrCreateKey_def ReadFile_def WriteFile_def sample_disk_def Generate_def
        DB_Open_def Let_def) (simp add: mem_badger_def)
  have r: "dk_readable sample_disk (cfg_PrivKeyPath ?cfg)" by (simp add: sample_disk_def)
  from node_keeps_identity[OF sample_crypto_ok r n, of "Inr [8]"] n show ?thesis by auto
qed

end
