(* ===== verification/Strconv.thy ===== *)
theory Strconv
  imports Core
begin

text \<open>
  The decimal conversions of Go's standard library that the HTTP API and the scripts use:
  \<^verbatim>\<open>strconv.ParseUint(s, 10, 64)\<close> and the verb \<^verbatim>\<open>%d\<close>, with the reading of a digit string as the number
  both agree on.
\<close>

section \<open>Printing\<close>

definition digit_char :: "nat \<Rightarrow> char" where "digit_char d = char_of (48 + d)"

fun digits :: "nat \<Rightarrow> string" where
  "digits n = (if n < 10 then [digit_char n] else digits (n div 10) @ [digit_char (n mod 10)])"

declare digits.simps [simp del]

text \<open>\<^verbatim>\<open>%0wd\<close>: zeros in front up to width \<open>w\<close>.\<close>

definition padded :: "nat \<Rightarrow> nat \<Rightarrow> string" where
  "padded w n = replicate (w - length (digits n)) (CHR ''0'') @ digits n"

section \<open>Parsing\<close>

definition is_digit :: "char \<Rightarrow> bool" where
  "is_digit c \<longleftrightarrow> 48 \<le> (of_char c :: nat) \<and> (of_char c :: nat) \<le> 57"

definition digit_val :: "char \<Rightarrow> nat" where "digit_val c = of_char c - 48"

definition ErrSyntax :: error where "ErrSyntax = LibError ''invalid syntax''"
definition ErrRange :: error where "ErrRange = LibError ''value out of range''"

definition maxUint64 :: u64 where "maxUint64 = - 1"

text \<open>The library's loop: it stops at the first character that is no digit or at the first overflow,
  whichever comes first, and returns 0 or the largest value with the error.\<close>

fun parse_loop :: "string \<Rightarrow> u64 \<Rightarrow> u64 \<times> error option" where
  "parse_loop [] n = (n, None)"
| "parse_loop (c # cs) n =
     (if \<not> is_digit c then (0, Some ErrSyntax)
      else if n \<ge> maxUint64 div 10 + 1 then (maxUint64, Some ErrRange)
      else (let m = n * 10; n1 = m + of_nat (digit_val c) in
            if n1 < m then (maxUint64, Some ErrRange) else parse_loop cs n1))"

definition ParseUint :: "string \<Rightarrow> u64 \<times> error option" where
  "ParseUint s = (if s = [] then (0, Some ErrSyntax) else parse_loop s 0)"

section \<open>The number a digit string spells\<close>

definition spelled :: "nat \<Rightarrow> string \<Rightarrow> nat" where
  "spelled a s = foldl (\<lambda>a c. a * 10 + digit_val c) a s"

lemma spelled_simps [simp]:
  "spelled a [] = a" "spelled a (c # s) = spelled (a * 10 + digit_val c) s"
  "spelled a (s @ t) = spelled (spelled a s) t"
  by (simp_all add: spelled_def)

lemma spelled_ge: "a \<le> spelled a s"
proof (induction s arbitrary: a)
  case (Cons c s)
  from Cons.IH[of "a * 10 + digit_val c"] show ?case by simp
qed simp

lemma digit_char [simp]: "d < 10 \<Longrightarrow> is_digit (digit_char d)" "d < 10 \<Longrightarrow> digit_val (digit_char d) = d"
  by (simp_all add: is_digit_def digit_char_def digit_val_def)

lemma digits_ok: "digits n \<noteq> [] \<and> list_all is_digit (digits n) \<and> spelled 0 (digits n) = n"
proof (induction n rule: digits.induct)
  case (1 n)
  show ?case
  proof (cases "n < 10")
    case True
    then show ?thesis by (simp add: digits.simps[of n])
  next
    case False
    with 1 show ?thesis by (simp add: digits.simps[of n])
  qed
qed

lemma digits_inject: "digits m = digits n \<longleftrightarrow> m = n"
  by (metis digits_ok)

lemma spelled_zeros: "spelled 0 (replicate k (CHR ''0'') @ s) = spelled 0 s"
  by (induction k) (simp_all add: digit_val_def)

lemma padded_ok: "list_all is_digit (padded w n) \<and> spelled 0 (padded w n) = n"
  using digits_ok[of n] unfolding padded_def
  by (auto simp: spelled_zeros list_all_iff is_digit_def simp del: spelled_simps)

lemma length_digits: "n < 10 ^ k \<Longrightarrow> 0 < k \<Longrightarrow> length (digits n) \<le> k"
proof (induction k arbitrary: n)
  case 0
  then show ?case by simp
next
  case (Suc k)
  show ?case
  proof (cases "n < 10")
    case True
    then show ?thesis by (simp add: digits.simps[of n])
  next
    case False
    with Suc.prems have "n div 10 < 10 ^ k" "0 < k" by (auto intro!: gr0I)
    with Suc.IH False show ?thesis by (simp add: digits.simps[of n])
  qed
qed

lemma length_padded: "n < 10 ^ w \<Longrightarrow> 0 < w \<Longrightarrow> length (padded w n) = w"
  using length_digits[of n w] by (simp add: padded_def)

section \<open>Parsing is exact\<close>

lemma parse_loop_digits:
  "list_all is_digit s \<Longrightarrow> parse_loop s n =
     (if spelled (unat n) s < 2 ^ 64 then (of_nat (spelled (unat n) s), None) else (maxUint64, Some ErrRange))"
proof (induction s arbitrary: n)
  case Nil
  then show ?case using unsigned_less[of n] by simp
next
  case (Cons c s)
  have c: "is_digit c" "digit_val c \<le> 9" using Cons.prems by (auto simp: is_digit_def digit_val_def)
  have cut: "n \<ge> maxUint64 div 10 + 1 \<longleftrightarrow> unat n \<ge> 1844674407370955162"
    by (simp add: word_le_nat_alt maxUint64_def)
  show ?case
  proof (cases "unat n \<ge> 1844674407370955162")
    case True
    then have "\<not> spelled (unat n * 10 + digit_val c) s < 2 ^ 64"
      using spelled_ge[of "unat n * 10 + digit_val c" s] by simp
    with True c cut show ?thesis by simp
  next
    case False
    let ?m = "n * 10"
    have m: "unat ?m = unat n * 10" using False by (simp add: unat_word_ariths)
    have d: "unat (of_nat (digit_val c) :: u64) = digit_val c"
      using c(2) by (simp add: unat_of_nat)
    show ?thesis
    proof (cases "unat n * 10 + digit_val c < 2 ^ 64")
      case True
      then have n1: "unat (?m + of_nat (digit_val c)) = unat n * 10 + digit_val c"
        using m d by (simp add: unat_word_ariths)
      then have "\<not> ?m + of_nat (digit_val c) < ?m" using m by (simp add: word_less_nat_alt)
      with False c cut n1 Cons.IH[of "?m + of_nat (digit_val c)"] Cons.prems show ?thesis
        by (simp add: Let_def)
    next
      case wrap: False
      then have "unat (?m + of_nat (digit_val c)) = unat n * 10 + digit_val c - 2 ^ 64"
        using m d c(2) False by (simp add: unat_word_ariths mod_if)
      then have "?m + of_nat (digit_val c) < ?m"
        using m c(2) wrap by (simp add: word_less_nat_alt)
      moreover have "\<not> spelled (unat n * 10 + digit_val c) s < 2 ^ 64"
        using spelled_ge[of "unat n * 10 + digit_val c" s] wrap by simp
      ultimately show ?thesis using False c cut by (simp add: Let_def)
    qed
  qed
qed

lemma parse_loop_None: "snd (parse_loop s n) = None \<Longrightarrow> list_all is_digit s"
  by (induction s arbitrary: n) (auto simp: Let_def split: if_splits)

lemma ParseUint_digits:
  "s \<noteq> [] \<Longrightarrow> list_all is_digit s \<Longrightarrow> ParseUint s =
     (if spelled 0 s < 2 ^ 64 then (of_nat (spelled 0 s), None) else (maxUint64, Some ErrRange))"
  using parse_loop_digits[of s 0] by (simp add: ParseUint_def)

lemma ParseUint_Ok_iff:
  "ParseUint s = (v, None) \<longleftrightarrow> s \<noteq> [] \<and> list_all is_digit s \<and> spelled 0 s < 2 ^ 64 \<and> v = of_nat (spelled 0 s)"
proof (cases "s \<noteq> [] \<and> list_all is_digit s")
  case True
  then show ?thesis using ParseUint_digits[of s] by auto
next
  case False
  then have "snd (ParseUint s) \<noteq> None" using parse_loop_None[of s 0] by (auto simp: ParseUint_def)
  with False show ?thesis by auto
qed

lemma ParseUint_print: "ParseUint (digits (unat v)) = (v, None)"
  using digits_ok[of "unat v"] unsigned_less[of v] by (simp add: ParseUint_Ok_iff)

text \<open>Parsing is exact: what is printed with \<^verbatim>\<open>%d\<close> parses back to the same value, and a string parses
  without an error just when it is a nonempty string of digits that spells a number below
  \<open>2 ^ 64\<close>, and then to that number.\<close>

theorem ParseUint_exact:
  "ParseUint (digits (unat v)) = (v, None)
   \<and> (ParseUint s = (w, None) \<longleftrightarrow>
        s \<noteq> [] \<and> list_all is_digit s \<and> spelled 0 s < 2 ^ 64 \<and> w = of_nat (spelled 0 s))"
  by (simp add: ParseUint_print ParseUint_Ok_iff)

end
