(* ===== verification/Api.thy ===== *)
theory Api
  imports NodeProps Strconv
begin

text \<open>
  \<^verbatim>\<open>api/handler.go\<close> and \<^verbatim>\<open>api/server.go\<close>: the HTTP handlers over a node, the routes and the CORS
  wrapper. A response is its status, the headers the program sets and the value it encodes as
  JSON; the decoding of request bodies is a parameter.
\<close>

section \<open>Requests and responses\<close>

datatype json =
    JStr string | JNum u64 | JCount nat | JErrText error
  | JTx transaction | JSnap snapshot | JWits "witness list" | JPeers "(string \<times> string) list"
  | JObj "(string \<times> json) list"

record response =
  rs_Status :: nat
  rs_Headers :: "(string \<times> string) list"
  rs_Body :: "json option"

definition respond :: "nat \<Rightarrow> json \<Rightarrow> response" where
  "respond st v = \<lparr>rs_Status = st, rs_Headers = [], rs_Body = Some v\<rparr>"

definition httpErr :: "nat \<Rightarrow> string \<Rightarrow> json \<Rightarrow> response" where
  "httpErr st code msg = respond st (JObj [(''code'', JStr code), (''message'', msg)])"

record send_req =
  sr_To :: string
  sr_Amount :: amount

record faucet_req =
  fr_PubKey :: string
  fr_Amount :: amount

record witness_req =
  wr_PubKey :: string
  wr_Addr :: string

text \<open>\<^verbatim>\<open>json.NewDecoder(r.Body).Decode\<close> at the three types of a request body.\<close>

record api_env =
  ae_sendReq :: "bytes \<Rightarrow> error + send_req"
  ae_faucetReq :: "bytes \<Rightarrow> error + faucet_req"
  ae_witnessReq :: "bytes \<Rightarrow> error + witness_req list"

text \<open>The pattern \<^verbatim>\<open>if err != nil { httpErr(...); return }\<close> after a call.\<close>

definition orElse ::
  "'a result \<Rightarrow> 's \<Rightarrow> (error \<Rightarrow> response) \<Rightarrow> ('a \<Rightarrow> response result \<times> 's) \<Rightarrow> response result \<times> 's" where
  "orElse r s bad f =
     (case r of Ok a \<Rightarrow> f a | Err e \<Rightarrow> (Ok (bad e), s) | Panic \<Rightarrow> (Panic, s) | Blocked \<Rightarrow> (Blocked, s))"

abbreviation of_sum :: "error + 'a \<Rightarrow> 'a result" where
  "of_sum x \<equiv> (case x of Inl e \<Rightarrow> Err e | Inr a \<Rightarrow> Ok a)"

abbreviation bad_request :: "error \<Rightarrow> response" where
  "bad_request e \<equiv> httpErr 400 ''BAD_REQUEST'' (JErrText e)"

abbreviation invalid_pubkey :: "error \<Rightarrow> response" where
  "invalid_pubkey e \<equiv> httpErr 400 ''INVALID_PUBKEY'' (JErrText e)"

abbreviation db_error :: "error \<Rightarrow> response" where
  "db_error e \<equiv> httpErr 500 ''DB_ERROR'' (JErrText e)"

section \<open>Handlers\<close>

definition Healthz :: response where
  "Healthz = respond 200 (JObj [(''status'', JStr ''ok'')])"

definition Status :: "'db node \<Rightarrow> response" where
  "Status nd = respond 200 (JObj
     [(''pubkey'', JStr (hex_encode (arr32 (kp_Public (nd_kp nd))))),
      (''peers'', JCount (PeerCount nd)), (''version'', JStr ''1.0.0'')])"

definition Balance ::
  "('db, 'txn) net_env \<Rightarrow> gtime \<Rightarrow> 'db node \<Rightarrow> string \<Rightarrow> response result \<times> 'db node" where
  "Balance NE now nd pkHex =
     (let B = en_badger (ne_env NE) in
      orElse (PubKeyFromHex pkHex) nd invalid_pubkey (\<lambda>pk.
      orElse (GetBalance B (nd_db nd) now pk) nd db_error (\<lambda>bal.
      orElse (value_or_zero (GetLatestSeq B (nd_db nd) now pk)) nd db_error (\<lambda>seq.
        (Ok (respond 200 (JObj [(''pubkey'', JStr pkHex), (''balance'', JNum bal), (''seq'', JNum seq)])), nd)))))"

definition api_SendTx ::
  "('db, 'txn) net_env \<Rightarrow> api_env \<Rightarrow> step_ctx \<Rightarrow> error + bytes \<Rightarrow> 'db node \<Rightarrow> bytes \<Rightarrow>
     response result \<times> 'db node" where
  "api_SendTx NE AE cx rnd nd body =
     orElse (of_sum (ae_sendReq AE body)) nd bad_request (\<lambda>req.
     orElse (PubKeyFromHex (sr_To req)) nd invalid_pubkey (\<lambda>to.
       case SendTx NE cx rnd nd to (sr_Amount req) of
         (r, nd') \<Rightarrow>
           orElse r nd' (\<lambda>e. httpErr 400 ''TX_FAILED'' (JErrText e)) (\<lambda>tx.
             (Ok (respond 202 (JObj [(''tx_hash'', JStr (hex_encode (arr32 (tx_Hash tx)))),
                (''seq'', JNum (tx_Sequence tx)), (''nonce'', JNum (tx_Nonce tx))])), nd'))))"

definition api_GetTx ::
  "('db, 'txn) net_env \<Rightarrow> gtime \<Rightarrow> 'db node \<Rightarrow> string \<Rightarrow> string \<Rightarrow> response result \<times> 'db node" where
  "api_GetTx NE now nd pkHex seqStr =
     (let E = ne_env NE; notFound = httpErr 404 ''NOT_FOUND'' (JStr ''transaction not found'') in
      orElse (PubKeyFromHex pkHex) nd invalid_pubkey (\<lambda>pk.
        case ParseUint seqStr of
          (_, Some e) \<Rightarrow> (Ok (httpErr 400 ''INVALID_SEQ'' (JErrText e)), nd)
        | (seq, None) \<Rightarrow>
            orElse (GetTx (en_badger E) (en_tx E) (nd_db nd) now pk seq) nd (\<lambda>_. notFound) (\<lambda>r.
              case r of None \<Rightarrow> (Ok notFound, nd) | Some tx \<Rightarrow> (Ok (respond 200 (JTx tx)), nd))))"

definition Peers :: "'db node \<Rightarrow> response" where
  "Peers nd = respond 200 (JObj
     [(''count'', JCount (length (PeerList nd))), (''peers'', JPeers (PeerList nd))])"

definition faucetDefault :: amount where "faucetDefault = 10000 * 1000000"

definition Faucet ::
  "('db, 'txn) net_env \<Rightarrow> api_env \<Rightarrow> gtime \<Rightarrow> 'db node \<Rightarrow> bytes \<Rightarrow> response result \<times> 'db node" where
  "Faucet NE AE now nd body =
     (let B = en_badger (ne_env NE) in
      orElse (of_sum (ae_faucetReq AE body)) nd bad_request (\<lambda>req.
      orElse (PubKeyFromHex (fr_PubKey req)) nd invalid_pubkey (\<lambda>pk.
        let amt = (if fr_Amount req = 0 then faucetDefault else fr_Amount req) in
        case SaveBalance B (nd_db nd) now pk amt of
          (Some e, db') \<Rightarrow> (Ok (db_error e), set_db db' nd)
        | (None, db') \<Rightarrow>
            orElse (value_or_zero (GetBalance B db' now pk)) (set_db db' nd) db_error (\<lambda>bal.
              (Ok (respond 200 (JObj [(''pubkey'', JStr (fr_PubKey req)), (''amount'', JNum amt),
                                      (''balance'', JNum bal)])), set_db db' nd)))))"

definition ActiveWitnesses ::
  "('db, 'txn) net_env \<Rightarrow> gtime \<Rightarrow> 'db node \<Rightarrow> response result \<times> 'db node" where
  "ActiveWitnesses NE now nd =
     (let E = ne_env NE in
      orElse (GetActiveWitnesses (en_badger E) (en_wits E) (nd_db nd) now) nd db_error (\<lambda>ws.
        (Ok (respond 200 (JObj [(''count'', JCount (length ws)), (''active'', JWits ws)])), nd)))"

definition CreateSnapshot ::
  "('db, 'txn) net_env \<Rightarrow> gtime \<Rightarrow> 'db node \<Rightarrow> response result \<times> 'db node" where
  "CreateSnapshot NE now nd =
     (let E = ne_env NE; pk = kp_Public (nd_kp nd) in
      orElse (value_or_zero (GetBalance (en_badger E) (nd_db nd) now pk)) nd db_error (\<lambda>bal.
      orElse (value_or_zero (GetLatestSeq (en_badger E) (nd_db nd) now pk)) nd db_error (\<lambda>seq.
        let snap = \<lparr>sn_PubKey = pk, sn_Sequence = seq, sn_Balance = bal, sn_DAGTips = [],
                    sn_CreatedAt = now, sn_ExpiresAt = now + snapshotTTL\<rparr> in
        case SaveSnapshot (en_badger E) (en_snap E) (nd_db nd) now snap of
          (Some e, db') \<Rightarrow> (Ok (db_error e), set_db db' nd)
        | (None, db') \<Rightarrow> (Ok (respond 200 (JSnap snap)), set_db db' nd))))"

text \<open>The loop over the registered witnesses: the first key that does not parse ends it.\<close>

fun parseWitnesses :: "gtime \<Rightarrow> witness_req list \<Rightarrow> witness list \<Rightarrow> witness list result" where
  "parseWitnesses now [] ws = Ok ws"
| "parseWitnesses now (r # rs) ws =
     bindO (PubKeyFromHex (wr_PubKey r)) (\<lambda>pk.
       parseWitnesses now rs (ws @ [\<lparr>w_PubKey = pk, w_Addr = wr_Addr r, w_AddedAt = now\<rparr>]))"

definition RegisterWitnesses ::
  "('db, 'txn) net_env \<Rightarrow> api_env \<Rightarrow> gtime \<Rightarrow> 'db node \<Rightarrow> bytes \<Rightarrow> response result \<times> 'db node" where
  "RegisterWitnesses NE AE now nd body =
     (let E = ne_env NE in
      orElse (of_sum (ae_witnessReq AE body)) nd bad_request (\<lambda>raw.
      orElse (parseWitnesses now raw []) nd invalid_pubkey (\<lambda>ws.
        case SaveActiveWitnesses (en_badger E) (en_wits E) (nd_db nd) now ws of
          (Some e, db') \<Rightarrow> (Ok (db_error e), set_db db' nd)
        | (None, db') \<Rightarrow> (Ok (respond 200 (JObj [(''registered'', JCount (length ws))])), set_db db' nd))))"

section \<open>Routes (server.go)\<close>

datatype seg = Lit string | Wild string

datatype endpoint =
    EHealthz | EStatus | EBalance | ESendTx | EGetTx | EPeers | EActiveWitnesses | ERegisterWitnesses
  | ECreateSnapshot | EFaucet

definition routes :: "(string \<times> seg list \<times> endpoint) list" where
  "routes =
     [(''GET'', [Lit ''healthz''], EHealthz),
      (''GET'', [Lit ''v1'', Lit ''status''], EStatus),
      (''GET'', [Lit ''v1'', Lit ''balance'', Wild ''pubkey''], EBalance),
      (''POST'', [Lit ''v1'', Lit ''tx''], ESendTx),
      (''GET'', [Lit ''v1'', Lit ''tx'', Wild ''pubkey'', Wild ''seq''], EGetTx),
      (''GET'', [Lit ''v1'', Lit ''peers''], EPeers),
      (''GET'', [Lit ''v1'', Lit ''witness'', Lit ''active''], EActiveWitnesses),
      (''POST'', [Lit ''v1'', Lit ''witness'', Lit ''register''], ERegisterWitnesses),
      (''POST'', [Lit ''v1'', Lit ''snapshot''], ECreateSnapshot),
      (''POST'', [Lit ''v1'', Lit ''faucet''], EFaucet)]"

text \<open>
  The documented matching of \<^verbatim>\<open>http.ServeMux\<close>: a literal matches itself, a wildcard one nonempty
  segment, the method \<^verbatim>\<open>GET\<close> also \<^verbatim>\<open>HEAD\<close>; a path that matches under another method only is a 405.
  A request's path is the list of its segments.
\<close>

fun matchSegs :: "seg list \<Rightarrow> string list \<Rightarrow> string list option" where
  "matchSegs [] [] = Some []"
| "matchSegs (Lit l # ps) (s # ss) = (if l = s then matchSegs ps ss else None)"
| "matchSegs (Wild w # ps) (s # ss) = (if s = [] then None else map_option ((#) s) (matchSegs ps ss))"
| "matchSegs _ _ = None"

record request =
  rq_Method :: string
  rq_Path :: "string list"
  rq_Body :: bytes

definition methodOk :: "string \<Rightarrow> string \<Rightarrow> bool" where
  "methodOk m r \<longleftrightarrow> m = r \<or> r = ''GET'' \<and> m = ''HEAD''"

datatype target = Found endpoint "string list" | MethodNotAllowed | NotFound

definition mux :: "string \<Rightarrow> string list \<Rightarrow> target" where
  "mux m path =
     (case filter (\<lambda>(r, ps, ep). matchSegs ps path \<noteq> None) routes of
        [] \<Rightarrow> NotFound
      | cands \<Rightarrow>
          (case filter (\<lambda>(r, ps, ep). methodOk m r) cands of
             [] \<Rightarrow> MethodNotAllowed
           | (r, ps, ep) # _ \<Rightarrow> Found ep (the (matchSegs ps path))))"

text \<open>The library's own answers carry a line of text, which is not modelled, and its content type.\<close>

definition plainText :: "(string \<times> string) list" where
  "plainText = [(''Content-Type'', ''text/plain; charset=utf-8'')]"

definition dispatch ::
  "('db, 'txn) net_env \<Rightarrow> api_env \<Rightarrow> step_ctx \<Rightarrow> error + bytes \<Rightarrow> 'db node \<Rightarrow> request \<Rightarrow>
     response result \<times> 'db node" where
  "dispatch NE AE cx rnd nd rq =
     (let plain = (\<lambda>r. (Ok r, nd)); now = cx_now cx; body = rq_Body rq in
      case mux (rq_Method rq) (rq_Path rq) of
        NotFound \<Rightarrow> plain \<lparr>rs_Status = 404, rs_Headers = plainText, rs_Body = None\<rparr>
      | MethodNotAllowed \<Rightarrow> plain \<lparr>rs_Status = 405, rs_Headers = plainText, rs_Body = None\<rparr>
      | Found ep args \<Rightarrow>
          (case ep of
             EHealthz \<Rightarrow> plain Healthz
           | EStatus \<Rightarrow> plain (Status nd)
           | EBalance \<Rightarrow> Balance NE now nd (args ! 0)
           | ESendTx \<Rightarrow> api_SendTx NE AE cx rnd nd body
           | EGetTx \<Rightarrow> api_GetTx NE now nd (args ! 0) (args ! 1)
           | EPeers \<Rightarrow> plain (Peers nd)
           | EActiveWitnesses \<Rightarrow> ActiveWitnesses NE now nd
           | ERegisterWitnesses \<Rightarrow> RegisterWitnesses NE AE now nd body
           | ECreateSnapshot \<Rightarrow> CreateSnapshot NE now nd
           | EFaucet \<Rightarrow> Faucet NE AE now nd body))"

definition corsHeaders :: "(string \<times> string) list" where
  "corsHeaders = [(''Access-Control-Allow-Origin'', ''*''), (''Content-Type'', ''application/json'')]"

text \<open>\<^verbatim>\<open>cors(mux)\<close>: the headers it sets can be set again by the handler. The logging wrapper around it
  changes nothing.\<close>

definition serve ::
  "('db, 'txn) net_env \<Rightarrow> api_env \<Rightarrow> step_ctx \<Rightarrow> error + bytes \<Rightarrow> 'db node \<Rightarrow> request \<Rightarrow>
     response result \<times> 'db node" where
  "serve NE AE cx rnd nd rq =
     (if rq_Method rq = ''OPTIONS''
      then (Ok \<lparr>rs_Status = 204, rs_Headers = corsHeaders, rs_Body = None\<rparr>, nd)
      else case dispatch NE AE cx rnd nd rq of
             (Ok r, nd') \<Rightarrow> (Ok (r\<lparr>rs_Headers := AList.merge corsHeaders (rs_Headers r)\<rparr>), nd')
           | (r, nd') \<Rightarrow> (r, nd'))"

text \<open>\<^verbatim>\<open>Server.Start\<close>, once \<^verbatim>\<open>ListenAndServe\<close> returned the error \<open>e\<close>, which it always does in the end.\<close>

definition ErrServerClosed :: error where "ErrServerClosed = LibError ''http: Server closed''"

definition Server_Start :: "error \<Rightarrow> unit result" where
  "Server_Start e = (if e \<noteq> ErrServerClosed then Err (Wrapf ''api server: %w'' [] e) else Ok ())"

end
