(* ===== verification/ApiProps.thy ===== *)
theory ApiProps
  imports Api
begin

text \<open>
  The HTTP API over a running node: every request is answered and keeps the node's invariant,
  reading requests change nothing, and what the writing ones do to the ledger and the active set.
\<close>

section \<open>Every request is answered\<close>

definition served ::
  "('db, 'txn) env \<Rightarrow> ('db, 'txn) badger_abs \<Rightarrow> 'db node \<Rightarrow> response result \<times> 'db node \<Rightarrow> bool" where
  "served E A nd out \<longleftrightarrow>
     (\<exists>resp nd'. out = (Ok resp, nd') \<and> node_ok E A nd' \<and> (no_edges nd \<longrightarrow> no_edges nd'))"

lemma served_Ok: "node_ok E A nd' \<Longrightarrow> (no_edges nd \<Longrightarrow> no_edges nd') \<Longrightarrow> served E A nd (Ok r, nd')"
  by (simp add: served_def)

lemma served_orElse:
  assumes "r \<noteq> Panic" and "r \<noteq> Blocked" and "node_ok E A nd'" and "no_edges nd \<Longrightarrow> no_edges nd'"
    and "\<And>a. r = Ok a \<Longrightarrow> served E A nd (f a)"
  shows "served E A nd (orElse r nd' bad f)"
  using assms by (cases r) (auto simp: orElse_def served_def)

lemma PubKeyFromHex_returns: "PubKeyFromHex s \<noteq> Panic" "PubKeyFromHex s \<noteq> Blocked"
  by (simp_all add: PubKeyFromHex_def split: option.splits)

lemma of_sum_returns: "of_sum x \<noteq> Panic" "of_sum x \<noteq> Blocked"
  by (simp_all split: sum.splits)

lemma value_or_zero_returns: "r \<noteq> Panic \<and> r \<noteq> Blocked \<Longrightarrow> value_or_zero r \<noteq> Panic"
  "r \<noteq> Panic \<and> r \<noteq> Blocked \<Longrightarrow> value_or_zero r \<noteq> Blocked"
  by (auto simp: value_or_zero_def split: outcome.splits)

lemma GetActiveWitnesses_returns:
  "GetActiveWitnesses B J db now \<noteq> Panic" "GetActiveWitnesses B J db now \<noteq> Blocked"
  by (auto simp: GetActiveWitnesses_def split: prod.splits option.splits sum.splits)

lemma GetTx_returns: "GetTx B J db now pk s \<noteq> Panic" "GetTx B J db now pk s \<noteq> Blocked"
  by (auto simp: GetTx_def split: prod.splits option.splits sum.splits)

lemma parseWitnesses_returns: "parseWitnesses now rs ws \<noteq> Panic \<and> parseWitnesses now rs ws \<noteq> Blocked"
proof (induction rs arbitrary: ws)
  case (Cons r rs)
  then show ?case
    using PubKeyFromHex_returns[of "wr_PubKey r"] by (cases "PubKeyFromHex (wr_PubKey r)") simp_all
qed simp

lemmas api_returns = PubKeyFromHex_returns of_sum_returns GetActiveWitnesses_returns GetTx_returns
  value_or_zero_returns


lemma node_store: "node_ok E A nd \<Longrightarrow> store_ok E A (nd_db nd)"
  by (simp add: node_ok_def core_ok_def)

lemma served_db:
  "node_ok E A nd \<Longrightarrow> store_ok E A db \<Longrightarrow> served E A nd (Ok r, set_db db nd)"
  by (rule served_Ok[OF node_ok_db]) simp_all

lemma reads_return:
  assumes "node_ok E A nd"
  shows "GetBalance (en_badger E) (nd_db nd) now pk \<noteq> Panic" "GetBalance (en_badger E) (nd_db nd) now pk \<noteq> Blocked"
    and "value_or_zero (GetBalance (en_badger E) (nd_db nd) now pk) \<noteq> Panic"
    and "value_or_zero (GetBalance (en_badger E) (nd_db nd) now pk) \<noteq> Blocked"
    and "value_or_zero (GetLatestSeq (en_badger E) (nd_db nd) now pk) \<noteq> Panic"
    and "value_or_zero (GetLatestSeq (en_badger E) (nd_db nd) now pk) \<noteq> Blocked"
  using chain.get_bal_no_panic[OF node_store[OF assms], of now pk]
    chain.get_seq_no_panic[OF node_store[OF assms], of now pk]
  by (simp_all add: value_or_zero_returns)

lemma Balance_served: "node_ok (ne_env NE) A nd \<Longrightarrow> served (ne_env NE) A nd (Balance NE now nd s)"
  unfolding Balance_def Let_def
  by (intro served_orElse served_Ok api_returns reads_return)

lemma api_GetTx_served: "node_ok (ne_env NE) A nd \<Longrightarrow> served (ne_env NE) A nd (api_GetTx NE now nd s t)"
  unfolding api_GetTx_def Let_def
  by (rule served_orElse; (intro api_returns)?)
    (auto intro!: served_orElse served_Ok api_returns split: prod.split option.split)

lemma ActiveWitnesses_served: "node_ok (ne_env NE) A nd \<Longrightarrow> served (ne_env NE) A nd (ActiveWitnesses NE now nd)"
  unfolding ActiveWitnesses_def Let_def by (intro served_orElse served_Ok api_returns)

lemma api_SendTx_served:
  assumes "node_ok (ne_env NE) A nd" and "nonce_draw rnd"
  shows "served (ne_env NE) A nd (api_SendTx NE AE cx rnd nd body)"
proof -
  have "served (ne_env NE) A nd (case SendTx NE cx rnd nd to amt of (r, nd') \<Rightarrow> orElse r nd' bad (\<lambda>tx. (Ok (f tx), nd')))"
    for to amt bad f
    using SendTx_ok[OF assms, of cx to amt]
    by (cases "SendTx NE cx rnd nd to amt")
      (auto simp: outcome_ok_def intro!: served_orElse served_Ok)
  with assms(1) show ?thesis
    unfolding api_SendTx_def by (intro served_orElse api_returns)
qed

lemma CreateSnapshot_served:
  assumes "node_ok (ne_env NE) A nd"
  shows "served (ne_env NE) A nd (CreateSnapshot NE now nd)"
proof -
  let ?E = "ne_env NE"
  have "served ?E A nd (case SaveSnapshot (en_badger ?E) (en_snap ?E) (nd_db nd) now snap of
      (None, db') \<Rightarrow> (Ok r, set_db db' nd) | (Some e, db') \<Rightarrow> (Ok (bad e), set_db db' nd))" for snap r bad
    using SaveSnapshot_ledger(2)[of "en_badger ?E" A "en_snap ?E" "nd_db nd" now snap] node_store[OF assms]
    by (auto intro!: served_db[OF assms] split: prod.split option.split)
  with assms show ?thesis
    unfolding CreateSnapshot_def Let_def by (intro served_orElse reads_return) simp_all
qed

lemma RegisterWitnesses_served:
  assumes "node_ok (ne_env NE) A nd"
  shows "served (ne_env NE) A nd (RegisterWitnesses NE AE now nd body)"
proof -
  let ?E = "ne_env NE"
  have "served ?E A nd (case SaveActiveWitnesses (en_badger ?E) (en_wits ?E) (nd_db nd) now ws of
      (None, db') \<Rightarrow> (Ok r, set_db db' nd) | (Some e, db') \<Rightarrow> (Ok (bad e), set_db db' nd))" for ws r bad
    using SaveActiveWitnesses_ledger(2)[of "en_badger ?E" A "en_wits ?E" "nd_db nd" now ws] node_store[OF assms]
    by (auto intro!: served_db[OF assms] split: prod.split option.split)
  with assms show ?thesis
    unfolding RegisterWitnesses_def Let_def
    by (intro served_orElse api_returns conjunct1[OF parseWitnesses_returns] conjunct2[OF parseWitnesses_returns])
qed

lemma Faucet_served:
  assumes "node_ok (ne_env NE) A nd"
  shows "served (ne_env NE) A nd (Faucet NE AE now nd body)"
proof -
  let ?E = "ne_env NE"
  have "served ?E A nd (case SaveBalance (en_badger ?E) (nd_db nd) now pk v of
      (None, db') \<Rightarrow> orElse (value_or_zero (GetBalance (en_badger ?E) db' now pk)) (set_db db' nd) bad1
          (\<lambda>bal. (Ok (f bal), set_db db' nd))
    | (Some e, db') \<Rightarrow> (Ok (bad e), set_db db' nd))" for pk v f bad bad1
  proof -
    obtain e db' where w: "SaveBalance (en_badger ?E) (nd_db nd) now pk v = (e, db')" by fastforce
    then have "store_ok ?E A db'"
      using chain.writes_keep_good(1)[OF node_store[OF assms], of now pk v] by simp
    then have ok: "node_ok ?E A (set_db db' nd)" by (rule node_ok_db[OF assms])
    then have s: "served ?E A nd (Ok r, set_db db' nd)" for r by (rule served_Ok) simp
    show ?thesis
    proof (cases e)
      case None
      have "served ?E A nd (orElse (value_or_zero (GetBalance (en_badger ?E) db' now pk)) (set_db db' nd) bad1
          (\<lambda>bal. (Ok (f bal), set_db db' nd)))"
        using reads_return(3,4)[OF ok, of now pk] ok s by (intro served_orElse) simp_all
      with w None show ?thesis by simp
    qed (simp add: w s)
  qed
  with assms show ?thesis
    unfolding Faucet_def Let_def by (intro served_orElse api_returns)
qed

lemma dispatch_served:
  assumes "node_ok (ne_env NE) A nd" and "nonce_draw rnd"
  shows "served (ne_env NE) A nd (dispatch NE AE cx rnd nd rq)"
proof -
  have plain: "served (ne_env NE) A nd (Ok r, nd)" for r using assms(1) by (rule served_Ok)
  show ?thesis
    unfolding dispatch_def Let_def
    by (auto split: target.split endpoint.split
        intro: plain assms Balance_served api_SendTx_served api_GetTx_served ActiveWitnesses_served
          RegisterWitnesses_served CreateSnapshot_served Faucet_served)
qed

lemma serve_served:
  assumes "node_ok (ne_env NE) A nd" and "nonce_draw rnd"
  shows "served (ne_env NE) A nd (serve NE AE cx rnd nd rq)"
  using dispatch_served[OF assms, of AE cx rq] assms(1)
  by (auto simp: serve_def served_def)

section \<open>A node with its API\<close>

datatype system_event = Call node_event | Http step_ctx request response

text \<open>The node's own calls and the requests its API serves, one after the other.\<close>

inductive system_step ::
  "('db, 'txn) net_env \<Rightarrow> api_env \<Rightarrow> 'db node \<Rightarrow> system_event \<Rightarrow> 'db node \<Rightarrow> bool"
  for NE :: "('db, 'txn) net_env" and AE :: api_env where
  call: "node_step NE nd e nd' \<Longrightarrow> system_step NE AE nd (Call e) nd'"
| http: "nonce_draw rnd \<Longrightarrow> serve NE AE cx rnd nd rq = (Ok resp, nd') \<Longrightarrow>
    system_step NE AE nd (Http cx rq resp) nd'"

inductive_cases system_stepE: "system_step NE AE nd e nd'"

lemma node_inv_system:
  assumes "node_inv NE A nd" and "system_step NE AE nd e nd'"
  shows "node_inv NE A nd'"
  using assms(2)
proof (cases rule: system_step.cases)
  case (call e)
  with node_inv_step assms(1) show ?thesis by blast
next
  case (http rnd cx rq resp)
  with serve_served[of NE A nd rnd AE cx rq] assms(1) show ?thesis
    by (simp add: node_inv_def served_def)
qed

interpretation systems: machine "fresh_node NE A" "system_step NE AE" "node_inv NE A" for NE A AE
  by unfold_locales (auto intro: node_inv_New node_inv_system)


section \<open>Reading requests\<close>

lemma snd_orElse: "snd s = nd \<Longrightarrow> (\<And>a. snd (f a) = nd) \<Longrightarrow> snd (orElse r (snd s) bad f) = nd"
  by (cases r) (simp_all add: orElse_def)

lemma orElse_same: "(\<And>a. snd (f a) = nd) \<Longrightarrow> snd (orElse r nd bad f) = nd"
  by (cases r) (simp_all add: orElse_def)

lemma reads_same:
  "snd (Balance NE now nd s) = nd" "snd (api_GetTx NE now nd s t) = nd" "snd (ActiveWitnesses NE now nd) = nd"
  unfolding Balance_def api_GetTx_def ActiveWitnesses_def Let_def
  by (auto intro!: orElse_same split: prod.split option.split)

lemma mux_method:
  assumes "mux m path = Found ep args" and "m \<in> {''GET'', ''HEAD''}"
  shows "ep \<in> {EHealthz, EStatus, EBalance, EGetTx, EPeers, EActiveWitnesses}"
proof -
  define C where "C = filter (\<lambda>(r, ps, ep). matchSegs ps path \<noteq> None) routes"
  from assms(1) obtain r ps xs where "filter (\<lambda>(r, ps, ep). methodOk m r) C = (r, ps, ep) # xs"
    unfolding mux_def C_def[symmetric] by (auto split: list.splits simp del: filter.simps)
  then have "(r, ps, ep) \<in> set (filter (\<lambda>(r, ps, ep). methodOk m r) C)" by simp
  then have "(r, ps, ep) \<in> set routes" "methodOk m r" by (auto simp: C_def)
  with assms(2) show ?thesis by (auto simp: routes_def methodOk_def)
qed

text \<open>Reading requests change nothing: whatever the path and the body, a request with the method
  \<open>GET\<close>, \<open>HEAD\<close> or \<open>OPTIONS\<close> leaves the node as it was.\<close>

theorem serve_read_only:
  assumes "rq_Method rq \<in> {''GET'', ''HEAD'', ''OPTIONS''}"
  shows "snd (serve NE AE cx rnd nd rq) = nd"
proof (cases "rq_Method rq \<in> {''GET'', ''HEAD''}")
  case True
  have "snd (dispatch NE AE cx rnd nd rq) = nd"
  proof (cases "mux (rq_Method rq) (rq_Path rq)")
    case (Found ep args)
    from mux_method[OF this True] Found show ?thesis
      by (auto simp: dispatch_def Let_def reads_same)
  qed (simp_all add: dispatch_def Let_def)
  then show ?thesis
    by (cases "dispatch NE AE cx rnd nd rq"; cases "fst (dispatch NE AE cx rnd nd rq)")
      (simp_all add: serve_def)
next
  case False
  with assms show ?thesis by (auto simp: serve_def)
qed

end
