(* ===== verification/NodeSamples.thy ===== *)
theory NodeSamples
  imports TxSamples Payments
begin

text \<open>
  Concrete nodes over the in-memory database of \<open>Db\<close> and the sample primitives of \<open>Crypto\<close>, and the
  properties of \<open>NodeProps\<close> and \<open>Payments\<close> applied to them.
\<close>

section \<open>A network and a node\<close>

definition sample_kp :: "8 word \<Rightarrow> keypair" where
  "sample_kp n = \<lparr>kp_Public = ed_public (ed_new_key sample_crypto [n]), kp_private = ed_new_key sample_crypto [n]\<rparr>"

lemma sample_kp_wf [simp]: "kp_wf sample_crypto (sample_kp n)"
  by (auto simp: kp_wf_def sample_kp_def)

lemma sample_kp_public: "kp_Public (sample_kp n) = be_word [n] + 1"
  by (simp add: sample_kp_def ed_public_def sample_crypto_def)

definition sample_kps :: "keypair list" where
  "sample_kps = [sample_kp 1, sample_kp 2, sample_kp 3]"

text \<open>Three witnesses are active; the JSON coding is left to constants, where a message is read it is
  the one that the case needs.\<close>

definition sample_net :: "wit_sig_msg codec \<Rightarrow> (mem, mem \<times> gtime) net_env" where
  "sample_net W =
     \<lparr>ne_env = sample_env\<lparr>en_wits :=
        \<lparr>marshal = (\<lambda>ws. Inr [1]),
         unmarshal = (\<lambda>b. Inr (map (\<lambda>k. \<lparr>w_PubKey = kp_Public k, w_Addr = [], w_AddedAt = 0\<rparr>) sample_kps))\<rparr>\<rparr>,
      ne_packet = sample_packet_codec 3,
      ne_pubkey = \<lparr>marshal = (\<lambda>_. Inr [2]), unmarshal = (\<lambda>_. Inr 9)\<rparr>,
      ne_nonceLock = \<lparr>marshal = (\<lambda>_. Inr [3]), unmarshal = (\<lambda>_. Inr \<lparr>nl_From = 3, nl_Nonce = 42\<rparr>)\<rparr>,
      ne_txVerify = \<lparr>marshal = (\<lambda>_. Inr [4]), unmarshal = (\<lambda>_. Inr \<lparr>tv_Tx = None, tv_Snapshot = None\<rparr>)\<rparr>,
      ne_witSig = W,
      ne_confirmed = \<lparr>marshal = (\<lambda>_. Inr [5]), unmarshal = (\<lambda>_. Inr \<lparr>cm_Tx = None\<rparr>)\<rparr>\<rparr>"

abbreviation no_sigs :: "wit_sig_msg codec" where
  "no_sigs \<equiv> \<lparr>marshal = (\<lambda>_. Inr [6]), unmarshal = (\<lambda>_. Inl (LibError ''json''))\<rparr>"

lemma sample_net_sel [simp]:
  "en_badger (ne_env (sample_net W)) = mem_badger" "en_crypto (ne_env (sample_net W)) = sample_crypto"
  "en_tx (ne_env (sample_net W)) = sample_codec" "ne_witSig (sample_net W) = W"
  by (simp_all add: sample_net_def)

definition sample_node :: "mem node" where
  "sample_node = NewNode sample_key
     [(balKey (kp_Public sample_key), PutUint64 5000, None), (activeWitnessesKey, [1], None)]"

abbreviation sample_cx :: step_ctx where
  "sample_cx \<equiv> \<lparr>cx_now = 0, cx_draws = (\<lambda>_ _. 0)\<rparr>"

lemma sample_key_private [simp]: "length (kp_private sample_key) = PrivateKeySize"
  by (simp add: sample_key_def sample_crypto_def PrivateKeySize_def)

lemma sample_store_ok:
  "chain_wf (ab_db mem_abs [(balKey (kp_Public sample_key), PutUint64 5000, None), (activeWitnessesKey, [1], None)])"
  by (simp add: mem_abs_def chain_wf_update PutUint64_def)

lemma sample_fresh [simp]: "fresh_node (sample_net W) mem_abs sample_node"
  unfolding fresh_node_def sample_node_def
  by (rule exI, rule exI, rule conjI, rule refl) (simp add: sample_store_ok)

section \<open>Filling the peer table\<close>

lemma AList_update_new: "k \<notin> fst ` set al \<Longrightarrow> AList.update k v al = al @ [(k, v)]"
  by (induction al) auto

lemma join_next:
  assumes "nd_peers nd = map (\<lambda>k. (of_nat k, k)) [0..<n]" and "nd_next nd = n" and "n < MaxPeers"
  shows "\<exists>nd'. node_step NE nd (Join (of_nat n) []) nd'
    \<and> nd_peers nd' = map (\<lambda>k. (of_nat k, k)) [0..<Suc n] \<and> nd_next nd' = Suc n
    \<and> nd_heap nd' = (nd_heap nd)(n \<mapsto> NewPeer (of_nat n) []) \<and> nd_gossip nd' = nd_gossip nd
    \<and> nd_tp nd' = nd_tp nd \<and> nd_kp nd' = nd_kp nd"
proof -
  obtain nd1 where al: "allocPeer nd (of_nat n) [] = (n, nd1)"
    and nd1: "nd1 = nd\<lparr>nd_heap := (nd_heap nd)(n \<mapsto> NewPeer (of_nat n) []), nd_next := n + 1\<rparr>"
    using assms(2) by (simp add: allocPeer_def)
  have "(of_nat n :: pubkey) \<noteq> of_nat k" if "k < n" for k
  proof -
    have "2 ^ 6 \<le> (2::nat) ^ 256" by (rule power_increasing) simp_all
    then show ?thesis using that assms(3) by (simp add: MaxPeers_def word_of_nat_eq_iff take_bit_nat_eq_self)
  qed
  then have "AList.update (of_nat n) n (nd_peers nd1) = map (\<lambda>k. (of_nat k, k)) [0..<Suc n]"
    using assms(1) nd1 by (subst AList_update_new) fastforce+
  then have "addPeer nd1 n = (Ok (), nd1\<lparr>nd_peers := map (\<lambda>k. (of_nat k, k)) [0..<Suc n]\<rparr>)"
    using assms(1,3) nd1 by (simp add: addPeer_def NewPeer_def)
  from node_step.join[OF al this] nd1 show ?thesis
    by (intro exI[of _ "nd1\<lparr>nd_peers := map (\<lambda>k. (of_nat k, k)) [0..<Suc n]\<rparr>"]) simp
qed

lemma peers_fill:
  "n \<le> MaxPeers \<Longrightarrow> \<exists>es nd. runs (node_step NE) (NewNode kp db) es nd
     \<and> nd_peers nd = map (\<lambda>k. (of_nat k, k)) [0..<n] \<and> nd_next nd = n
     \<and> (\<forall>k < n. nd_heap nd k = Some (NewPeer (of_nat k) []))
     \<and> nd_gossip nd = NewGossip"
proof (induction n)
  case 0
  then show ?case by (intro exI[of _ "[]"]) (simp add: NewNode_def)
next
  case (Suc n)
  then obtain es nd where run: "runs (node_step NE) (NewNode kp db) es nd"
    and nd: "nd_peers nd = map (\<lambda>k. (of_nat k, k)) [0..<n]" "nd_next nd = n"
      "\<forall>k < n. nd_heap nd k = Some (NewPeer (of_nat k) [])" "nd_gossip nd = NewGossip"
    by (meson Suc_leD)
  from Suc.prems have "n < MaxPeers" by simp
  from join_next[OF nd(1,2) this, of NE] obtain nd' where
    step: "node_step NE nd (Join (of_nat n) []) nd'"
    and nd': "nd_peers nd' = map (\<lambda>k. (of_nat k, k)) [0..<Suc n]" "nd_next nd' = Suc n"
      "nd_heap nd' = (nd_heap nd)(n \<mapsto> NewPeer (of_nat n) [])" "nd_gossip nd' = nd_gossip nd"
    by blast
  from runs_snoc[OF run step] nd nd' show ?case
    by (intro exI[of _ "es @ [Join (of_nat n) []]"] exI[of _ nd'])
      (auto simp: less_Suc_eq simp del: upt_Suc)
qed

theorem addPeer_full_hangs_witness:
  "\<exists>es nd. runs (node_step (sample_net no_sigs)) sample_node es nd \<and> PeerCount nd = 50
    \<and> fst (addPeer (snd (allocPeer nd 77 [])) 50) = Blocked"
proof -
  obtain es nd where run: "runs (node_step (sample_net no_sigs)) sample_node es nd"
    and nd: "nd_peers nd = map (\<lambda>k. (of_nat k, k)) [0..<50]" "nd_next nd = 50"
    using peers_fill[of 50 "sample_net no_sigs" sample_key] unfolding sample_node_def MaxPeers_def by blast
  have c: "PeerCount nd = 50" using nd(1) unfolding PeerCount_def by (simp only: length_map length_upt)
  have "allocPeer nd 77 [] = (50, snd (allocPeer nd 77 []))" using nd(2) by (simp add: allocPeer_def)
  from addPeer_full_hangs[OF sample_fresh run _ this] c run show ?thesis by (auto simp: MaxPeers_def)
qed

theorem dag_stays_empty_witness:
  "\<exists>es nd. runs (node_step (sample_net no_sigs)) sample_node es nd \<and> es \<noteq> [] \<and> dm_edges (tp_dag (nd_tp nd)) = []"
proof -
  obtain nd where "node_step (sample_net no_sigs) sample_node (Join 0 []) nd"
    using join_next[of sample_node 0 "sample_net no_sigs"]
    by (auto simp: sample_node_def NewNode_def MaxPeers_def)
  then have run: "runs (node_step (sample_net no_sigs)) sample_node ([] @ [Join 0 []]) nd"
    by (simp add: runs_snoc_iff del: append_Nil)
  from dag_stays_empty[OF sample_fresh run] run show ?thesis by blast
qed


theorem null_confirmation_panics_witness:
  "fst (handlePacket (sample_net no_sigs) sample_cx sample_node 0
     \<lparr>pk_Type = PacketTxConfirmed, pk_MsgID = 7, pk_Payload = []\<rparr>) = Panic"
  by (rule null_confirmation_panics[of _ _ _ "\<lparr>cm_Tx = None\<rparr>"])
    (simp_all add: sample_net_def sample_node_def NewNode_def NewGossip_def)

section \<open>A payment\<close>

lemma sample_node_sel [simp]:
  "nd_kp sample_node = sample_key" "nd_peers sample_node = []" "nd_pending sample_node = (\<lambda>_. None)"
  "tp_dag (nd_tp sample_node) = NewDAGManager" "nd_gossip sample_node = NewGossip"
  "nd_db sample_node = [(balKey (kp_Public sample_key), PutUint64 5000, None), (activeWitnessesKey, [1], None)]"
  by (simp_all add: sample_node_def NewNode_def)

lemma sample_node_ok [simp]: "node_ok (ne_env (sample_net W)) mem_abs sample_node" "no_edges sample_node"
  using node_inv_New[OF sample_fresh] by (simp_all add: node_inv_def)

lemma sample_reads [simp]:
  "GetBalance mem_badger (nd_db sample_node) now (kp_Public sample_key) = Ok 5000"
  "GetLatestSeq mem_badger (nd_db sample_node) now (kp_Public sample_key) = Ok 0"
  by (simp_all add: mem_GetBalance GetLatestSeq_def read_u64_def mem_DB_Get visible_def live_def)

lemma sample_node_build:
  "\<exists>tx. \<forall>W. BuildTx (ne_env (sample_net W)) (nd_tp sample_node) 0 (Inr (PutUint64 42)) sample_key 5 1000 = Ok tx"
proof -
  have "\<exists>tx'. SignTx sample_crypto sample_key tx = Ok tx'" for tx
    using kps.sign_Ok[of sample_crypto sample_key] by (auto simp: SignTx_Ok)
  then show ?thesis
    by (simp add: BuildTx_def ValidateAmount_def SafeAdd_def BondAmount_def calcBond_def
        bondDivisor_def MaxAmount_def del: sample_node_sel(6))
qed

lemma no_peers_broadcast: "nd_peers nd = [] \<Longrightarrow> broadcast NE draws nd pkt ex = (Ok (), nd)"
  by (simp add: broadcast_def SelectPeers_def)

lemma mem_Lock:
  assumes "visible now (map_of db) (nonceLockKey pk nonce) = None"
  shows "Lock mem_badger db now pk nonce
    = (None, AList.update (nonceLockKey pk nonce) ([1], Some ((now + nonceLockTTL) div Second * Second)) db)"
  using assms by (simp add: Lock_def mem_DB_Get DB_SetWithTTL_def) (simp add: mem_badger_def)

lemma sample_payment:
  "\<exists>tx nd. (\<forall>W. SendTx (sample_net W) sample_cx (Inr (PutUint64 42)) sample_node 5 1000 = (Ok tx, nd))
     \<and> (\<forall>W now. GetActiveSet mem_badger (en_wits (ne_env (sample_net W))) (nd_db nd) now
          = Ok (kp_Public ` set sample_kps))
     \<and> nd_gossip nd = NewGossip"
proof -
  obtain tx where b: "\<And>W. BuildTx (ne_env (sample_net W)) (nd_tp sample_node) 0 (Inr (PutUint64 42)) sample_key 5 1000 = Ok tx"
    using sample_node_build by blast
  define db' where "db' = AList.update (nonceLockKey (tx_From tx) (tx_Nonce tx)) ([1], Some (nonceLockTTL div Second * Second)) (nd_db sample_node)"
  have l: "Lock mem_badger (nd_db sample_node) 0 (tx_From tx) (tx_Nonce tx) = (None, db')"
    using mem_Lock[of 0 "nd_db sample_node" "tx_From tx" "tx_Nonce tx"] by (simp add: visible_def db'_def)
  have db': "map_of db' activeWitnessesKey = Some ([1], None)"
      "\<And>now. GetBalance mem_badger db' now (kp_Public sample_key) = Ok 5000"
      "\<And>now. GetLatestSeq mem_badger db' now (kp_Public sample_key) = Ok 0"
    by (simp_all add: db'_def update_conv' mem_GetBalance GetLatestSeq_def read_u64_def mem_DB_Get
        visible_def live_def)
  let ?nd = "(set_db db' sample_node)\<lparr>nd_pending := (\<lambda>_. None)(tx_Hash tx \<mapsto>
      \<lparr>pm_tx = tx, pm_sigs = [], pm_confirmed = False\<rparr>)\<rparr>"
  have send: "SendTx (sample_net W) sample_cx (Inr (PutUint64 42)) sample_node 5 1000 = (Ok tx, ?nd)" for W
    using b l db' by (simp add: SendTx_def AcquireNonceLock_def andThen_def no_peers_broadcast
        value_or_zero_def Let_def del: sample_node_sel(6))
  have "GetActiveSet mem_badger (en_wits (ne_env (sample_net W))) (nd_db ?nd) now = Ok (kp_Public ` set sample_kps)" for W now
    using db' by (simp add: GetActiveSet_def GetActiveWitnesses_def mem_DB_Get visible_def live_def sample_net_def
        image_image)
  with send show ?thesis by (intro exI[of _ tx] exI[of _ ?nd]) simp
qed

text \<open>The three witnesses sign, and the coding of signature messages reads their packets.\<close>

definition sig_packet :: "nat \<Rightarrow> packet" where
  "sig_packet n = \<lparr>pk_Type = PacketTxWitnessSig, pk_MsgID = 0, pk_Payload = [of_nat n]\<rparr>"

definition sig_codec :: "hash32 \<Rightarrow> witness_signature list \<Rightarrow> wit_sig_msg codec" where
  "sig_codec h ss = \<lparr>marshal = (\<lambda>_. Inr [6]),
     unmarshal = (\<lambda>b. Inr \<lparr>wm_TxHash = h, wm_Sig = ss ! unat (hd b)\<rparr>)\<rparr>"

lemma sig_codec_reads [simp]:
  "unmarshal (sig_codec h ss) (pk_Payload (sig_packet 0)) = Inr \<lparr>wm_TxHash = h, wm_Sig = ss ! 0\<rparr>"
  "unmarshal (sig_codec h ss) (pk_Payload (sig_packet 1)) = Inr \<lparr>wm_TxHash = h, wm_Sig = ss ! 1\<rparr>"
  "unmarshal (sig_codec h ss) (pk_Payload (sig_packet (Suc 0))) = Inr \<lparr>wm_TxHash = h, wm_Sig = ss ! Suc 0\<rparr>"
  "unmarshal (sig_codec h ss) (pk_Payload (sig_packet 2)) = Inr \<lparr>wm_TxHash = h, wm_Sig = ss ! 2\<rparr>"
  by (simp_all add: sig_codec_def sig_packet_def)

lemma sample_kps_distinct:
  "distinct [kp_Public (sample_kp 1), kp_Public (sample_kp 2), kp_Public (sample_kp 3)]"
  "kp_Public sample_key \<noteq> 5"
proof -
  have "kp_Public sample_key = kp_Public (sample_kp 7)" by (simp add: sample_key_def sample_kp_def)
  then show "kp_Public sample_key \<noteq> 5" by (simp add: sample_kp_public be_word_def)
qed (simp add: sample_kp_public be_word_def)

lemma sample_kps_publics:
  "{kp_Public (sample_kp 1), kp_Public (sample_kp 2), kp_Public (sample_kp 3)} \<subseteq> kp_Public ` set sample_kps"
  by (simp add: sample_kps_def)

lemma nonce_draw_PutUint64: "nonce_draw (Inr (PutUint64 n))"
  by (simp add: nonce_draw_def PutUint64_def)

lemma sample_sign: "\<exists>s. SignAsWitness sample_crypto (sample_kp n) h 0 True = Ok s"
  using kps.sign_Ok[of sample_crypto "sample_kp n" "witnessMsg h 0 True"] by (auto simp: SignAsWitness_def)

lemma sample_good:
  obtains s1 s2 s3 where "SignAsWitness sample_crypto (sample_kp 1) h 0 True = Ok s1"
    "SignAsWitness sample_crypto (sample_kp 2) h 0 True = Ok s2"
    "SignAsWitness sample_crypto (sample_kp 3) h 0 True = Ok s3"
    "3 \<le> card (good_witnesses sample_crypto [s1, s2, s3] h (kp_Public ` set sample_kps))"
proof -
  obtain s1 s2 s3 where s: "SignAsWitness sample_crypto (sample_kp 1) h 0 True = Ok s1"
    "SignAsWitness sample_crypto (sample_kp 2) h 0 True = Ok s2"
    "SignAsWitness sample_crypto (sample_kp 3) h 0 True = Ok s3"
    using sample_sign by meson
  show ?thesis
    by (rule that[OF s three_good[OF sample_crypto_ok _ _ _ s sample_kps_distinct(1) sample_kps_publics]])
      simp_all
qed

theorem payment_completes_witness:
  "\<exists>(NE :: (mem, mem \<times> gtime) net_env) tx nd1 nd2 sigs. confirmTx NE sample_cx nd1 tx sigs = (Ok (), nd2)
     \<and> (tx, sigs) \<in> set (nd_spawned nd1)
     \<and> unat (balance (led mem_abs (nd_db nd2)) 5)
         = unat (balance (led mem_abs (nd_db sample_node)) 5) + 1000"
proof -
  obtain tx nd where sp: "\<And>W. SendTx (sample_net W) sample_cx (Inr (PutUint64 42)) sample_node 5 1000 = (Ok tx, nd)"
    "\<And>W now. GetActiveSet mem_badger (en_wits (ne_env (sample_net W))) (nd_db nd) now
       = Ok (kp_Public ` set sample_kps)" "nd_gossip nd = NewGossip"
    using sample_payment by blast
  obtain s1 s2 s3 where s: "SignAsWitness sample_crypto (sample_kp 1) (tx_Hash tx) 0 True = Ok s1"
    "SignAsWitness sample_crypto (sample_kp 2) (tx_Hash tx) 0 True = Ok s2"
    "SignAsWitness sample_crypto (sample_kp 3) (tx_Hash tx) 0 True = Ok s3"
    by (rule sample_good)
  let ?NE = "sample_net (sig_codec (tx_Hash tx) [s1, s2, s3])"
  have nd: "node_ok (ne_env ?NE) mem_abs nd"
    using SendTx_ok[of ?NE mem_abs sample_node "Inr (PutUint64 42)" sample_cx 5 1000] sp(1)
    by (simp add: nonce_draw_def outcome_ok_def PutUint64_def)
  then have wf: "chain_wf (ab_db mem_abs (nd_db nd))" by (simp add: node_ok_def core_ok_def)
  have bal: "balance (led mem_abs (nd_db sample_node)) 5 = 0"
    using sample_kps_distinct(2) by (simp add: mem_abs_def balance_ledger_of cell_def)
  let ?nd1 = "foldl (\<lambda>n p. snd (handleWitnessSig ?NE sample_cx n p)) nd [sig_packet 0, sig_packet 1, sig_packet 2]"
  have reads: "is_ok (GetBalance mem_badger (nd_db nd) 0 pk)" for pk
    using mem_read_ok[OF wf] by simp
  have "\<exists>nd2. confirmTx ?NE sample_cx ?nd1 tx [s1, s2, s3] = (Ok (), nd2)
    \<and> (tx, [s1, s2, s3]) \<in> set (nd_spawned ?nd1)
    \<and> unat (balance (led mem_abs (nd_db nd2)) (kp_Public (nd_kp sample_node))) + cost tx
        = unat (balance (led mem_abs (nd_db sample_node)) (kp_Public (nd_kp sample_node)))
    \<and> unat (balance (led mem_abs (nd_db nd2)) 5)
        = unat (balance (led mem_abs (nd_db sample_node)) 5) + unat (1000 :: amount)"
  proof (rule payment_completes[of ?NE mem_abs sample_node "Inr (PutUint64 42)" sample_cx 5 1000 tx nd
        "sample_kp 1" "sample_kp 2" "sample_kp 3" 0 s1 0 s2 0 s3 "sig_packet 0" "sig_packet 1" "sig_packet 2"
        _ sample_cx "kp_Public ` set sample_kps"])
    show "nonce_draw (Inr (PutUint64 42))" by (rule nonce_draw_PutUint64)
    show "distinct [kp_Public (sample_kp 1), kp_Public (sample_kp 2), kp_Public (sample_kp 3)]"
      by (rule sample_kps_distinct)
    show "5 \<noteq> kp_Public (nd_kp sample_node)"
      using sample_kps_distinct(2) by (metis sample_node_sel(1))
    show "unat (balance (led mem_abs (nd_db sample_node)) 5) + unat (1000 :: amount) \<le> unat MaxAmount"
      using unat_MaxAmount by (simp only: bal) simp
    show "SendTx ?NE sample_cx (Inr (PutUint64 42)) sample_node 5 1000 = (Ok tx, nd)" by (rule sp(1))
  qed (use s sp(2) reads mem_ConfirmTxBatch sample_kps_publics in
      \<open>simp_all only: sample_net_sel sample_node_ok sample_crypto_ok sample_kp_wf sample_key_wf
        sample_node_sel(1) sig_codec_reads step_ctx.simps, simp_all\<close>)
  then have "\<exists>nd2. confirmTx ?NE sample_cx ?nd1 tx [s1, s2, s3] = (Ok (), nd2)
    \<and> (tx, [s1, s2, s3]) \<in> set (nd_spawned ?nd1)
    \<and> unat (balance (led mem_abs (nd_db nd2)) 5)
        = unat (balance (led mem_abs (nd_db sample_node)) 5) + 1000" by (elim ex_forward) simp
  then obtain nd2 where c: "confirmTx ?NE sample_cx ?nd1 tx [s1, s2, s3] = (Ok (), nd2)"
    "(tx, [s1, s2, s3]) \<in> set (nd_spawned ?nd1)"
    "unat (balance (led mem_abs (nd_db nd2)) 5) = unat (balance (led mem_abs (nd_db sample_node)) 5) + 1000"
    by (elim exE conjE) (rule that)
  show ?thesis
    by (rule exI[of _ ?NE], rule exI[of _ tx], rule exI[of _ ?nd1], rule exI[of _ nd2],
        rule exI[of _ "[s1, s2, s3]"]) (simp only: c simp_thms)
qed

section \<open>The quorum and what is sent\<close>

theorem confirmTx_needs_quorum_witness:
  "confirmTx (sample_net no_sigs) sample_cx sample_node (pay 5) [] = (Ok (), sample_node)"
  by (rule confirmTx_needs_quorum) (simp add: good_witnesses_def)

text \<open>A node whose store has account 3 with 5000 and the three witnesses registered.\<close>

definition rich_node :: "mem node" where
  "rich_node = NewNode sample_key
     [(balKey 3, PutUint64 5000, None), (balKey 5, PutUint64 70, None), (activeWitnessesKey, [1], None)]"

lemma rich_store_ok:
  "chain_wf (ab_db mem_abs [(balKey 3, PutUint64 5000, None), (balKey 5, PutUint64 70, None), (activeWitnessesKey, [1], None)])"
  by (simp add: mem_abs_def chain_wf_update PutUint64_def)

lemma rich_node_wf [simp]: "chain_wf (ab_db mem_abs (nd_db rich_node))"
  using rich_store_ok by (simp add: rich_node_def NewNode_def)

lemma rich_node_ok [simp]: "node_ok (ne_env (sample_net W)) mem_abs rich_node"
proof -
  have "fresh_node (sample_net W) mem_abs rich_node"
    unfolding fresh_node_def rich_node_def
    by (rule exI, rule exI, rule conjI, rule refl) (simp add: rich_store_ok)
  from node_inv_New[OF this] show ?thesis by (simp add: node_inv_def)
qed

lemma rich_node_witnesses:
  "GetActiveSet mem_badger (en_wits (ne_env (sample_net W))) (nd_db rich_node) now = Ok (kp_Public ` set sample_kps)"
  by (simp add: rich_node_def NewNode_def GetActiveSet_def GetActiveWitnesses_def mem_DB_Get visible_def
      live_def sample_net_def image_image)


definition junk :: witness_signature where
  "junk = \<lparr>ws_WitnessPubKey = 0, ws_DAGTipAtSign = 0, ws_NonceLockSeen = False, ws_Sig = 0\<rparr>"

theorem junk_signatures_kill_payment_witness:
  "\<exists>(NE :: (mem, mem \<times> gtime) net_env) nd tx nd3. SendTx NE sample_cx (Inr (PutUint64 42)) sample_node 5 1000 = (Ok tx, nd)
     \<and> nd3 = foldl (\<lambda>n p. snd (handleWitnessSig NE sample_cx n p)) nd [sig_packet 0, sig_packet 1, sig_packet 2]
     \<and> nd_pending nd3 (tx_Hash tx) = None \<and> confirmTx NE sample_cx nd3 tx [junk, junk, junk] = (Ok (), nd3)"
proof -
  obtain tx nd where sp: "\<And>W. SendTx (sample_net W) sample_cx (Inr (PutUint64 42)) sample_node 5 1000 = (Ok tx, nd)"
    using sample_payment by blast
  let ?NE = "sample_net (sig_codec (tx_Hash tx) [junk, junk, junk])"
  let ?nd3 = "foldl (\<lambda>n p. snd (handleWitnessSig ?NE sample_cx n p)) nd [sig_packet 0, sig_packet 1, sig_packet 2]"
  from SendTx_effect[of ?NE mem_abs sample_node, OF _ _ _ sp] have
    p: "nd_pending nd (tx_Hash tx) = Some \<lparr>pm_tx = tx, pm_sigs = [], pm_confirmed = False\<rparr>" by simp
  have g: "good_witnesses sample_crypto [junk, junk, junk] h S = {}" for h S
    by (auto simp: good_witnesses_def junk_def)
  from p have "nd_pending ?nd3 (tx_Hash tx) = None
      \<and> nd_spawned ?nd3 = nd_spawned nd @ [(pm_tx \<lparr>pm_tx = tx, pm_sigs = [], pm_confirmed = False\<rparr>, [junk, junk, junk])]
      \<and> confirmTx ?NE sample_cx ?nd3 (pm_tx \<lparr>pm_tx = tx, pm_sigs = [], pm_confirmed = False\<rparr>) [junk, junk, junk] = (Ok (), ?nd3)"
    by (rule junk_signatures_kill_payment[OF _ _ _ _ _ _ _ refl]) (simp_all add: g)
  then have c: "nd_pending ?nd3 (tx_Hash tx) = None" "confirmTx ?NE sample_cx ?nd3 tx [junk, junk, junk] = (Ok (), ?nd3)"
    by simp_all
  show ?thesis
    by (rule exI[of _ ?NE], rule exI[of _ nd], rule exI[of _ tx], rule exI[of _ ?nd3])
      (simp only: sp c refl simp_thms)
qed

theorem nonce_locks_starve_witness:
  "\<exists>nd'. nd_gossip nd' \<noteq> NewGossip \<and>
     handlePacket (sample_net no_sigs) sample_cx nd' 0
       \<lparr>pk_Type = PacketTxVerify, pk_MsgID = 7, pk_Payload = []\<rparr> = (Ok (), nd')"
proof -
  let ?p = "\<lparr>pk_Type = PacketNonceLock, pk_MsgID = 7, pk_Payload = []\<rparr>"
  define nd' where "nd' = foldl (\<lambda>x p. snd (handleNonceLock (sample_net no_sigs) sample_cx x p)) sample_node (replicate 6 ?p)"
  have "handlePacket (sample_net no_sigs) sample_cx nd' 0
       \<lparr>pk_Type = PacketTxVerify, pk_MsgID = 7, pk_Payload = []\<rparr> = (Ok (), nd')"
    by (rule nonce_locks_starve[of sample_node 7 "replicate 6 ?p", OF _ _ _ nd'_def])
      (simp_all add: NewGossip_def)
  moreover have "nd_gossip nd' 7 \<noteq> None"
    using nonce_locks_count[of "replicate 6 ?p" 7 sample_node 0 "sample_net no_sigs" sample_cx]
    by (auto simp: nd'_def NewGossip_def gossipHops_def)
  ultimately show ?thesis by (intro exI[of _ nd']) (auto simp: NewGossip_def)
qed

theorem SendTx_starts_witness:
  "\<exists>tx nd. SendTx (sample_net no_sigs) sample_cx (Inr (PutUint64 42)) sample_node 5 1000 = (Ok tx, nd)
     \<and> nd_pending nd (tx_Hash tx) \<noteq> None \<and> tx_Sequence tx = lg_seq (led mem_abs (nd_db sample_node)) (kp_Public sample_key) + 1"
proof -
  obtain tx nd where sp: "SendTx (sample_net no_sigs) sample_cx (Inr (PutUint64 42)) sample_node 5 1000 = (Ok tx, nd)"
    using sample_payment by blast
  from SendTx_starts[of "sample_net no_sigs" mem_abs sample_node, OF _ _ _ sp] sp show ?thesis by simp
qed

end
