(* ===== verification/ApiEffects.thy ===== *)
theory ApiEffects
  imports ApiProps NodeSamples
begin

text \<open>
  What the requests of the HTTP API do to the ledger and the active set, and what they report of
  it; with a concrete API over the nodes of \<open>NodeSamples\<close>.
\<close>

section \<open>Paths with keys and numbers\<close>

lemma PubKeyFromHex_hex [simp]: "PubKeyFromHex (hex_encode (arr32 pk)) = Ok pk"
  by (simp add: PubKeyFromHex_def)

lemma hex_nonempty: "hex_encode (arr32 pk) \<noteq> []"
proof
  assume "hex_encode (arr32 pk) = []"
  then have "PubKeyFromHex [] = Ok pk" using PubKeyFromHex_hex[of pk] by (simp only:)
  then show False by (simp add: PubKeyFromHex_def)
qed

lemma mux_getTx:
  assumes "p \<noteq> []" and "q \<noteq> []"
  shows "mux ''GET'' [''v1'', ''tx'', p, q] = Found EGetTx [p, q]"
  using assms by (simp add: mux_def routes_def methodOk_def)

lemma mux_balance: "p \<noteq> [] \<Longrightarrow> mux ''GET'' [''v1'', ''balance'', p] = Found EBalance [p]"
  by (simp add: mux_def routes_def methodOk_def)

lemma mux_post:
  "mux ''POST'' [''v1'', ''faucet''] = Found EFaucet []"
  "mux ''POST'' [''v1'', ''witness'', ''register''] = Found ERegisterWitnesses []"
  "mux ''POST'' [''v1'', ''tx''] = Found ESendTx []"
  by (simp_all add: mux_def routes_def methodOk_def)

section \<open>Reading a transaction\<close>

lemma GetTx_ledger:
  assumes "store_ok E A db" and "GetTx (en_badger E) (en_tx E) db now pk seq = Ok r"
  shows "r = (case lg_tx (led A db) pk seq of None \<Rightarrow> None
      | Some data \<Rightarrow> Some (case unmarshal (en_tx E) data of Inr tx \<Rightarrow> tx))"
    and "lg_tx (led A db) pk seq = Some data \<Longrightarrow> \<exists>tx. unmarshal (en_tx E) data = Inr tx"
proof -
  obtain v where g: "DB_Get (en_badger E) db now (txKey pk seq) = (v, None)"
    using assms(2) by (cases "DB_Get (en_badger E) db now (txKey pk seq)"; cases "snd (DB_Get (en_badger E) db now (txKey pk seq))")
      (auto simp: GetTx_def split: option.splits)
  have "permanent (ab_db A db (txKey pk seq))" using assms(1) by (simp add: chain_wf_def)
  then have "v = lg_tx (led A db) pk seq"
    using dbkv.get_value[of "en_badger E" A db now "txKey pk seq" v] g assms(1)
    by (auto simp: ledger_of_sel visible_def live_def permanent_def split: option.splits)
  with g assms(2) show "r = (case lg_tx (led A db) pk seq of None \<Rightarrow> None
      | Some data \<Rightarrow> Some (case unmarshal (en_tx E) data of Inr tx \<Rightarrow> tx))"
    and "lg_tx (led A db) pk seq = Some data \<Longrightarrow> \<exists>tx. unmarshal (en_tx E) data = Inr tx"
    by (auto simp: GetTx_def split: option.splits sum.splits)
qed

text \<open>C38. A transaction of the ledger is served: \<open>GET /v1/tx/<pubkey>/<seq>\<close>, with the key in hex and the
  sequence in decimal, answers 200 with the transaction that the ledger has there, or 404 when it
  has none, as long as the store reads without an error.\<close>

theorem GetTx_over_http:
  assumes "node_ok (ne_env NE) A nd"
    and "is_ok (GetTx (en_badger (ne_env NE)) (en_tx (ne_env NE)) (nd_db nd) (cx_now cx) pk seq)"
    and "rq = \<lparr>rq_Method = ''GET'', rq_Path = [''v1'', ''tx'', hex_encode (arr32 pk), digits (unat seq)], rq_Body = b\<rparr>"
  shows "case lg_tx (led A (nd_db nd)) pk seq of
      None \<Rightarrow> (\<exists>resp. serve NE AE cx rnd nd rq = (Ok resp, nd) \<and> rs_Status resp = 404)
    | Some data \<Rightarrow> (\<exists>tx. unmarshal (en_tx (ne_env NE)) data = Inr tx \<and>
        serve NE AE cx rnd nd rq =
          (Ok \<lparr>rs_Status = 200, rs_Headers = corsHeaders, rs_Body = Some (JTx tx)\<rparr>, nd))"
proof -
  let ?E = "ne_env NE"
  from assms(2) obtain r where r: "GetTx (en_badger ?E) (en_tx ?E) (nd_db nd) (cx_now cx) pk seq = Ok r"
    by (auto simp: is_ok_iff)
  note l = GetTx_ledger[OF node_store[OF assms(1)] r]
  note p = ParseUint_print[of seq]
  have m: "mux ''GET'' [''v1'', ''tx'', hex_encode (arr32 pk), digits (unat seq)]
      = Found EGetTx [hex_encode (arr32 pk), digits (unat seq)]"
    using digits_ok[of "unat seq"] by (intro mux_getTx hex_nonempty) simp
  have "serve NE AE cx rnd nd rq =
      (Ok ((case r of None \<Rightarrow> httpErr 404 ''NOT_FOUND'' (JStr ''transaction not found'')
            | Some tx \<Rightarrow> respond 200 (JTx tx))\<lparr>rs_Headers := corsHeaders\<rparr>), nd)"
    using m p r
    by (cases r) (simp_all add: assms(3) serve_def dispatch_def api_GetTx_def orElse_def Let_def httpErr_def
        respond_def AList.merge_conv')
  with l show ?thesis
    by (cases "lg_tx (led A (nd_db nd)) pk seq") (auto simp: httpErr_def respond_def)
qed

section \<open>The faucet\<close>

text \<open>The faucet sets a balance, it does not add to one: a well-formed request answered with 200
  leaves the account with exactly the requested amount, or with ten billion units for a request of
  0, whatever it had before and even above \<open>MaxAmount\<close>; nothing else of the ledger changes, and a
  500 changes nothing.\<close>

theorem Faucet_sets:
  assumes "node_ok (ne_env NE) A nd" and "ae_faucetReq AE body = Inr req"
    and "PubKeyFromHex (fr_PubKey req) = Ok pk"
    and "Faucet NE AE now nd body = (Ok resp, nd')"
  shows "(rs_Status resp = 200 \<and>
      led A (nd_db nd') = (led A (nd_db nd))\<lparr>lg_bal := (lg_bal (led A (nd_db nd)))
        (pk \<mapsto> (if fr_Amount req = 0 then 10000000000 else fr_Amount req))\<rparr>)
    \<or> (rs_Status resp = 500 \<and> led A (nd_db nd') = led A (nd_db nd))"
proof -
  let ?B = "en_badger (ne_env NE)"
  let ?amt = "if fr_Amount req = 0 then 10000000000 else fr_Amount req"
  have d: "(if fr_Amount req = 0 then faucetDefault else fr_Amount req) = ?amt"
    by (simp add: faucetDefault_def)
  obtain e db' where w: "SaveBalance ?B (nd_db nd) now pk ?amt = (e, db')" by fastforce
  have st: "store_ok (ne_env NE) A (nd_db nd)" using node_store[OF assms(1)] .
  show ?thesis
  proof (cases e)
    case None
    with chain.save_bal_done[OF st] w have s: "store_ok (ne_env NE) A db'"
      "led A db' = (led A (nd_db nd))\<lparr>lg_bal := (lg_bal (led A (nd_db nd)))(pk \<mapsto> ?amt)\<rparr>" by blast+
    obtain bal where "value_or_zero (GetBalance ?B db' now pk) = Ok bal"
      using chain.get_bal_cases[OF s(1), of now pk] by (auto simp: value_or_zero_def)
    with assms(2-4) w None have "rs_Status resp = 200 \<and> nd_db nd' = db'"
      by (auto simp: Faucet_def Let_def d orElse_def respond_def)
    with s(2) show ?thesis by simp
  next
    case (Some err)
    with chain.save_bal_failed[OF st] w have "led A db' = led A (nd_db nd)" by blast
    moreover from assms(2-4) w Some have "rs_Status resp = 500 \<and> nd_db nd' = db'"
      by (auto simp: Faucet_def Let_def d orElse_def respond_def httpErr_def)
    ultimately show ?thesis by simp
  qed
qed

section \<open>Registering witnesses\<close>

lemma parseWitnesses_keys:
  "parseWitnesses now rs ws = Ok ws' \<Longrightarrow>
     (\<forall>r \<in> set rs. is_ok (PubKeyFromHex (wr_PubKey r)))
     \<and> w_PubKey ` set ws' = w_PubKey ` set ws \<union> {pk. \<exists>r \<in> set rs. PubKeyFromHex (wr_PubKey r) = Ok pk}"
proof (induction rs arbitrary: ws)
  case (Cons r rs)
  then obtain pk where pk: "PubKeyFromHex (wr_PubKey r) = Ok pk"
    "parseWitnesses now rs (ws @ [\<lparr>w_PubKey = pk, w_Addr = wr_Addr r, w_AddedAt = now\<rparr>]) = Ok ws'"
    by (auto simp: bindO_eq_Ok)
  from Cons.IH[OF pk(2)] pk(1) show ?case by auto
qed simp

lemma parseWitnesses_Err:
  "parseWitnesses now rs ws = Err e \<Longrightarrow> \<exists>r \<in> set rs. \<not> is_ok (PubKeyFromHex (wr_PubKey r))"
proof (induction rs arbitrary: ws)
  case (Cons r rs)
  then show ?case by (cases "PubKeyFromHex (wr_PubKey r)") auto
qed simp

text \<open>Registering witnesses is all or nothing: with a key that does not parse anywhere in the list
  the answer is 400 and the node is as before; otherwise the answer is 200 and the active set read
  later is exactly the set of the keys in the request, or 500 and the stored set is as before.\<close>

theorem RegisterWitnesses_all_or_nothing:
  assumes "node_ok (ne_env NE) A nd" and "ae_witnessReq AE body = Inr raw"
    and "\<forall>ws. parseWitnesses now raw [] = Ok ws \<longrightarrow> roundtrips (en_wits (ne_env NE)) ws"
    and "RegisterWitnesses NE AE now nd body = (Ok resp, nd')"
  shows "if \<exists>r \<in> set raw. \<not> is_ok (PubKeyFromHex (wr_PubKey r)) then rs_Status resp = 400 \<and> nd' = nd
    else (rs_Status resp = 200 \<and> (\<forall>now' S.
            GetActiveSet (en_badger (ne_env NE)) (en_wits (ne_env NE)) (nd_db nd') now' = Ok S \<longrightarrow>
            S = {pk. \<exists>r \<in> set raw. PubKeyFromHex (wr_PubKey r) = Ok pk}))
      \<or> (rs_Status resp = 500 \<and> ab_db A (nd_db nd') = ab_db A (nd_db nd))"
proof -
  let ?E = "ne_env NE"
  have B: "badger_ok (en_badger ?E) A" using node_store[OF assms(1)] by simp
  show ?thesis
  proof (cases "parseWitnesses now raw []")
    case (Err e)
    with parseWitnesses_Err[OF this] assms(2,4) show ?thesis
      by (auto simp: RegisterWitnesses_def orElse_def httpErr_def respond_def Let_def)
  next
    case (Ok ws)
    note k = parseWitnesses_keys[OF Ok]
    obtain e db' where w: "SaveActiveWitnesses (en_badger ?E) (en_wits ?E) (nd_db nd) now ws = (e, db')"
      by fastforce
    show ?thesis
    proof (cases e)
      case None
      with Ok w assms(2,4) have r: "rs_Status resp = 200" "nd_db nd' = db'"
        by (auto simp: RegisterWitnesses_def orElse_def respond_def Let_def)
      have "S = {pk. \<exists>r \<in> set raw. PubKeyFromHex (wr_PubKey r) = Ok pk}"
        if "GetActiveSet (en_badger ?E) (en_wits ?E) db' now' = Ok S" for now' S
        using GetActiveSet_SaveActiveWitnesses[OF B _ _ that] assms(3) Ok w None k by auto
      with r k show ?thesis by auto
    next
      case (Some err)
      from DB_Set_cases[OF B, of "nd_db nd" now activeWitnessesKey _ e db'] w Some
      have "ab_db A db' = ab_db A (nd_db nd)"
        by (auto simp: SaveActiveWitnesses_def split: sum.splits)
      with Ok w Some assms(2,4) k show ?thesis
        by (auto simp: RegisterWitnesses_def orElse_def respond_def httpErr_def Let_def)
    qed
  qed (use parseWitnesses_returns[of now raw "[]"] in simp_all)
qed

section \<open>A concrete API\<close>

definition sample_api :: api_env where
  "sample_api =
     \<lparr>ae_sendReq = (\<lambda>_. Inl (LibError ''json'')),
      ae_faucetReq = (\<lambda>_. Inr \<lparr>fr_PubKey = hex_encode (arr32 5), fr_Amount = 0\<rparr>),
      ae_witnessReq = (\<lambda>_. Inr [\<lparr>wr_PubKey = hex_encode (arr32 5), wr_Addr = []\<rparr>])\<rparr>"


theorem serve_read_only_witness:
  "snd (serve (sample_net no_sigs) sample_api sample_cx (Inr []) sample_node
     \<lparr>rq_Method = ''GET'', rq_Path = [''v1'', ''status''], rq_Body = []\<rparr>) = sample_node"
  by (rule serve_read_only) simp

theorem Faucet_sets_witness:
  "\<exists>nd'. Faucet (sample_net no_sigs) sample_api 0 rich_node [] = (Ok (respond 200 (JObj
       [(''pubkey'', JStr (hex_encode (arr32 5))), (''amount'', JNum 10000000000), (''balance'', JNum 10000000000)])), nd')
     \<and> lg_bal (led mem_abs (nd_db rich_node)) 5 = Some 70 \<and> lg_bal (led mem_abs (nd_db nd')) 5 = Some 10000000000"
proof -
  let ?NE = "sample_net no_sigs"
  define db' where "db' = AList.update (balKey 5) (PutUint64 10000000000, None) (nd_db rich_node)"
  have w: "SaveBalance mem_badger (nd_db rich_node) 0 5 10000000000 = (None, db')"
    by (simp add: SaveBalance_def DB_Set_def mem_badger_def db'_def)
  have g: "GetBalance mem_badger db' 0 5 = Ok 10000000000"
    by (simp add: mem_GetBalance db'_def update_conv')
  have f: "Faucet ?NE sample_api 0 rich_node [] = (Ok (respond 200 (JObj
       [(''pubkey'', JStr (hex_encode (arr32 5))), (''amount'', JNum 10000000000), (''balance'', JNum 10000000000)])),
      set_db db' rich_node)"
    using w g by (simp add: Faucet_def sample_api_def orElse_def Let_def faucetDefault_def value_or_zero_def)
  have "lg_bal (led mem_abs (nd_db rich_node)) 5 = Some 70"
    by (simp add: ledger_of_sel mem_abs_def rich_node_def NewNode_def)
  with Faucet_sets[OF rich_node_ok _ _ f, of _ 5] f show ?thesis
    by (auto simp: sample_api_def respond_def)
qed

theorem GetTx_over_http_witness:
  "\<exists>resp. serve (sample_net no_sigs) sample_api sample_cx (Inr []) rich_node
     \<lparr>rq_Method = ''GET'', rq_Path = [''v1'', ''tx'', hex_encode (arr32 3), digits (unat (1 :: u64))], rq_Body = []\<rparr>
       = (Ok resp, rich_node) \<and> rs_Status resp = 404"
proof -
  have n: "lg_tx (led mem_abs (nd_db rich_node)) 3 1 = None"
    by (simp add: ledger_of_sel mem_abs_def rich_node_def NewNode_def)
  have "is_ok (GetTx mem_badger sample_codec (nd_db rich_node) 0 3 1)"
    by (simp add: GetTx_def mem_DB_Get visible_def rich_node_def NewNode_def)
  with GetTx_over_http[OF rich_node_ok _ refl, of no_sigs sample_cx 3 1 sample_api "Inr []" "[]"] n
  show ?thesis by simp
qed

theorem RegisterWitnesses_all_or_nothing_witness:
  "\<exists>NE resp nd'. RegisterWitnesses (NE :: (mem, mem \<times> gtime) net_env) sample_api 0 rich_node [] = (Ok resp, nd')
     \<and> rs_Status resp = 200
     \<and> (\<forall>now' S. GetActiveSet mem_badger (en_wits (ne_env NE)) (nd_db nd') now' = Ok S \<longrightarrow> S = {5})"
proof -
  let ?J = "\<lparr>marshal = (\<lambda>_. Inr [1]), unmarshal = (\<lambda>_. Inr [\<lparr>w_PubKey = 5, w_Addr = [], w_AddedAt = 0\<rparr>])\<rparr> :: witness list codec"
  let ?NE = "(sample_net no_sigs)\<lparr>ne_env := sample_env\<lparr>en_wits := ?J\<rparr>\<rparr>"
  have ok: "node_ok (ne_env ?NE) mem_abs rich_node"
    using rich_node_ok[of no_sigs] by (simp add: node_ok_def core_ok_def)
  obtain nd' where r: "RegisterWitnesses ?NE sample_api 0 rich_node [] =
      (Ok (respond 200 (JObj [(''registered'', JCount 1)])), nd')"
    by (simp add: RegisterWitnesses_def sample_api_def orElse_def SaveActiveWitnesses_def DB_Set_def Let_def)
      (simp add: mem_badger_def)
  have rt: "\<forall>ws. parseWitnesses 0 [\<lparr>wr_PubKey = hex_encode (arr32 5), wr_Addr = []\<rparr>] [] = Ok ws \<longrightarrow> roundtrips ?J ws"
    by (simp add: roundtrips_def)
  have "\<forall>now' S. GetActiveSet mem_badger ?J (nd_db nd') now' = Ok S \<longrightarrow> S = {5}"
    using RegisterWitnesses_all_or_nothing[OF ok _ _ r, of "[\<lparr>wr_PubKey = hex_encode (arr32 5), wr_Addr = []\<rparr>]"] rt
    by (simp add: sample_api_def respond_def)
  with r show ?thesis
    by (intro exI[of _ ?NE] exI[of _ "respond 200 (JObj [(''registered'', JCount 1)])"] exI[of _ nd'])
      (simp add: respond_def)
qed

end
