(* ===== verification/Process.thy ===== *)
theory Process
  imports Startup ApiEffects
begin

text \<open>
  The life of the process that \<^verbatim>\<open>cmd/cdml/main.go\<close> runs, from \<open>main\<close> of \<open>Startup\<close> to the signal that
  ends it: the node's own calls, the requests its API serves, the end of the API server, and the
  shutdown.
\<close>

section \<open>States and steps\<close>

text \<open>\<open>Up nd api\<close>: the node runs, and \<open>api\<close> says that the API server does. The process ends, dies of a
  panic, or its main goroutine waits for ever in the shutdown.\<close>

datatype 'db process = Up "'db node" bool | Exited | Crashed | Hung

text \<open>The statements after the signal: \<^verbatim>\<open>srv.Stop()\<close>, whose error is dropped and which gives up after five
  seconds, and \<^verbatim>\<open>n.Stop()\<close>.\<close>

definition main_shutdown :: "'db node \<Rightarrow> 'db process" where
  "main_shutdown nd =
     (case fst (Stop nd) of Ok _ \<Rightarrow> Exited | Err _ \<Rightarrow> Exited | Panic \<Rightarrow> Crashed | Blocked \<Rightarrow> Hung)"

text \<open>The goroutine of the API server: when \<^verbatim>\<open>srv.Start\<close> returns, an error is logged and the process goes on
  without its API.\<close>

definition api_stopped :: "error \<Rightarrow> error option" where
  "api_stopped e = (case Server_Start e of Err err \<Rightarrow> Some err | _ \<Rightarrow> None)"

datatype process_event = Work system_event | ApiStops "error option" | Signal

inductive process_step ::
  "('db, 'txn) net_env \<Rightarrow> api_env \<Rightarrow> 'db process \<Rightarrow> process_event \<Rightarrow> 'db process \<Rightarrow> bool"
  for NE :: "('db, 'txn) net_env" and AE :: api_env where
  own: "system_step NE AE nd (Call e) nd' \<Longrightarrow> process_step NE AE (Up nd api) (Work (Call e)) (Up nd' api)"
| request: "system_step NE AE nd (Http cx rq resp) nd' \<Longrightarrow>
    process_step NE AE (Up nd True) (Work (Http cx rq resp)) (Up nd' True)"
| api_ends: "process_step NE AE (Up nd True) (ApiStops (api_stopped e)) (Up nd False)"
| ended: "process_step NE AE (Up nd api) Signal (main_shutdown nd)"

inductive_simps process_signal: "process_step NE AE s Signal s'"
inductive_simps process_down:
  "process_step NE AE Exited e s'" "process_step NE AE Crashed e s'" "process_step NE AE Hung e s'"

definition booted :: "('db, 'txn) net_env \<Rightarrow> ('db, 'txn) badger_abs \<Rightarrow> 'db process \<Rightarrow> bool" where
  "booted NE A s \<longleftrightarrow> (\<exists>nd. s = Up nd True \<and> fresh_node NE A nd)"

fun process_inv :: "('db, 'txn) net_env \<Rightarrow> ('db, 'txn) badger_abs \<Rightarrow> 'db process \<Rightarrow> bool" where
  "process_inv NE A (Up nd api) \<longleftrightarrow> node_inv NE A nd"
| "process_inv NE A Crashed \<longleftrightarrow> False"
| "process_inv NE A _ \<longleftrightarrow> True"

section \<open>Properties\<close>

lemma shutdown_cases:
  assumes "node_inv NE A nd"
  shows "main_shutdown nd = (if PeerCount nd = 0 then Exited else Hung)"
  using Stop_blocks[OF assms] by (simp add: main_shutdown_def PeerCount_def)

lemma process_inv_step:
  assumes "process_inv NE A s" and "process_step NE AE s e s'"
  shows "process_inv NE A s'"
  using assms(2)
proof cases
  case (ended nd api)
  with shutdown_cases[of NE A nd] assms(1) show ?thesis by simp
qed (use assms(1) in \<open>auto dest: node_inv_system\<close>)

interpretation processes: safe_machine "booted NE A" "process_step NE AE" "process_inv NE A" "\<lambda>s. s = Crashed"
  for NE A AE
  by unfold_locales (auto simp: booted_def intro: node_inv_New process_inv_step)



text \<open>The main goroutine never gets out of a shutdown that waits; what other goroutines still do then is
  not followed.\<close>

lemma hung_for_ever: "runs (process_step NE AE) Hung es s \<Longrightarrow> es = [] \<and> s = Hung"
  by (cases es) (simp_all add: runs_Cons process_down)

end
