(* ===== verification/Concurrency.thy ===== *)
theory Concurrency
  imports TxSamples Machine
begin

text \<open>
  Confirmations that run at the same time. \<^verbatim>\<open>node.go\<close> starts every \<^verbatim>\<open>confirmTx\<close> as a goroutine and
  \<^verbatim>\<open>TxProcessor\<close> has no lock, so the reads of one \<open>ConfirmTx\<close> (\<open>confirmAmounts\<close>) and its writes
  (\<open>confirmWrite\<close>) can have those of another in between. Any number of confirmations over one
  processor are a step relation; a second problem, the sequence shared by two payments, needs no
  concurrency at all.
\<close>

section \<open>Confirmations as goroutines\<close>

datatype confirm_pc = Idle | HasRead "amount \<times> amount" | Wrote | Failed error

record 'db confirm_state =
  cs_tp :: "'db tx_processor"
  cs_pc :: "nat \<Rightarrow> confirm_pc"

datatype confirm_event = ReadBy nat gtime | WriteBy nat gtime

inductive confirm_step ::
  "('db, 'txn) env \<Rightarrow> (nat \<Rightarrow> transaction) \<Rightarrow> 'db confirm_state \<Rightarrow> confirm_event \<Rightarrow>
     'db confirm_state \<Rightarrow> bool"
  for E :: "('db, 'txn) env" and txs :: "nat \<Rightarrow> transaction" where
  reads: "cs_pc s i = Idle \<Longrightarrow> confirmAmounts E (tp_db (cs_tp s)) now (txs i) = Ok b \<Longrightarrow>
    confirm_step E txs s (ReadBy i now) (s\<lparr>cs_pc := (cs_pc s)(i := HasRead b)\<rparr>)"
| reads_fails: "cs_pc s i = Idle \<Longrightarrow> confirmAmounts E (tp_db (cs_tp s)) now (txs i) = Err e \<Longrightarrow>
    confirm_step E txs s (ReadBy i now) (s\<lparr>cs_pc := (cs_pc s)(i := Failed e)\<rparr>)"
| writes: "cs_pc s i = HasRead b \<Longrightarrow> confirmWrite E (cs_tp s) now (txs i) b = c \<Longrightarrow> cr_out c = Ok () \<Longrightarrow>
    confirm_step E txs s (WriteBy i now) (s\<lparr>cs_tp := cr_tp c, cs_pc := (cs_pc s)(i := Wrote)\<rparr>)"
| writes_fails: "cs_pc s i = HasRead b \<Longrightarrow> confirmWrite E (cs_tp s) now (txs i) b = c \<Longrightarrow> cr_out c = Err e \<Longrightarrow>
    confirm_step E txs s (WriteBy i now) (s\<lparr>cs_tp := cr_tp c, cs_pc := (cs_pc s)(i := Failed e)\<rparr>)"

inductive_simps confirm_step_read: "confirm_step E txs s (ReadBy i now) s'"
inductive_simps confirm_step_write: "confirm_step E txs s (WriteBy i now) s'"

definition confirm_start :: "('db, 'txn) env \<Rightarrow> ('db, 'txn) badger_abs \<Rightarrow> 'db confirm_state \<Rightarrow> bool" where
  "confirm_start E A s \<longleftrightarrow> store_ok E A (tp_db (cs_tp s)) \<and> cs_pc s = (\<lambda>_. Idle)"

text \<open>What holds in every interleaving: the store stays well-formed, and an account that none of the
  transactions names keeps its balance.\<close>

definition confirm_inv ::
  "('db, 'txn) env \<Rightarrow> ('db, 'txn) badger_abs \<Rightarrow> (nat \<Rightarrow> transaction) \<Rightarrow> (pubkey \<Rightarrow> amount option) \<Rightarrow>
     'db confirm_state \<Rightarrow> bool" where
  "confirm_inv E A txs bal0 s \<longleftrightarrow> store_ok E A (tp_db (cs_tp s)) \<and>
     (\<forall>pk. (\<forall>i. pk \<noteq> tx_From (txs i) \<and> pk \<noteq> tx_To (txs i)) \<longrightarrow>
        lg_bal (led A (tp_db (cs_tp s))) pk = bal0 pk)"

lemma confirmWrite_store:
  assumes "store_ok E A (tp_db tp)" and "confirmWrite E tp now tx b = c"
  shows "store_ok E A (tp_db (cr_tp c))"
    and "pk \<noteq> tx_From tx \<Longrightarrow> pk \<noteq> tx_To tx \<Longrightarrow>
      lg_bal (led A (tp_db (cr_tp c))) pk = lg_bal (led A (tp_db tp)) pk"
  using confirmWrite_cases[OF assms(1) assms(2)[symmetric]]
  by (auto simp: confirmed_ledger_def confirm_ledger_def Let_def)

lemma confirm_inv_step:
  assumes "confirm_inv E A txs bal0 s" and "confirm_step E txs s e s'"
  shows "confirm_inv E A txs bal0 s'"
  using assms(2)
proof (cases rule: confirm_step.cases)
  case (writes i b now c)
  with confirmWrite_store[of E A "cs_tp s" now "txs i" b c] assms(1) show ?thesis
    by (auto simp: confirm_inv_def)
next
  case (writes_fails i b now c err)
  with confirmWrite_store[of E A "cs_tp s" now "txs i" b c] assms(1) show ?thesis
    by (auto simp: confirm_inv_def)
qed (use assms(1) in \<open>simp_all add: confirm_inv_def\<close>)

interpretation confirms: machine
  "\<lambda>s. confirm_start E A s \<and> bal0 = lg_bal (led A (tp_db (cs_tp s)))" "confirm_step E txs"
  "confirm_inv E A txs bal0" for E A txs bal0
  by (unfold_locales, (auto simp: confirm_start_def confirm_inv_def)[1], rule confirm_inv_step)

text \<open>One confirmation alone, read and then written, is \<open>ConfirmTx\<close>.\<close>

lemma serial_is_ConfirmTx:
  assumes "confirm_step E txs s (ReadBy i now) s1" and "confirm_step E txs s1 (WriteBy i now) s2"
  shows "cs_tp s2 = cr_tp (ConfirmTx E (cs_tp s) now (txs i))"
  using assms by (auto simp: confirm_step_read confirm_step_write ConfirmTx_def)

section \<open>A lost update\<close>

lemma confirmWrite_Ok_ledger:
  assumes "store_ok E A (tp_db tp)" and "confirmWrite E tp now tx (s, r) = c" and "cr_out c = Ok ()"
    and "tx_From tx \<noteq> tx_To tx"
  shows "store_ok E A (tp_db (cr_tp c))"
    and "balance (led A (tp_db (cr_tp c))) (tx_From tx) = s"
    and "balance (led A (tp_db (cr_tp c))) (tx_To tx) = r"
    and "pk \<noteq> tx_From tx \<Longrightarrow> pk \<noteq> tx_To tx \<Longrightarrow>
      balance (led A (tp_db (cr_tp c))) pk = balance (led A (tp_db tp)) pk"
  using confirmWrite_cases[OF assms(1) assms(2)[symmetric]] assms(3,4)
  by (auto simp: confirmed_ledger_def confirm_ledger_def Let_def balance_def)

text \<open>C24. Two payments of one account, confirmed at the same time, are charged once: when both goroutines
  read before either writes, which no balance check can notice, the sender ends with only the second
  payment's cost gone while both receivers have their amounts; the money of the first payment is
  made from nothing, even if the two together cost more than the sender had.\<close>

theorem concurrent_confirms_charge_once:
  assumes "confirm_start E A s0" and "i \<noteq> j"
    and "runs (confirm_step E txs) s0 [ReadBy i n1, ReadBy j n2, WriteBy i n3, WriteBy j n4] s"
    and "cs_pc s i = Wrote" and "cs_pc s j = Wrote"
    and "tx_From (txs i) = fr" and "tx_From (txs j) = fr"
    and "distinct [fr, tx_To (txs i), tx_To (txs j)]"
    and "is_ok (GetBalance (en_badger E) (tp_db (cs_tp s0)) n1 (tx_To (txs i)))"
    and "is_ok (GetBalance (en_badger E) (tp_db (cs_tp s0)) n2 (tx_To (txs j)))"
  shows "let L = led A (tp_db (cs_tp s0)); L' = led A (tp_db (cs_tp s)) in
      unat (balance L' fr) + cost (txs j) = unat (balance L fr)
    \<and> unat (balance L' (tx_To (txs i))) = unat (balance L (tx_To (txs i))) + unat (tx_Amount (txs i))
    \<and> unat (balance L' (tx_To (txs j))) = unat (balance L (tx_To (txs j))) + unat (tx_Amount (txs j))"
proof -
  let ?db = "tp_db (cs_tp s0)"
  have st: "store_ok E A ?db" using assms(1) by (simp add: confirm_start_def)
  from assms(3) obtain s1 s2 s3 where steps:
    "confirm_step E txs s0 (ReadBy i n1) s1" "confirm_step E txs s1 (ReadBy j n2) s2"
    "confirm_step E txs s2 (WriteBy i n3) s3" "confirm_step E txs s3 (WriteBy j n4) s"
    by (auto simp: runs_Cons)
  from steps(4) assms(5) obtain bj c2 where w2: "cs_pc s3 j = HasRead bj"
    "confirmWrite E (cs_tp s3) n4 (txs j) bj = c2" "cr_out c2 = Ok ()" "cs_tp s = cr_tp c2"
    "cs_pc s i = cs_pc s3 i"
    using assms(2) by (auto simp: confirm_step_write)
  from steps(3) w2(5) assms(2,4) obtain bi c1 where w1: "cs_pc s2 i = HasRead bi"
    "confirmWrite E (cs_tp s2) n3 (txs i) bi = c1" "cr_out c1 = Ok ()" "cs_tp s3 = cr_tp c1"
    "cs_pc s3 j = cs_pc s2 j"
    by (auto simp: confirm_step_write)
  from steps(1,2) w1 w2 assms(1,2) have r: "confirmAmounts E ?db n1 (txs i) = Ok bi"
    "confirmAmounts E ?db n2 (txs j) = Ok bj" "cs_tp s2 = cs_tp s0"
    by (auto simp: confirm_step_read confirm_start_def split: if_splits)
  obtain si ri sj rj where b: "bi = (si, ri)" "bj = (sj, rj)" by (cases bi, cases bj) auto
  have ai: "unat ri = unat (balance (led A ?db) (tx_To (txs i))) + unat (tx_Amount (txs i))"
    using confirmAmounts_cases[OF st, of n1 "txs i"] r(1) b(1) read_or_zero_ok[OF st assms(9)] by auto
  have aj: "unat sj + cost (txs j) = unat (balance (led A ?db) fr)"
    "unat rj = unat (balance (led A ?db) (tx_To (txs j))) + unat (tx_Amount (txs j))"
    using confirmAmounts_cases[OF st, of n2 "txs j"] r(2) b(2) read_or_zero_ok[OF st assms(10)] assms(7) by auto
  have ne: "tx_From (txs i) \<noteq> tx_To (txs i)" "tx_From (txs j) \<noteq> tx_To (txs j)"
    "tx_To (txs i) \<noteq> tx_From (txs j)" "tx_To (txs i) \<noteq> tx_To (txs j)"
    using assms(6-8) by auto
  have st2: "store_ok E A (tp_db (cs_tp s2))" using st r(3) by simp
  note c1 = confirmWrite_Ok_ledger[OF st2 w1(2)[unfolded b] w1(3) ne(1)]
  have st3: "store_ok E A (tp_db (cs_tp s3))" using c1(1) w1(4) by simp
  note c2 = confirmWrite_Ok_ledger[OF st3 w2(2)[unfolded b] w2(3) ne(2)]
  from c1(3) c2(2,3) c2(4)[OF ne(3,4)] ai aj w1(4) w2(4) assms(7) show ?thesis
    by (simp add: Let_def)
qed

section \<open>A sequence number used twice\<close>

lemma confirmWrite_record:
  assumes "store_ok E A (tp_db tp)" and "cr_out (confirmWrite E tp now tx b) = Ok ()"
  shows "\<exists>data. marshal (en_tx E) (tx\<lparr>tx_Status := TxConfirmed\<rparr>) = Inr data
    \<and> lg_tx (led A (tp_db (cr_tp (confirmWrite E tp now tx b)))) (tx_From tx) (tx_Sequence tx) = Some data
    \<and> lg_seq (led A (tp_db (cr_tp (confirmWrite E tp now tx b)))) (tx_From tx) = tx_Sequence tx"
proof -
  let ?b = "\<lparr>cb_Tx = tx\<lparr>tx_Status := TxConfirmed\<rparr>, cb_SenderBal = fst b, cb_ReceiverBal = snd b\<rparr>"
  obtain dag' where d: "AdvanceTip (tp_dag tp) (tx_Hash tx) (tx_ParentHashes tx) = (None, dag')"
    using assms(2) by (cases "AdvanceTip (tp_dag tp) (tx_Hash tx) (tx_ParentHashes tx)"; cases "fst (AdvanceTip (tp_dag tp) (tx_Hash tx) (tx_ParentHashes tx))")
      (auto simp: confirmWrite_def)
  obtain db' where w: "ConfirmTxBatch (en_badger E) (en_tx E) (tp_db tp) now ?b = (None, db')"
    using assms(2) d by (cases "ConfirmTxBatch (en_badger E) (en_tx E) (tp_db tp) now ?b"; cases "fst (ConfirmTxBatch (en_badger E) (en_tx E) (tp_db tp) now ?b)")
      (auto simp: confirmWrite_def Let_def)
  from ConfirmTxBatch_done[OF _ _ w] assms(1) obtain data where
    data: "marshal (en_tx E) (tx\<lparr>tx_Status := TxConfirmed\<rparr>) = Inr data" "chain_wf (ab_db A db')"
      "led A db' = confirm_ledger ?b data (led A (tp_db tp))" by auto
  obtain e db'' where bond: "AccumulateBond (en_badger E) db' now (BondAmount (tx_Amount tx)) = Ok (e, db'')"
    and "lg_tx (led A db'') = lg_tx (led A db')" "lg_seq (led A db'') = lg_seq (led A db')"
    using AccumulateBond_cases[OF _ data(2), of "en_badger E" now "BondAmount (tx_Amount tx)"] assms(1)
    by fastforce
  with d w data show ?thesis
    by (simp add: confirmWrite_def Let_def confirm_ledger_def)
qed

lemma ConfirmTx_record:
  assumes "store_ok E A (tp_db tp)" and "cr_out (ConfirmTx E tp now tx) = Ok ()"
  shows "\<exists>data. marshal (en_tx E) (tx\<lparr>tx_Status := TxConfirmed\<rparr>) = Inr data
    \<and> lg_tx (led A (tp_db (cr_tp (ConfirmTx E tp now tx)))) (tx_From tx) (tx_Sequence tx) = Some data
    \<and> lg_seq (led A (tp_db (cr_tp (ConfirmTx E tp now tx)))) (tx_From tx) = tx_Sequence tx"
  using assms confirmWrite_record[OF assms(1), of now tx]
  by (cases "confirmAmounts E (tp_db tp) now tx") (auto simp: ConfirmTx_def)

text \<open>C25. A second payment erases the first: when an account builds two payments before the first is
  confirmed, both carry the same sequence; the confirmation checks no sequence, so both are
  confirmed, one after the other, and then the ledger has advanced by one, and under the shared
  sequence it keeps the record of the second only.\<close>

theorem second_payment_erases_first:
  assumes "store_ok E A (tp_db tp)" and "ed25519_ok (en_crypto E)" and "kp_wf (en_crypto E) kp"
    and "BuildTx E tp n1 r1 kp to1 amt1 = Ok t1" and "BuildTx E tp n2 r2 kp to2 amt2 = Ok t2"
    and "c1 = ConfirmTx E tp n3 t1" and "cr_out c1 = Ok ()"
    and "c2 = ConfirmTx E (cr_tp c1) n4 t2" and "cr_out c2 = Ok ()"
  shows "let me = kp_Public kp; L = led A (tp_db tp); L1 = led A (tp_db (cr_tp c1)); L2 = led A (tp_db (cr_tp c2)) in
      tx_Sequence t1 = lg_seq L me + 1 \<and> tx_Sequence t2 = lg_seq L me + 1
    \<and> (\<exists>data. marshal (en_tx E) (cr_tx c1) = Inr data \<and> lg_tx L1 me (lg_seq L me + 1) = Some data)
    \<and> (\<exists>data. marshal (en_tx E) (cr_tx c2) = Inr data \<and> lg_tx L2 me (lg_seq L me + 1) = Some data)
    \<and> lg_seq L2 me = lg_seq L me + 1"
proof -
  note b1 = BuildTx_guarantees[OF assms(1-3) assms(4)] and b2 = BuildTx_guarantees[OF assms(1-3) assms(5)]
  have ok1: "cr_out (ConfirmTx E tp n3 t1) = Ok ()" using assms(6,7) by simp
  obtain st1: "store_ok E A (tp_db (cr_tp c1))" "cr_tx c1 = t1\<lparr>tx_Status := TxConfirmed\<rparr>"
    by (rule ConfirmTx_Ok[OF assms(1) _ assms(7)]) (simp_all add: assms(6))
  have ok2: "cr_out (ConfirmTx E (cr_tp c1) n4 t2) = Ok ()" using assms(8,9) by simp
  have tx2: "cr_tx c2 = t2\<lparr>tx_Status := TxConfirmed\<rparr>"
    by (rule ConfirmTx_Ok[OF st1(1) _ assms(9)]) (simp_all add: assms(8))
  from ConfirmTx_record[OF assms(1) ok1] ConfirmTx_record[OF st1(1) ok2] b1 b2 st1(2) tx2 assms(6,8)
  show ?thesis by (auto simp: Let_def)
qed

section \<open>Concrete runs\<close>

text \<open>Account 3 has 5000 and pays 1000 to account 5 and 1000 to account 6, at the same time.\<close>

definition two_pays :: "nat \<Rightarrow> transaction" where
  "two_pays i = (if i = 0 then pay 5 else pay 6)"

lemma pay6_amounts: "confirmAmounts sample_env (tp_db rich_tp) now (pay 6) = Ok (3999, 1000)"
  by (simp add: confirmAmounts_def mem_GetBalance rich_tp_def visible_def live_def SafeAdd_def
      SafeSub_def BondAmount_def calcBond_def bondDivisor_def MaxAmount_def)

theorem concurrent_confirms_charge_once_witness:
  "\<exists>s. runs (confirm_step sample_env two_pays) \<lparr>cs_tp = rich_tp, cs_pc = (\<lambda>_. Idle)\<rparr>
       [ReadBy 0 0, ReadBy 1 0, WriteBy 0 0, WriteBy 1 0] s
     \<and> unat (balance (led mem_abs (tp_db (cs_tp s))) 3) = 3999
     \<and> unat (balance (led mem_abs (tp_db (cs_tp s))) 5) = 1070
     \<and> unat (balance (led mem_abs (tp_db (cs_tp s))) 6) = 1000"
proof -
  let ?s0 = "\<lparr>cs_tp = rich_tp, cs_pc = (\<lambda>_. Idle)\<rparr>"
  define c1 where "c1 = confirmWrite sample_env rich_tp 0 (pay 5) (3999, 1070)"
  define c2 where "c2 = confirmWrite sample_env (cr_tp c1) 0 (pay 6) (3999, 1000)"
  have o1: "cr_out c1 = Ok ()" unfolding c1_def by (rule mem_confirmWrite) simp_all
  have "store_ok sample_env mem_abs (tp_db (cr_tp c1))"
    using confirmWrite_store(1)[of sample_env mem_abs rich_tp 0 "pay 5" "(3999, 1070)" c1] by (simp add: c1_def)
  then have o2: "cr_out c2 = Ok ()" unfolding c2_def by (intro mem_confirmWrite) simp_all
  let ?s1 = "?s0\<lparr>cs_pc := (cs_pc ?s0)(0 := HasRead (3999, 1070))\<rparr>"
  let ?s2 = "?s1\<lparr>cs_pc := (cs_pc ?s1)(1 := HasRead (3999, 1000))\<rparr>"
  let ?s3 = "?s2\<lparr>cs_tp := cr_tp c1, cs_pc := (cs_pc ?s2)(0 := Wrote)\<rparr>"
  let ?s4 = "?s3\<lparr>cs_tp := cr_tp c2, cs_pc := (cs_pc ?s3)(1 := Wrote)\<rparr>"
  have "confirm_step sample_env two_pays ?s0 (ReadBy 0 0) ?s1"
    by (rule confirm_step.reads) (simp_all add: two_pays_def pay_amounts)
  moreover have "confirm_step sample_env two_pays ?s1 (ReadBy 1 0) ?s2"
    by (rule confirm_step.reads) (simp_all add: two_pays_def pay6_amounts)
  moreover have "confirm_step sample_env two_pays ?s2 (WriteBy 0 0) ?s3"
    by (rule confirm_step.writes[where b = "(3999, 1070)"]) (simp_all add: two_pays_def c1_def[symmetric] o1)
  moreover have "confirm_step sample_env two_pays ?s3 (WriteBy 1 0) ?s4"
    by (rule confirm_step.writes[where b = "(3999, 1000)"]) (simp_all add: two_pays_def c2_def[symmetric] o2)
  ultimately have run: "runs (confirm_step sample_env two_pays) ?s0
      [ReadBy 0 0, ReadBy 1 0, WriteBy 0 0, WriteBy 1 0] ?s4"
    unfolding runs_Cons by (intro exI conjI) (assumption, assumption, assumption, assumption, simp)
  have b6: "balance (led mem_abs (tp_db rich_tp)) 6 = 0"
    by (simp add: mem_abs_def balance_ledger_of cell_def rich_tp_def)
  have "unat (balance (led mem_abs (tp_db (cs_tp ?s4))) 3) + cost (pay 6) = 5000 \<and>
     unat (balance (led mem_abs (tp_db (cs_tp ?s4))) 5) = 1070 \<and>
     unat (balance (led mem_abs (tp_db (cs_tp ?s4))) 6) = 1000"
    using concurrent_confirms_charge_once[of sample_env mem_abs ?s0 0 1 two_pays 0 0 0 0 ?s4 3, OF _ _ run] b6
      mem_read_ok[of "tp_db rich_tp" 0 6]
    by (simp add: confirm_start_def two_pays_def Let_def)
  with run show ?thesis by (intro exI[of _ ?s4]) simp
qed

theorem second_payment_erases_first_witness:
  "\<exists>t1 t2 c1 c2. BuildTx sample_env key_tp 0 (Inr (PutUint64 42)) sample_key 5 1000 = Ok t1
     \<and> BuildTx sample_env key_tp 0 (Inr (PutUint64 43)) sample_key 5 1000 = Ok t2
     \<and> c1 = ConfirmTx sample_env key_tp 1 t1 \<and> cr_out c1 = Ok ()
     \<and> c2 = ConfirmTx sample_env (cr_tp c1) 2 t2 \<and> cr_out c2 = Ok ()
     \<and> lg_seq (led mem_abs (tp_db (cr_tp c2))) (kp_Public sample_key) = 1"
proof -
  have "\<exists>tx'. SignTx sample_crypto sample_key tx = Ok tx'" for tx
    using kps.sign_Ok[of sample_crypto sample_key] by (auto simp: SignTx_Ok)
  then obtain t1 t2 where b: "BuildTx sample_env key_tp 0 (Inr (PutUint64 42)) sample_key 5 1000 = Ok t1"
    "BuildTx sample_env key_tp 0 (Inr (PutUint64 43)) sample_key 5 1000 = Ok t2"
    by (simp add: BuildTx_def ValidateAmount_def SafeAdd_def BondAmount_def calcBond_def
        bondDivisor_def MaxAmount_def) blast
  note g1 = BuildTx_guarantees[of sample_env mem_abs key_tp, OF _ _ _ b(1)]
    and g2 = BuildTx_guarantees[of sample_env mem_abs key_tp, OF _ _ _ b(2)]
  have ne: "kp_Public sample_key \<noteq> 5"
    by (simp add: sample_key_def ed_public_def sample_crypto_def) (simp add: be_word_def)
  have tips: "CurrentTips (tp_dag key_tp) = []"
    by (simp add: key_tp_def NewDAGManager_def CurrentTips_def nodesOf_def sort_by_def)
  have t: "tx_From t = kp_Public sample_key" "tx_To t = 5" "tx_Amount t = 1000" if "t \<in> {t1, t2}" for t
    using that g1 g2 by auto
  have total: "SafeAdd 1000 (BondAmount 1000) = Ok 1001"
    by (simp add: SafeAdd_def BondAmount_def calcBond_def bondDivisor_def MaxAmount_def)
  have amts: "confirmAmounts sample_env db now t = Ok (v', w')"
    if "chain_wf (ab_db mem_abs db)" "t \<in> {t1, t2}"
      "SafeSub (balance (led mem_abs db) (kp_Public sample_key)) 1001 = Ok v'"
      "SafeAdd (balance (led mem_abs db) 5) 1000 = Ok w'" for db now t v' w'
    using that by (simp only: confirmAmounts_def t[OF that(2)] total sample_env_sel mem_read_ok[OF that(1)]
        bindO.simps mapErr.simps outcome.case)
  have bal0: "balance (led mem_abs (tp_db key_tp)) (kp_Public sample_key) = 5000" "balance (led mem_abs (tp_db key_tp)) 5 = 0"
    using ne by (simp_all add: mem_abs_def balance_ledger_of cell_def key_tp_def)
  define c1 where "c1 = ConfirmTx sample_env key_tp 1 t1"
  have a1: "confirmAmounts sample_env (tp_db key_tp) 1 t1 = Ok (3999, 1000)"
    by (rule amts) (simp_all add: bal0 SafeSub_def SafeAdd_def MaxAmount_def)
  then have w1: "confirmWrite sample_env key_tp 1 t1 (3999, 1000) = c1" by (simp add: c1_def ConfirmTx_def)
  have o1: "cr_out c1 = Ok ()"
    unfolding w1[symmetric] by (rule mem_confirmWrite) (use g1 tips in simp_all)
  have st: "store_ok sample_env mem_abs (tp_db key_tp)" by simp
  note l1 = confirmWrite_Ok_ledger[OF st w1 o1]
  have wf1: "chain_wf (ab_db mem_abs (tp_db (cr_tp c1)))" using l1(1) g1 ne by simp
  have bal1: "balance (led mem_abs (tp_db (cr_tp c1))) (kp_Public sample_key) = 3999"
    "balance (led mem_abs (tp_db (cr_tp c1))) 5 = 1000"
    using l1(2,3) g1 ne by simp_all
  define c2 where "c2 = ConfirmTx sample_env (cr_tp c1) 2 t2"
  have a2: "confirmAmounts sample_env (tp_db (cr_tp c1)) 2 t2 = Ok (2998, 2000)"
    by (rule amts[OF wf1]) (simp_all add: bal1 SafeSub_def SafeAdd_def MaxAmount_def)
  have "cr_out (confirmWrite sample_env (cr_tp c1) 2 t2 (2998, 2000)) = Ok ()"
    by (rule mem_confirmWrite[OF wf1]) (use g2 tips in simp)
  with a2 have o2: "cr_out c2 = Ok ()" by (simp add: c2_def ConfirmTx_def)
  have "lg_seq (led mem_abs (tp_db key_tp)) (kp_Public sample_key) = 0"
    by (simp add: mem_abs_def ledger_of_sel cell_def key_tp_def)
  with second_payment_erases_first[OF st _ _ _ _ c1_def o1 c2_def o2, of sample_key 0 "Inr (PutUint64 42)" 5 1000 0 "Inr (PutUint64 43)" 5 1000] b
  have "lg_seq (led mem_abs (tp_db (cr_tp c2))) (kp_Public sample_key) = 1"
    by (simp add: Let_def)
  with b c1_def c2_def o1 o2 show ?thesis by blast
qed

end
