(* ===== verification/ReadLoop.thy ===== *)
theory ReadLoop
  imports NodeSamples
begin

text \<open>
  The packet loop of a connection: it ends for every stream of bytes, and what it leaves.
\<close>

section \<open>Peers stay in the heap\<close>

definition known :: "'db node \<Rightarrow> peer_id \<Rightarrow> bool" where
  "known nd i \<longleftrightarrow> nd_heap nd i \<noteq> None"

lemma known_sendToPeer [simp]: "known (snd (sendToPeer NE nd j pkt)) i = known nd i"
  by (auto simp: known_def sendToPeer_def Let_def split: option.split prod.split outcome.split)

lemma known_sendAll [simp]: "known (snd (sendAll NE nd is pkt)) i = known nd i"
  by (induction "is" arbitrary: nd) (auto simp: andThen_def split: outcome.split)

lemma known_broadcast [simp]: "known (snd (broadcast NE draws nd pkt ex)) i = known nd i"
  by (simp add: broadcast_def)

lemma known_sendToOriginator [simp]: "known (snd (sendToOriginator NE nd pk pkt)) i = known nd i"
  by (simp add: sendToOriginator_def split: option.split)

lemma known_updates [simp]:
  "known (nd\<lparr>nd_gossip := g\<rparr>) i = known nd i" "known (nd\<lparr>nd_tp := tp\<rparr>) i = known nd i"
  "known (nd\<lparr>nd_pending := pd\<rparr>) i = known nd i" "known (nd\<lparr>nd_spawned := sp\<rparr>) i = known nd i"
  by (simp_all add: known_def)

lemma known_andThen: "known (snd m) i = b \<Longrightarrow> (\<And>nd. known nd i = b \<Longrightarrow> known (snd (f nd)) i = b) \<Longrightarrow>
    known (snd (andThen m f)) i = b"
  by (simp add: andThen_def split: outcome.split)

lemma known_witnessReply: "known (snd (witnessReply NE cx nd pkt tx tip)) i = known nd i"
  unfolding witnessReply_def Let_def
  by (auto split: outcome.split intro!: known_andThen)

lemma known_handleNonceLock: "known (snd (handleNonceLock NE cx nd pkt)) i = known nd i"
  by (simp add: handleNonceLock_def Let_def split: prod.split sum.split)

lemma known_handleTxVerify: "known (snd (handleTxVerify NE cx nd pkt)) i = known nd i"
  by (simp add: handleTxVerify_def Let_def known_witnessReply split: prod.split sum.split outcome.split option.split)

lemma known_handleWitnessSig: "known (snd (handleWitnessSig NE cx nd pkt)) i = known nd i"
  by (simp add: handleWitnessSig_def Let_def split: prod.split sum.split option.split)

lemma known_handleTxConfirmed: "known (snd (handleTxConfirmed NE cx nd pkt)) i = known nd i"
  by (simp add: handleTxConfirmed_def Let_def split: prod.split sum.split outcome.split)

lemma known_handlePacket: "known (snd (handlePacket NE cx nd j pkt)) i = known nd i"
  by (simp add: handlePacket_def known_handleNonceLock known_handleTxVerify known_handleWitnessSig
      known_handleTxConfirmed)

section \<open>The loop\<close>

text \<open>A closed peer and a stream with no packet left.\<close>

definition hung_up :: "('db, 'txn) net_env \<Rightarrow> 'db node \<Rightarrow> peer_id \<Rightarrow> bool" where
  "hung_up NE nd i \<longleftrightarrow> (\<exists>p. nd_heap nd i = Some p \<and> pe_state p = PeerClosed)"

lemma ClosePeer_hung_up:
  assumes "node_ok E A nd" and "known nd i"
  shows "fst (ClosePeer nd i False) = Ok () \<and> node_ok E A (snd (ClosePeer nd i False))
    \<and> hung_up NE (snd (ClosePeer nd i False)) i"
proof -
  from assms(2) obtain p where p: "nd_heap nd i = Some p" by (auto simp: known_def)
  have wf: "heap_wf (nd_heap nd)" using assms(1) by (simp add: node_ok_def peers_ok_def)
  have "pe_state (snd (Close p)) = PeerClosed"
    by (simp add: Close_def Close_mark_def Close_finish_def Let_def)
  then have "hung_up NE (snd (ClosePeer nd i False)) i"
    using ClosePeer_cases[OF wf p, of False] p by (auto simp: hung_up_def Let_def removePeer_def)
  with ClosePeer_unlocked[OF assms(1) p] show ?thesis by (simp add: outcome_ok_def)
qed

lemma readLoop_result:
  assumes "node_ok (ne_env NE) A nd" and "known nd i"
  shows "node_ok (ne_env NE) A (snd (readLoop NE cxs n nd i conn))
    \<and> fst (readLoop NE cxs n nd i conn) \<noteq> Blocked
    \<and> (fst (readLoop NE cxs n nd i conn) = Ok () \<longrightarrow> hung_up NE (snd (readLoop NE cxs n nd i conn)) i)"
  using assms
proof (induction NE cxs n nd i conn rule: readLoop.induct)
  case (1 NE cxs n nd i conn)
  note cl = ClosePeer_hung_up[OF "1.prems", of NE]
  obtain r conn' where rd: "ReadPacket (ne_packet NE) conn = (r, conn')" by fastforce
  show ?case
  proof (cases r)
    case (Ok pkt)
    from "1.prems"(2) have "nd_heap nd i \<noteq> None" by (simp add: known_def)
    note h = handlePacket_outcome[OF "1.prems"(1) this, of pkt "cxs n"]
    have k: "known (snd (handlePacket NE (cxs n) nd i pkt)) i" using known_handlePacket "1.prems"(2) by metis
    obtain o1 nd' where hp: "handlePacket NE (cxs n) nd i pkt = (o1, nd')" by fastforce
    have eq: "readLoop NE cxs n nd i conn = andThen (o1, nd') (\<lambda>nd'. readLoop NE cxs (n + 1) nd' i conn')"
      using rd Ok hp by (subst readLoop.simps) simp
    show ?thesis
    proof (cases o1)
      case o: (Ok u)
      have "node_ok (ne_env NE) A nd'" using h hp by (simp add: outcome_ok_def)
      moreover have "known nd' i" using k hp by simp
      ultimately show ?thesis
        using "1.IH"[OF rd[symmetric] Ok, of nd'] eq o by (simp add: andThen_def)
    qed (use h hp eq in \<open>simp_all add: andThen_def outcome_ok_def\<close>)
  qed (use rd cl in \<open>(subst readLoop.simps, simp)+\<close>)
qed



end
