(* ===== verification/Forgeries.thy ===== *)
theory Forgeries
  imports NodeSamples
begin

text \<open>
  What a peer can do with packets that nothing vouches for: \<open>handleTxConfirmed\<close> neither verifies the
  transaction nor asks for its witness signatures.
\<close>

lemma handleTxConfirmed_applies:
  assumes "pk_Type pkt = PacketTxConfirmed" and "nd_gossip nd (pk_MsgID pkt) = None"
    and "unmarshal (ne_confirmed NE) (pk_Payload pkt) = Inr \<lparr>cm_Tx = Some tx\<rparr>"
    and "ApplyConfirmedTxBalance (ne_env NE) (nd_db nd) (cx_now cx) (Some tx) = (Ok (), db')"
    and "node_ok (ne_env NE) A nd" and "store_ok (ne_env NE) A db'"
  shows "\<exists>nd'. handlePacket NE cx nd i pkt = (Ok (), nd') \<and> nd_db nd' = db'"
proof -
  let ?g = "(nd_gossip nd)(pk_MsgID pkt \<mapsto> \<lparr>gm_seenAt = cx_now cx, gm_hops = 1\<rparr>)"
  let ?nd1 = "nd\<lparr>nd_gossip := ?g\<rparr>"
  have g: "ShouldForward (nd_gossip nd) (cx_now cx) (pk_MsgID pkt) = ((True, 1), ?g)"
    using assms(2) by (simp add: ShouldForward_def)
  have "node_ok (ne_env NE) A (set_db db' ?nd1)"
    by (rule node_ok_db[OF node_ok_gossip[OF assms(5) g] assms(6)])
  from broadcast_done[OF this, of NE "cx_draws cx 0" pkt None] obtain nd' where
    b: "broadcast NE (cx_draws cx 0) (set_db db' ?nd1) pkt None = (Ok (), nd')" by blast
  have "nd_tp nd' = nd_tp (set_db db' ?nd1)" using broadcast_fields(2)[of NE _ "set_db db' ?nd1"] b
    by (metis snd_conv)
  moreover have "handlePacket NE cx nd i pkt = (Ok (), nd')"
    using assms(1,3,4) g b
    by (simp add: handlePacket_def handleTxConfirmed_def Let_def PacketTxConfirmed_def PacketNonceLock_def
        PacketTxVerify_def PacketTxWitnessSig_def)
  ultimately show ?thesis by simp
qed

text \<open>C20. A forged confirmation makes money: any peer can send a confirmation of a transaction that
  nobody signed and no witness saw; if its hash is new to the node, the account it names is credited
  with the amount it names, on the node's own ledger, and nobody is debited.\<close>

theorem forged_confirmation_credits:
  assumes "node_ok (ne_env NE) A nd" and "pk_Type pkt = PacketTxConfirmed" and "nd_gossip nd (pk_MsgID pkt) = None"
    and "unmarshal (ne_confirmed NE) (pk_Payload pkt) = Inr \<lparr>cm_Tx = Some tx\<rparr>"
    and "VerifyTx (en_crypto (ne_env NE)) tx \<noteq> None" and "tx_WitnessSigs tx = []"
    and "\<not> IsConfirmedTxApplied (en_badger (ne_env NE)) (nd_db nd) (cx_now cx) (tx_Hash tx)"
    and "is_ok (GetBalance (en_badger (ne_env NE)) (nd_db nd) (cx_now cx) (tx_To tx))"
    and "ApplyConfirmedTxBalance (ne_env NE) (nd_db nd) (cx_now cx) (Some tx) = (Ok (), db')"
  shows "\<exists>nd'. handlePacket NE cx nd i pkt = (Ok (), nd')
    \<and> unat (balance (led A (nd_db nd')) (tx_To tx)) = unat (balance (led A (nd_db nd)) (tx_To tx)) + unat (tx_Amount tx)
    \<and> (\<forall>pk. pk \<noteq> tx_To tx \<longrightarrow> lg_bal (led A (nd_db nd')) pk = lg_bal (led A (nd_db nd)) pk)"
proof -
  have st: "store_ok (ne_env NE) A (nd_db nd)" using assms(1) by (simp add: node_ok_def core_ok_def)
  note a = apply_balance[OF st assms(9,7,8)]
  with handleTxConfirmed_applies[OF assms(2-4,9,1)] obtain nd' where
    "handlePacket NE cx nd i pkt = (Ok (), nd')" "nd_db nd' = db'" by blast
  with a show ?thesis by simp
qed

lemma Apply_badger:
  assumes "en_badger E = en_badger E'"
  shows "ApplyConfirmedTxBalance E = ApplyConfirmedTxBalance E'"
  by (intro ext) (unfold ApplyConfirmedTxBalance_def assms, rule refl)

theorem forged_confirmation_credits_witness:
  "\<exists>NE nd'. handlePacket (NE :: (mem, mem \<times> gtime) net_env) sample_cx rich_node 0
      \<lparr>pk_Type = PacketTxConfirmed, pk_MsgID = 7, pk_Payload = [5]\<rparr> = (Ok (), nd')
    \<and> unat (balance (led mem_abs (nd_db rich_node)) 5) = 70 \<and> unat (balance (led mem_abs (nd_db nd')) 5) = 1070"
proof -
  let ?tx = "(pay 5)\<lparr>tx_WitnessSigs := [], tx_Hash := 1, tx_SenderSig := sample_tag 3 (arr32 1) + 1\<rparr>"
  let ?NE = "(sample_net no_sigs)\<lparr>ne_confirmed := \<lparr>marshal = (\<lambda>_. Inr [5]), unmarshal = (\<lambda>_. Inr \<lparr>cm_Tx = Some ?tx\<rparr>)\<rparr>\<rparr>"
  let ?p = "\<lparr>pk_Type = PacketTxConfirmed, pk_MsgID = 7, pk_Payload = [5]\<rparr>"
  have ok: "node_ok (ne_env ?NE) mem_abs rich_node" using rich_node_ok[of no_sigs] by simp
  have bal: "balance (led mem_abs (nd_db rich_node)) 5 = 70"
    by (simp add: mem_abs_def balance_ledger_of cell_def rich_node_def NewNode_def)
  obtain db' where a: "ApplyConfirmedTxBalance sample_env (nd_db rich_node) 0 (Some ?tx) = (Ok (), db')"
    using mem_apply[OF rich_node_wf, of ?tx 0] bal by (auto simp: unat_MaxAmount)
  have e: "ApplyConfirmedTxBalance (ne_env ?NE) = ApplyConfirmedTxBalance sample_env"
    by (rule Apply_badger) simp
  have v: "VerifyTx sample_crypto ?tx \<noteq> None"
    by (simp add: VerifyTx_None_iff Verify_def sample_crypto_def)
  have "\<not> IsConfirmedTxApplied mem_badger (nd_db rich_node) 0 1"
    by (simp add: IsConfirmedTxApplied_def mem_DB_Get visible_def rich_node_def NewNode_def)
  with forged_confirmation_credits[OF ok, of ?p ?tx sample_cx db' 0] a e v bal mem_read_ok[OF rich_node_wf]
  obtain nd' where "handlePacket ?NE sample_cx rich_node 0 ?p = (Ok (), nd')"
    "unat (balance (led mem_abs (nd_db nd')) 5) = 1070"
    by (auto simp: rich_node_def NewNode_def NewGossip_def)
  with bal show ?thesis by (intro exI[of _ ?NE] exI[of _ nd']) simp
qed

end
