(* ===== verification/Trust.thy ===== *)
theory Trust
  imports Forgeries
begin

text \<open>
  What a node lets others make it believe: the answer of a witness, and what its checks leave out.
  The confirmations it applies do not change what it verifies, a snapshot is believed as it comes,
  and a handshake can name any key.
\<close>

section \<open>Sending appends\<close>

definition appended :: "(peer_id \<Rightarrow> peer option) \<Rightarrow> (peer_id \<Rightarrow> peer option) \<Rightarrow> bool" where
  "appended h h' \<longleftrightarrow> (\<forall>i p. h i = Some p \<longrightarrow> (\<exists>p' more. h' i = Some p' \<and> pe_sendCh p' = pe_sendCh p @ more))"

lemma appended_refl [simp]: "appended h h"
  by (simp add: appended_def)

lemma appended_trans: "appended h1 h2 \<Longrightarrow> appended h2 h3 \<Longrightarrow> appended h1 h3"
  unfolding appended_def by (metis append.assoc)

lemma Send_appends: "Send J p pkt = (r, p') \<Longrightarrow> \<exists>more. pe_sendCh p' = pe_sendCh p @ more"
  by (auto simp: Send_def Send_push_def split: outcome.splits if_splits)

lemma sendToPeer_appends: "appended (nd_heap nd) (nd_heap (snd (sendToPeer NE nd i pkt)))"
proof (cases "nd_heap nd i")
  case (Some p)
  obtain r p' where s: "Send (ne_packet NE) p pkt = (r, p')" by fastforce
  then have "nd_heap (snd (sendToPeer NE nd i pkt)) = (nd_heap nd)(i \<mapsto> p')"
    using Some by (cases r) (simp_all add: sendToPeer_def Let_def)
  with Some Send_appends[OF s] show ?thesis by (auto simp: appended_def)
qed (simp add: sendToPeer_def)

lemma sendAll_appends: "appended (nd_heap nd) (nd_heap (snd (sendAll NE nd is pkt)))"
proof (induction "is" arbitrary: nd)
  case (Cons i "is")
  obtain r nd1 where s: "sendToPeer NE nd i pkt = (r, nd1)" by fastforce
  with sendToPeer_appends[of nd NE i pkt] have 1: "appended (nd_heap nd) (nd_heap nd1)" by simp
  show ?case using appended_trans[OF 1 Cons.IH[of nd1]] 1 s by (cases r) (simp_all add: andThen_def)
qed simp

lemma broadcast_appends: "appended (nd_heap nd) (nd_heap (snd (broadcast NE draws nd pkt ex)))"
  by (simp add: broadcast_def sendAll_appends)

section \<open>The answer of a witness\<close>

lemma Send_active:
  assumes "pe_state p = PeerActive" and "peer_wf p" and "length (pe_sendCh p) < sendChCap"
    and "Encode J pkt = Ok data"
  shows "Send J p pkt = (Ok (), p\<lparr>pe_sendCh := pe_sendCh p @ [data]\<rparr>)"
  using assms by (simp add: Send_def Send_check_def Send_push_def peer_wf_def)


section \<open>What a witness verifies is not what it confirmed\<close>

text \<open>What \<open>VerifyTx\<close> without a snapshot looked at.\<close>

lemma VerifyTx_checked:
  assumes "store_ok E A db"
    and "TxProcessor_VerifyTx E db now \<lparr>vp_Tx = Some tx, vp_Snapshot = None, vp_KnownTips = K\<rparr> = Ok ()"
  shows "VerifyTx (en_crypto E) tx = None"
    and "lg_seq (led A db) (tx_From tx) = 0 \<or> tx_Sequence tx = lg_seq (led A db) (tx_From tx) + 1"
    and "(case SafeAdd (tx_Amount tx) (BondAmount (tx_Amount tx)) of Ok n \<Rightarrow> n | _ \<Rightarrow> 0)
       \<le> balance (led A db) (tx_From tx)"
proof -
  from assms(2) obtain seq eff where v: "VerifyTx (en_crypto E) tx = None"
    "GetLatestSeq (en_badger E) db now (tx_From tx) = Ok seq"
    "\<not> (seq > 0 \<and> tx_Sequence tx \<noteq> seq + 1)"
    "effectiveBal E db now None (tx_From tx) = Ok eff"
    "\<not> eff < (case SafeAdd (tx_Amount tx) (BondAmount (tx_Amount tx)) of Ok n \<Rightarrow> n | _ \<Rightarrow> 0)"
    unfolding TxProcessor_VerifyTx_def verifyTxInternal_def
    by (auto simp: bindO_eq_Ok Let_def split: option.splits if_splits)
  then show "VerifyTx (en_crypto E) tx = None" by blast
  from v(2,3) chain.get_seq_Ok[OF assms(1)] show
    "lg_seq (led A db) (tx_From tx) = 0 \<or> tx_Sequence tx = lg_seq (led A db) (tx_From tx) + 1"
    by (force simp: word_gt_0)
  from effectiveBal_bound[OF assms(1) v(4)] v(5) show
    "(case SafeAdd (tx_Amount tx) (BondAmount (tx_Amount tx)) of Ok n \<Rightarrow> n | _ \<Rightarrow> 0)
       \<le> balance (led A db) (tx_From tx)"
    by (auto simp: not_less)
qed

text \<open>C21. A node forgets what its peers spent: after it handled the confirmation of a payment, it verifies
  every transaction of the same payer that it verified before, also one with the same sequence and
  one that the payer can no longer afford; for \<open>handleTxConfirmed\<close> credits the receiver and leaves the
  payer's balance and sequence as they were.\<close>

theorem double_spend_verified:
  assumes "node_ok (ne_env NE) A nd" and "pk_Type pkt = PacketTxConfirmed" and "nd_gossip nd (pk_MsgID pkt) = None"
    and "unmarshal (ne_confirmed NE) (pk_Payload pkt) = Inr \<lparr>cm_Tx = Some tx1\<rparr>"
    and "\<not> IsConfirmedTxApplied (en_badger (ne_env NE)) (nd_db nd) (cx_now cx) (tx_Hash tx1)"
    and "is_ok (GetBalance (en_badger (ne_env NE)) (nd_db nd) (cx_now cx) (tx_To tx1))"
    and "ApplyConfirmedTxBalance (ne_env NE) (nd_db nd) (cx_now cx) (Some tx1) = (Ok (), db')"
    and "tx_From tx2 = tx_From tx1" and "tx_From tx1 \<noteq> tx_To tx1"
    and "TxProcessor_VerifyTx (ne_env NE) (nd_db nd) now
           \<lparr>vp_Tx = Some tx2, vp_Snapshot = None, vp_KnownTips = K\<rparr> = Ok ()"
    and "is_ok (GetLatestSeq (en_badger (ne_env NE)) db' now' (tx_From tx2))"
    and "is_ok (GetBalance (en_badger (ne_env NE)) db' now' (tx_From tx2))"
  shows "\<exists>nd'. handlePacket NE cx nd i pkt = (Ok (), nd')
    \<and> TxProcessor_VerifyTx (ne_env NE) (nd_db nd') now'
        \<lparr>vp_Tx = Some tx2, vp_Snapshot = None, vp_KnownTips = K\<rparr> = Ok ()"
proof -
  have st: "store_ok (ne_env NE) A (nd_db nd)" using assms(1) by (simp add: node_ok_def core_ok_def)
  note a = apply_balance[OF st assms(7,5,6)]
  with handleTxConfirmed_applies[OF assms(2-4,7,1)] obtain nd' where
    h: "handlePacket NE cx nd i pkt = (Ok (), nd')" "nd_db nd' = db'" by blast
  have "balance (led A db') (tx_From tx2) = balance (led A (nd_db nd)) (tx_From tx2)"
    using a assms(8,9) by (simp add: balance_def)
  with VerifyTx_checked[OF st assms(10)] a assms(11,12)
  have "TxProcessor_VerifyTx (ne_env NE) db' now' \<lparr>vp_Tx = Some tx2, vp_Snapshot = None, vp_KnownTips = K\<rparr> = Ok ()"
    by (intro VerifyTx_accepts[of _ A]) simp_all
  with h show ?thesis by auto
qed

section \<open>Snapshots are believed\<close>

text \<open>C22. A payer names its own balance: a node that has no balance and no sequence of an account
  accepts every well-signed transaction of it whose snapshot has not expired and states enough; the
  snapshot is neither signed nor checked to be the payer's.\<close>

theorem unbacked_snapshot_accepted:
  assumes "VerifyTx (en_crypto E) tx = None"
    and "\<not> HasBalance (en_badger E) db now (tx_From tx)"
    and "GetLatestSeq (en_badger E) db now (tx_From tx) = Ok 0"
    and "\<not> IsExpired now s" and "cost tx \<le> unat (sn_Balance s)"
  shows "TxProcessor_VerifyTx E db now \<lparr>vp_Tx = Some tx, vp_Snapshot = Some s, vp_KnownTips = K\<rparr> = Ok ()"
proof -
  have "(case SafeAdd (tx_Amount tx) (BondAmount (tx_Amount tx)) of Ok n \<Rightarrow> n | _ \<Rightarrow> 0) \<le> sn_Balance s"
    using assms(5) cost_SafeAdd[of tx] by (auto simp: word_le_nat_alt split: outcome.splits)
  then have "\<not> sn_Balance s < (case SafeAdd (tx_Amount tx) (BondAmount (tx_Amount tx)) of Ok n \<Rightarrow> n | _ \<Rightarrow> 0)"
    by (simp add: not_less)
  with assms(1-4) show ?thesis
    by (simp add: TxProcessor_VerifyTx_def verifyTxInternal_def effectiveBal_def Let_def)
qed

section \<open>Handshakes name any key\<close>

text \<open>C23. A peer can take another's place: a connection whose handshake names the key of a connected
  peer replaces it in the table, so that what the node sends to that key, the witness signatures of a
  payer for one, goes to the new connection.\<close>

theorem handshake_takes_over:
  assumes "node_ok (ne_env NE) A nd" and "length (nd_peers nd) < MaxPeers"
    and "map_of (nd_peers nd) pk = Some j"
    and "ReadPacket (ne_packet NE) conn = (Ok pkt, conn')" and "pk_Type pkt = PacketHandshake"
    and "unmarshal (ne_pubkey NE) (pk_Payload pkt) = Inr pk"
    and "handleInbound NE nd addr conn = (r, nd')"
  shows "map_of (nd_peers nd') pk = Some (nd_next nd) \<and> nd_next nd \<noteq> j
    \<and> (\<forall>q. sendToOriginator NE nd' pk q = sendToPeer NE nd' (nd_next nd) q)"
proof -
  obtain nd1 where al: "allocPeer nd pk addr = (nd_next nd, nd1)" by (simp add: allocPeer_def)
  from join_ok[OF assms(1,2) al] obtain nd2 where
    j: "addPeer nd1 (nd_next nd) = (Ok (), nd2)" "map_of (nd_peers nd2) pk = Some (nd_next nd)" by blast
  have "nd' = nd2"
    using assms(4-7) al j by (simp add: handleInbound_def Let_def andThen_def)
  moreover have "nd_next nd \<noteq> j"
    using assms(1,3) by (force simp: node_ok_def peers_ok_def dest!: map_of_SomeD)
  ultimately show ?thesis using j(2) by (simp add: sendToOriginator_def)
qed

section \<open>Concrete cases\<close>

lemma signed_sample:
  obtains tx where "VerifyTx sample_crypto tx = None" and "tx_From tx = kp_Public sample_key"
    and "tx_Sequence tx = 1" and "tx_Amount tx = 1000"
proof -
  from SignTx_verifies[OF sample_crypto_ok sample_key_wf, of sample_tx] obtain sig where
    "VerifyTx sample_crypto (sample_tx\<lparr>tx_Hash := tx_digest sample_crypto sample_tx, tx_SenderSig := sig\<rparr>) = None"
    by (auto simp: sample_tx_def)
  then show ?thesis by (rule that) (simp_all add: sample_tx_def)
qed

lemma sample_key_public: "kp_Public sample_key = 8"
proof -
  have "kp_Public sample_key = be_word [7] + 1"
    by (simp add: sample_key_def ed_public_def sample_crypto_def)
  then show ?thesis by (simp add: be_word_def)
qed

lemma mem_seq_ok: "chain_wf (ab_db mem_abs db) \<Longrightarrow> is_ok (GetLatestSeq mem_badger db now pk)"
proof -
  assume "chain_wf (ab_db mem_abs db)"
  then have "cell_ok (map_of db (seqKey pk))" by (simp add: mem_abs_def chain_wf_def)
  then show ?thesis
    by (auto simp: GetLatestSeq_def read_u64_def mem_DB_Get visible_cell Uint64_def split: option.splits)
qed

lemma joined_node:
  assumes "fresh_node NE A (NewNode kp db)"
  obtains nd where "node_ok (ne_env NE) A nd" and "nd_peers nd = [(pk, 0)]" and "nd_heap nd 0 = Some (NewPeer pk [])"
    and "nd_db nd = db" and "nd_kp nd = kp" and "nd_gossip nd = NewGossip" and "nd_next nd = 1"
proof -
  let ?nd = "(NewNode kp db)\<lparr>nd_heap := [0 \<mapsto> NewPeer pk []], nd_next := 1\<rparr>"
  have ok: "node_ok (ne_env NE) A (NewNode kp db)" using node_inv_New[OF assms] by (simp add: node_inv_def)
  have al: "allocPeer (NewNode kp db) pk [] = (0, ?nd)" by (simp add: allocPeer_def NewNode_def)
  have "addPeer ?nd 0 = (Ok (), ?nd\<lparr>nd_peers := [(pk, 0)]\<rparr>)"
    by (simp add: addPeer_def NewNode_def NewPeer_def MaxPeers_def)
  with join_ok[OF ok _ al] have "node_ok (ne_env NE) A (?nd\<lparr>nd_peers := [(pk, 0)]\<rparr>)"
    by (auto simp: NewNode_def MaxPeers_def)
  then show ?thesis by (rule that) (simp_all add: NewNode_def)
qed

theorem unbacked_snapshot_accepted_witness:
  "\<exists>tx. tx_Amount tx = 1000 \<and> TxProcessor_VerifyTx sample_env [] 0 \<lparr>vp_Tx = Some tx,
      vp_Snapshot = Some \<lparr>sn_PubKey = 99, sn_Sequence = 0, sn_Balance = 5000, sn_DAGTips = [], sn_CreatedAt = 0,
        sn_ExpiresAt = 9\<rparr>, vp_KnownTips = {}\<rparr> = Ok ()"
proof -
  let ?s = "\<lparr>sn_PubKey = 99, sn_Sequence = 0, sn_Balance = 5000, sn_DAGTips = [], sn_CreatedAt = 0, sn_ExpiresAt = 9\<rparr>"
  obtain tx where tx: "VerifyTx sample_crypto tx = None" "tx_Amount tx = 1000" by (rule signed_sample)
  have "TxProcessor_VerifyTx sample_env [] 0 \<lparr>vp_Tx = Some tx, vp_Snapshot = Some ?s, vp_KnownTips = {}\<rparr> = Ok ()"
    by (rule unbacked_snapshot_accepted)
      (simp_all add: tx HasBalance_def GetLatestSeq_def read_u64_def mem_DB_Get visible_def IsExpired_def
        cost_def unat_BondAmount)
  with tx(2) show ?thesis by blast
qed

theorem handshake_takes_over_witness:
  "\<exists>NE nd r nd'. map_of (nd_peers nd) 9 = Some 0
    \<and> handleInbound (NE :: (mem, mem \<times> gtime) net_env) nd [] (PutUint32 0) = (r, nd')
    \<and> map_of (nd_peers nd') 9 = Some 1"
proof -
  let ?h = "\<lparr>pk_Type = PacketHandshake, pk_MsgID = 0, pk_Payload = []\<rparr>"
  let ?NE = "(sample_net no_sigs)\<lparr>ne_packet := \<lparr>marshal = (\<lambda>_. Inr []), unmarshal = (\<lambda>_. Inr ?h)\<rparr>\<rparr>"
  have "fresh_node ?NE mem_abs sample_node"
    using sample_fresh[of no_sigs] by (simp add: fresh_node_def)
  then obtain nd where nd: "node_ok (ne_env ?NE) mem_abs nd" "nd_peers nd = [(9, 0)]" "nd_next nd = 1"
    unfolding sample_node_def by (rule joined_node)
  have rd: "ReadPacket (ne_packet ?NE) (PutUint32 0) = (Ok ?h, [])"
    using ReadPacket_frame[of "[]" "ne_packet ?NE" "[]"] by simp
  obtain r nd' where h: "handleInbound ?NE nd [] (PutUint32 0) = (r, nd')" by fastforce
  have "map_of (nd_peers nd') 9 = Some (nd_next nd)"
    using handshake_takes_over[OF nd(1) _ _ rd _ _ h, of 9 0] nd(2)
    by (simp add: MaxPeers_def sample_net_def)
  with nd h show ?thesis by (intro exI[of _ ?NE] exI[of _ nd] exI[of _ r] exI[of _ nd']) simp
qed

theorem double_spend_verified_witness:
  "\<exists>NE tx1 tx2 nd'. tx_Sequence tx1 = tx_Sequence tx2 \<and> tx_From tx1 = tx_From tx2 \<and> 5000 < cost tx1 + cost tx2
    \<and> handlePacket (NE :: (mem, mem \<times> gtime) net_env) sample_cx sample_node 0
        \<lparr>pk_Type = PacketTxConfirmed, pk_MsgID = 7, pk_Payload = []\<rparr> = (Ok (), nd')
    \<and> TxProcessor_VerifyTx (ne_env NE) (nd_db nd') 9 \<lparr>vp_Tx = Some tx2, vp_Snapshot = None, vp_KnownTips = {}\<rparr> = Ok ()"
proof -
  let ?tx1 = "sample_tx\<lparr>tx_Amount := 4500\<rparr>"
  let ?NE = "(sample_net no_sigs)\<lparr>ne_confirmed := \<lparr>marshal = (\<lambda>_. Inr [5]), unmarshal = (\<lambda>_. Inr \<lparr>cm_Tx = Some ?tx1\<rparr>)\<rparr>\<rparr>"
  let ?p = "\<lparr>pk_Type = PacketTxConfirmed, pk_MsgID = 7, pk_Payload = []\<rparr>"
  obtain tx2 where tx2: "VerifyTx sample_crypto tx2 = None" "tx_From tx2 = kp_Public sample_key"
    "tx_Sequence tx2 = 1" "tx_Amount tx2 = 1000" by (rule signed_sample)
  have ok: "node_ok (ne_env ?NE) mem_abs sample_node" using sample_node_ok(1)[of no_sigs] by simp
  have wf: "chain_wf (ab_db mem_abs (nd_db sample_node))" using sample_store_ok by simp
  have bal: "balance (led mem_abs (nd_db sample_node)) (kp_Public sample_key) = 5000"
    "balance (led mem_abs (nd_db sample_node)) 5 = 0"
    "lg_seq (led mem_abs (nd_db sample_node)) (kp_Public sample_key) = 0"
    by (simp_all add: sample_key_public mem_abs_def balance_ledger_of cell_def ledger_of_sel)
  obtain db' where a: "ApplyConfirmedTxBalance sample_env (nd_db sample_node) 0 (Some ?tx1) = (Ok (), db')"
    using mem_apply[OF wf, of ?tx1 0] bal by (auto simp: unat_MaxAmount sample_tx_def)
  have e: "ApplyConfirmedTxBalance (ne_env ?NE) = ApplyConfirmedTxBalance sample_env"
    by (rule Apply_badger) simp
  have na: "\<not> IsConfirmedTxApplied mem_badger (nd_db sample_node) 0 (tx_Hash ?tx1)"
    by (simp add: IsConfirmedTxApplied_def mem_DB_Get visible_def)
  have "chain_wf (ab_db mem_abs db')"
    using apply_balance[of sample_env mem_abs, OF _ a] wf na mem_read_ok[OF wf] by simp
  note rd = mem_seq_ok[OF this] mem_read_ok[OF this]
  have v: "TxProcessor_VerifyTx (ne_env ?NE) (nd_db sample_node) 9
      \<lparr>vp_Tx = Some tx2, vp_Snapshot = None, vp_KnownTips = {}\<rparr> = Ok ()"
    using wf bal tx2 mem_seq_ok[OF wf] mem_read_ok[OF wf]
    by (intro VerifyTx_accepts[of _ mem_abs])
      (simp_all add: SafeAdd_def BondAmount_def calcBond_def bondDivisor_def MaxAmount_def del: sample_node_sel(6))
  have "tx_To ?tx1 = 5" "tx_From ?tx1 = kp_Public sample_key" by (simp_all add: sample_tx_def)
  with double_spend_verified[OF ok, of ?p ?tx1 sample_cx db' tx2 9 "{}" 9 0] a e na rd v mem_read_ok[OF wf] tx2
  obtain nd' where "handlePacket ?NE sample_cx sample_node 0 ?p = (Ok (), nd')"
    "TxProcessor_VerifyTx (ne_env ?NE) (nd_db nd') 9 \<lparr>vp_Tx = Some tx2, vp_Snapshot = None, vp_KnownTips = {}\<rparr> = Ok ()"
    by (auto simp: sample_key_public NewGossip_def)
  moreover have "tx_Sequence ?tx1 = 1" "5000 < cost ?tx1 + cost tx2"
    by (simp_all add: sample_tx_def cost_def unat_BondAmount tx2)
  ultimately show ?thesis
    using tx2 by (intro exI[of _ ?NE] exI[of _ ?tx1] exI[of _ tx2] exI[of _ nd']) (simp add: sample_tx_def)
qed


end
