(* ===== verification/Network.thy ===== *)
theory Network
  imports Trust
begin

text \<open>
  Nodes that talk to each other. A network is the nodes with the bytes under way between their
  connections; its steps are the nodes' own calls, a write pump that puts a frame on a connection and
  a packet loop that takes one off. Which peer objects are the two ends of one connection is the
  parameter \<open>L\<close>; a peer that has no other end in the network is outside and sends what it likes.
\<close>

section \<open>Networks\<close>

type_synonym end_point = "nat \<times> peer_id"

record 'db network =
  nw_node :: "nat \<Rightarrow> 'db node"
  nw_wire :: "end_point \<Rightarrow> bytes"

datatype net_event =
    Local nat node_event
  | Written nat peer_id bytes
  | Got nat peer_id step_ctx packet
  | Outside nat peer_id step_ctx packet

text \<open>The calls of a node that do not touch a connection.\<close>

fun own_call :: "node_event \<Rightarrow> bool" where
  "own_call (Receive cx i pkt) = False"
| "own_call (Pump i (Some d)) = False"
| "own_call _ = True"

definition put_node :: "nat \<Rightarrow> 'db node \<Rightarrow> 'db network \<Rightarrow> 'db network" where
  "put_node n nd s = s\<lparr>nw_node := (nw_node s)(n := nd)\<rparr>"

definition put_wire :: "end_point option \<Rightarrow> bytes \<Rightarrow> 'db network \<Rightarrow> 'db network" where
  "put_wire e d s = (case e of None \<Rightarrow> s | Some e \<Rightarrow> s\<lparr>nw_wire := (nw_wire s)(e := nw_wire s e @ d)\<rparr>)"

inductive net_step ::
  "('db, 'txn) net_env \<Rightarrow> (end_point \<Rightarrow> end_point option) \<Rightarrow> 'db network \<Rightarrow> net_event \<Rightarrow> 'db network \<Rightarrow> bool"
  for NE :: "('db, 'txn) net_env" and L :: "end_point \<Rightarrow> end_point option" where
  own: "own_call e \<Longrightarrow> node_step NE (nw_node s n) e nd' \<Longrightarrow> net_step NE L s (Local n e) (put_node n nd' s)"
| written: "node_step NE (nw_node s n) (Pump i (Some d)) nd' \<Longrightarrow>
    net_step NE L s (Written n i d) (put_wire (L (n, i)) d (put_node n nd' s))"
| got: "L (m, j) \<noteq> None \<Longrightarrow> ReadPacket (ne_packet NE) (nw_wire s (m, j)) = (Ok pkt, rest) \<Longrightarrow>
    node_step NE (nw_node s m) (Receive cx j pkt) nd' \<Longrightarrow>
    net_step NE L s (Got m j cx pkt) ((put_node m nd' s)\<lparr>nw_wire := (nw_wire s)((m, j) := rest)\<rparr>)"
| outside: "L (m, j) = None \<Longrightarrow> node_step NE (nw_node s m) (Receive cx j pkt) nd' \<Longrightarrow>
    net_step NE L s (Outside m j cx pkt) (put_node m nd' s)"

inductive_cases net_stepE: "net_step NE L s e s'"

lemma put_sel [simp]:
  "nw_node (put_node n nd s) = (nw_node s)(n := nd)" "nw_wire (put_node n nd s) = nw_wire s"
  "nw_node (put_wire e d s) = nw_node s"
  by (simp_all add: put_node_def put_wire_def split: option.split)

definition net_start :: "('db, 'txn) net_env \<Rightarrow> ('db, 'txn) badger_abs \<Rightarrow> 'db network \<Rightarrow> bool" where
  "net_start NE A s \<longleftrightarrow> (\<forall>n. fresh_node NE A (nw_node s n)) \<and> nw_wire s = (\<lambda>_. [])"

definition net_inv :: "('db, 'txn) net_env \<Rightarrow> ('db, 'txn) badger_abs \<Rightarrow> 'db network \<Rightarrow> bool" where
  "net_inv NE A s \<longleftrightarrow> (\<forall>n. node_inv NE A (nw_node s n))"

lemma net_inv_node: "net_inv NE A s \<Longrightarrow> node_inv NE A (nw_node s n)"
  by (simp add: net_inv_def)

text \<open>Every step is a call of one node, and leaves the others alone.\<close>

fun call_of :: "net_event \<Rightarrow> nat \<times> node_event" where
  "call_of (Local n e) = (n, e)"
| "call_of (Written n i d) = (n, Pump i (Some d))"
| "call_of (Got m j cx pkt) = (m, Receive cx j pkt)"
| "call_of (Outside m j cx pkt) = (m, Receive cx j pkt)"

lemma net_step_call:
  assumes "net_step NE L s e s'" and "call_of e = (n, c)"
  shows "node_step NE (nw_node s n) c (nw_node s' n)" and "m \<noteq> n \<Longrightarrow> nw_node s' m = nw_node s m"
  using assms by (auto elim!: net_stepE)

lemma net_inv_step:
  assumes "net_inv NE A s" and "net_step NE L s e s'"
  shows "net_inv NE A s'"
  unfolding net_inv_def
proof
  fix m
  obtain n c where c: "call_of e = (n, c)" by fastforce
  with net_step_call[OF assms(2) c] node_inv_step[OF net_inv_node[OF assms(1)]] net_inv_node[OF assms(1)]
  show "node_inv NE A (nw_node s' m)" by (cases "m = n") auto
qed

interpretation networks: machine "net_start NE A" "net_step NE L" "net_inv NE A" for NE A L
  by (unfold_locales, (simp add: net_start_def net_inv_def node_inv_New)[1], rule net_inv_step)

section \<open>What a connection carries\<close>

text \<open>The frames written at one end of a connection, and the packets taken off at one end, in the order of
  the run.\<close>

definition written_at :: "nat \<Rightarrow> peer_id \<Rightarrow> net_event list \<Rightarrow> bytes list" where
  "written_at n i es =
     concat (map (\<lambda>e. case e of Written n' i' d \<Rightarrow> if n' = n \<and> i' = i then [d] else [] | _ \<Rightarrow> []) es)"

definition got_at :: "nat \<Rightarrow> peer_id \<Rightarrow> net_event list \<Rightarrow> packet list" where
  "got_at m j es =
     concat (map (\<lambda>e. case e of Got m' j' cx pkt \<Rightarrow> if m' = m \<and> j' = j then [pkt] else [] | _ \<Rightarrow> []) es)"

lemma history_Nil [simp]: "written_at n i [] = []" "got_at m j [] = []"
  by (simp_all add: written_at_def got_at_def)

lemma history_snoc:
  "written_at n i (es @ [e]) = written_at n i es @
     (case e of Written n' i' d \<Rightarrow> if n' = n \<and> i' = i then [d] else [] | _ \<Rightarrow> [])"
  "got_at m j (es @ [e]) = got_at m j es @
     (case e of Got m' j' cx pkt \<Rightarrow> if m' = m \<and> j' = j then [pkt] else [] | _ \<Rightarrow> [])"
  by (simp_all add: written_at_def got_at_def)

definition link_ok :: "(end_point \<Rightarrow> end_point option) \<Rightarrow> bool" where
  "link_ok L \<longleftrightarrow> (\<forall>e f. L e = Some f \<longleftrightarrow> L f = Some e)"

text \<open>A frame at the front of a stream is read alone.\<close>

lemma ReadPacket_front:
  assumes "is_frame d" and "length d < 2 ^ 32" and "ReadPacket J (d @ rest) = (Ok pkt, rest')"
  shows "rest' = rest \<and> ReadPacket J d = (Ok pkt, [])"
proof -
  from assms(1) obtain x where d: "d = PutUint32 (word_of_nat (length x)) @ x" by (auto simp: is_frame_def)
  with assms(2) have x: "length x < 2 ^ 32" by simp
  from assms(3) ReadPacket_frame[OF x, of J rest] ReadPacket_frame[OF x, of J "[]"] show ?thesis
    by (auto simp: d split: if_splits sum.splits)
qed

lemma pumped_frame:
  assumes "node_inv NE A nd" and "node_step NE nd (Pump i (Some d)) nd'"
  shows "is_frame d"
  using assms(2)
proof (cases rule: node_step.cases)
  case (pump p ok p')
  with assms(1) have "peer_wf p" by (auto simp: node_inv_def node_ok_def peers_ok_def heap_wf_def)
  with pump show ?thesis by (auto simp: PumpStep_def peer_wf_def split: list.splits if_splits)
qed (auto simp: PumpStep_def split: list.splits if_splits)

lemma ReadPacket_Nil: "ReadPacket J [] \<noteq> (Ok pkt, rest)"
  by (simp add: ReadPacket_def ReadFull_def)

definition carried ::
  "packet codec \<Rightarrow> bytes list \<Rightarrow> packet list \<Rightarrow> bytes \<Rightarrow> bool" where
  "carried J ds ps w \<longleftrightarrow>
     list_all2 (\<lambda>pkt d. ReadPacket J d = (Ok pkt, [])) ps (take (length ps) ds)
     \<and> w = concat (drop (length ps) ds)"

lemma carried_write:
  assumes "carried J ds ps w"
  shows "carried J (ds @ [d]) ps (w @ d)"
proof -
  have "length ps = length (take (length ps) ds)"
    using assms by (auto simp: carried_def dest: list_all2_lengthD)
  then have "length ps \<le> length ds" by simp
  with assms show ?thesis by (simp add: carried_def)
qed

lemma carried_read:
  assumes "carried J ds ps w" and "ReadPacket J w = (Ok pkt, rest)" and "\<forall>d \<in> set ds. is_frame d \<and> length d < 2 ^ 32"
  shows "carried J ds (ps @ [pkt]) rest"
proof (cases "drop (length ps) ds")
  case Nil
  with assms(1,2) ReadPacket_Nil show ?thesis by (simp add: carried_def)
next
  case (Cons d ds')
  then have d: "is_frame d" "length d < 2 ^ 32"
    using assms(3) in_set_dropD[of d "length ps" ds] by auto
  have w: "w = d @ concat ds'" using assms(1) Cons by (simp add: carried_def)
  from ReadPacket_front[OF d, of J "concat ds'" pkt rest] assms(2) w have
    r: "rest = concat ds'" "ReadPacket J d = (Ok pkt, [])" by simp_all
  have "length ps < length ds" using Cons by (metis drop_all list.discI not_less)
  then have "take (Suc (length ps)) ds = take (length ps) ds @ [d]" "drop (Suc (length ps)) ds = ds'"
    using Cons by (simp_all add: take_Suc_conv_app_nth Cons_nth_drop_Suc[symmetric])
  with assms(1) r show ?thesis
    by (simp add: carried_def list_all2_appendI)
qed

text \<open>C13. A connection between two nodes carries what was written, in order and unchanged: in every run of
  a network, whatever else its nodes do and outsiders send, the packets that one end handled are what
  the first frames written at the other end decode to, each once and in their order, and the bytes
  still under way are the frames after them; every node keeps its invariant.\<close>

theorem connections_carry:
  assumes "net_start NE A s0" and "link_ok L" and "runs (net_step NE L) s0 es s" and "L (n, i) = Some (m, j)"
    and "\<forall>d \<in> set (written_at n i es). length d < 2 ^ 32"
  shows "net_inv NE A s
    \<and> list_all2 (\<lambda>pkt d. ReadPacket (ne_packet NE) d = (Ok pkt, [])) (got_at m j es)
        (take (length (got_at m j es)) (written_at n i es))
    \<and> nw_wire s (m, j) = concat (drop (length (got_at m j es)) (written_at n i es))"
proof -
  have "(\<forall>d \<in> set (written_at n i es). is_frame d)
    \<and> carried (ne_packet NE) (written_at n i es) (got_at m j es) (nw_wire s (m, j))"
    using assms(3,5)
  proof (induction rule: runs.induct)
    case runs_Nil
    with assms(1) show ?case by (simp add: net_start_def carried_def)
  next
    case (runs_snoc es s e s')
    have inv: "net_inv NE A s" using networks.inv_reachable[OF assms(1) runs_snoc.hyps(1)] .
    have IH: "\<forall>d \<in> set (written_at n i es). is_frame d"
      "carried (ne_packet NE) (written_at n i es) (got_at m j es) (nw_wire s (m, j))"
      using runs_snoc.IH runs_snoc.prems by (simp_all add: history_snoc)
    show ?case
      using runs_snoc.hyps(2)
    proof (cases rule: net_step.cases)
      case (written n' i' d nd')
      have f: "is_frame d" by (rule pumped_frame[OF net_inv_node[OF inv] written(3)])
      have "L (n', i') = Some (m, j) \<longleftrightarrow> n' = n \<and> i' = i"
        using assms(2,4) unfolding link_ok_def by (metis option.inject prod.inject)
      with IH f written carried_write[OF IH(2), of d] show ?thesis
        by (auto simp: history_snoc put_wire_def split: option.split)
    next
      case (got m' j' pkt rest cx nd')
      show ?thesis
      proof (cases "m' = m \<and> j' = j")
        case True
        have "\<forall>d \<in> set (written_at n i es). is_frame d \<and> length d < 2 ^ 32"
          using IH(1) runs_snoc.prems by (auto simp: history_snoc)
        with carried_read[OF IH(2)] got True IH(1) show ?thesis by (simp add: history_snoc)
      qed (use IH got in \<open>auto simp: history_snoc\<close>)
    qed (use IH in \<open>auto simp: history_snoc\<close>)
  qed
  moreover have "net_inv NE A s" using networks.inv_reachable[OF assms(1,3)] .
  ultimately show ?thesis by (simp add: carried_def)
qed

end
