(* ===== verification/Delivery.thy ===== *)
theory Delivery
  imports Network
begin

text \<open>
  What the handlers of a payment queue for the other side of each connection, and how a queued packet
  comes to be handled there: the steps from which runs of a network are put together.
\<close>

section \<open>Channels\<close>

definition chan :: "'db node \<Rightarrow> peer_id \<Rightarrow> bytes list" where
  "chan nd i = (case nd_heap nd i of None \<Rightarrow> [] | Some p \<Rightarrow> pe_sendCh p)"

abbreviation node_key :: "'db node \<Rightarrow> pubkey" where
  "node_key nd \<equiv> kp_Public (nd_kp nd)"

abbreviation ids :: "'db node \<Rightarrow> peer_id list" where
  "ids nd \<equiv> map snd (nd_peers nd)"

definition queue_at :: "bytes \<Rightarrow> peer_id set \<Rightarrow> (peer_id \<Rightarrow> peer option) \<Rightarrow> peer_id \<Rightarrow> peer option" where
  "queue_at d I h i = (if i \<in> I then map_option (\<lambda>p. p\<lparr>pe_sendCh := pe_sendCh p @ [d]\<rparr>) (h i) else h i)"

lemma queue_at_None [simp]: "queue_at d I h i = None \<longleftrightarrow> h i = None"
  by (simp add: queue_at_def)

lemma peer_of_id:
  assumes "node_ok E A nd" and "i \<in> set (ids nd)"
  obtains p where "nd_heap nd i = Some p" and "pe_state p = PeerActive" and "peer_wf p"
proof -
  from assms obtain k where "(k, i) \<in> set (nd_peers nd)" by auto
  with assms(1) obtain p where "nd_heap nd i = Some p" "pe_state p = PeerActive"
    by (fastforce simp: node_ok_def peers_ok_def)
  with assms(1) show ?thesis by (intro that[of p]) (auto simp: node_ok_def peers_ok_def heap_wf_def)
qed

lemma ids_distinct:
  assumes "node_ok E A nd"
  shows "distinct (ids nd)"
proof -
  have pk: "peers_ok nd" using assms by (simp add: node_ok_def)
  have "inj_on snd (set (nd_peers nd))"
  proof (rule inj_onI)
    fix x y assume xy: "x \<in> set (nd_peers nd)" "y \<in> set (nd_peers nd)" "snd x = snd y"
    have "\<exists>p. nd_heap nd (snd z) = Some p \<and> pe_PubKey p = fst z" if "z \<in> set (nd_peers nd)" for z
      using pk that unfolding peers_ok_def by (cases z) auto
    from this[OF xy(1)] this[OF xy(2)] xy(3) have "fst x = fst y" by auto
    with xy(3) show "x = y" by (simp add: prod_eq_iff)
  qed
  moreover have "distinct (nd_peers nd)" using pk by (auto simp: peers_ok_def distinct_map)
  ultimately show ?thesis by (simp add: distinct_map)
qed

lemma sendAll_queue:
  assumes "distinct is" and "Encode (ne_packet NE) pkt = Ok d"
    and "\<forall>i \<in> set is. \<exists>p. nd_heap nd i = Some p \<and> pe_state p = PeerActive \<and> peer_wf p \<and> length (pe_sendCh p) < sendChCap"
  shows "sendAll NE nd is pkt = (Ok (), nd\<lparr>nd_heap := queue_at d (set is) (nd_heap nd)\<rparr>)"
  using assms(1,3)
proof (induction "is" arbitrary: nd)
  case Nil
  have "queue_at d {} (nd_heap nd) = nd_heap nd" by (auto simp: queue_at_def)
  then show ?case by simp
next
  case (Cons i "is")
  then obtain p where p: "nd_heap nd i = Some p" "pe_state p = PeerActive" "peer_wf p" "length (pe_sendCh p) < sendChCap"
    by auto
  let ?nd = "nd\<lparr>nd_heap := (nd_heap nd)(i \<mapsto> p\<lparr>pe_sendCh := pe_sendCh p @ [d]\<rparr>)\<rparr>"
  have 1: "sendToPeer NE nd i pkt = (Ok (), ?nd)"
    using p Send_active[OF p(2-4) assms(2)] by (simp add: sendToPeer_def Let_def)
  have "sendAll NE ?nd is pkt = (Ok (), ?nd\<lparr>nd_heap := queue_at d (set is) (nd_heap ?nd)\<rparr>)"
    using Cons.prems by (intro Cons.IH) auto
  moreover have "queue_at d (set is) (nd_heap ?nd) = queue_at d (set (i # is)) (nd_heap nd)"
    using Cons.prems(1) p(1) by (auto simp: queue_at_def fun_eq_iff)
  ultimately show ?case using 1 by (simp add: andThen_def)
qed

definition room :: "nat \<Rightarrow> 'db node \<Rightarrow> bool" where
  "room n nd \<longleftrightarrow> length (nd_peers nd) \<le> Fanout \<and> (\<forall>i \<in> set (ids nd). length (chan nd i) + n \<le> sendChCap)"

text \<open>With no more peers than the fan-out and room in their channels, a broadcast queues the packet for
  each peer in the table, once.\<close>

lemma broadcast_queue:
  assumes "node_ok E A nd" and "room (Suc n) nd" and "Encode (ne_packet NE) pkt = Ok d"
  obtains nd' where "broadcast NE draws nd pkt None = (Ok (), nd')" and "sent nd nd'" and "node_ok E A nd'"
    and "room n nd'" and "\<And>i. chan nd' i = (if i \<in> set (ids nd) then chan nd i @ [d] else chan nd i)"
    and "\<And>i. nd_heap nd' i = None \<longleftrightarrow> nd_heap nd i = None"
proof -
  let ?nd = "nd\<lparr>nd_heap := queue_at d (set (ids nd)) (nd_heap nd)\<rparr>"
  have "\<forall>i \<in> set (ids nd). \<exists>p. nd_heap nd i = Some p \<and> pe_state p = PeerActive \<and> peer_wf p
      \<and> length (pe_sendCh p) < sendChCap"
  proof
    fix i assume i: "i \<in> set (ids nd)"
    from peer_of_id[OF assms(1) this] obtain p where "nd_heap nd i = Some p" "pe_state p = PeerActive" "peer_wf p" .
    moreover from this i assms(2) have "length (pe_sendCh p) < sendChCap" by (auto simp: room_def chan_def)
    ultimately show "\<exists>p. nd_heap nd i = Some p \<and> pe_state p = PeerActive \<and> peer_wf p
      \<and> length (pe_sendCh p) < sendChCap" by blast
  qed
  from sendAll_queue[OF ids_distinct[OF assms(1)] assms(3) this] assms(2)
  have b: "broadcast NE draws nd pkt None = (Ok (), ?nd)"
    by (simp add: broadcast_def SelectPeers_def room_def)
  from broadcast_done[OF assms(1), of NE draws pkt None] b have ok: "node_ok E A ?nd" "sent nd ?nd" by auto
  have ch: "chan ?nd i = (if i \<in> set (ids nd) then chan nd i @ [d] else chan nd i)" for i
  proof (cases "i \<in> set (ids nd)")
    case True
    from peer_of_id[OF assms(1) this] obtain p where "nd_heap nd i = Some p" .
    with True show ?thesis by (simp add: chan_def queue_at_def)
  qed (simp add: chan_def queue_at_def)
  have "room n ?nd" using assms(2) unfolding room_def ch by simp
  with b ok ch show ?thesis by (intro that[of ?nd]) simp_all
qed

section \<open>The stores\<close>

text \<open>A database whose reads do not fail, and one whose reads and writes do not.\<close>

definition reads_ok :: "('db, 'txn) env \<Rightarrow> bool" where
  "reads_ok E \<longleftrightarrow> (\<forall>db now k. snd (DB_Get (en_badger E) db now k) = None)"

definition reliable :: "('db, 'txn) env \<Rightarrow> bool" where
  "reliable E \<longleftrightarrow> reads_ok E \<and>
     (\<forall>db now k v ttl. fst (DB_SetWithTTL (en_badger E) db now k v ttl) = None) \<and>
     (\<forall>db now b. fst (ConfirmTxBatch (en_badger E) (en_tx E) db now b) = None)"

lemma reliable_reads: "reliable E \<Longrightarrow> reads_ok E"
  by (simp add: reliable_def)

lemma reliable_get:
  assumes "reads_ok E" and "badger_ok (en_badger E) A"
  shows "DB_Get (en_badger E) db now k = (visible now (ab_db A db) k, None)"
  using assms dbkv.get_value[OF assms(2), of db now k] by (auto simp: reads_ok_def prod_eq_iff)

lemma reads_balance:
  assumes "reads_ok E" and "store_ok E A db"
  shows "GetBalance (en_badger E) db now pk = Ok (balance (led A db) pk)"
    and "GetLatestSeq (en_badger E) db now pk = Ok (lg_seq (led A db) pk)"
proof -
  have c: "cell_ok (ab_db A db (balKey pk))" "cell_ok (ab_db A db (seqKey pk))"
    using assms(2) by (auto simp: chain_wf_def)
  note g = reliable_get[OF assms(1) conjunct1[OF assms(2)]]
  from c(1) have "is_ok (GetBalance (en_badger E) db now pk)"
    by (auto simp: GetBalance_def read_u64_def g visible_cell Uint64_def split: option.splits)
  with chain.get_bal_Ok[OF assms(2)] show "GetBalance (en_badger E) db now pk = Ok (balance (led A db) pk)"
    by (auto simp: is_ok_iff)
  from c(2) have "is_ok (GetLatestSeq (en_badger E) db now pk)"
    by (auto simp: GetLatestSeq_def read_u64_def g visible_cell Uint64_def split: option.splits)
  with chain.get_seq_Ok[OF assms(2)] show "GetLatestSeq (en_badger E) db now pk = Ok (lg_seq (led A db) pk)"
    by (auto simp: is_ok_iff)
qed

lemma reads_HasBalance:
  assumes "reads_ok E" and "store_ok E A db"
  shows "HasBalance (en_badger E) db now pk \<longleftrightarrow> lg_bal (led A db) pk \<noteq> None"
proof -
  have "cell_ok (ab_db A db (balKey pk))" using assms(2) by (auto simp: chain_wf_def)
  then show ?thesis
    using reliable_get[OF assms(1) conjunct1[OF assms(2)]]
    by (cases "ab_db A db (balKey pk)") (auto simp: HasBalance_def ledger_of_sel visible_def live_def)
qed

lemmas reliable_balance = reads_balance[OF reliable_reads]

text \<open>Taking a nonce lock keeps the ledger and the active set, and leaves the nonce locked.\<close>

lemma reliable_lock:
  assumes "reliable E" and "store_ok E A db" and "Lock (en_badger E) db now pk nonce = (e, db')"
  shows "store_ok E A db'" and "led A db' = led A db" and "IsLocked (en_badger E) db' now pk nonce"
    and "GetActiveSet (en_badger E) J db' now' = GetActiveSet (en_badger E) J db now'"
proof -
  let ?k = "nonceLockKey pk nonce"
  have B: "badger_ok (en_badger E) A" using assms(2) by blast
  note g = reliable_get[OF reliable_reads[OF assms(1)] B]
  from Lock_ledger[OF B assms(3)] assms(2) show "store_ok E A db'" "led A db' = led A db" by simp_all
  have same: "visible t (ab_db A db') activeWitnessesKey = visible t (ab_db A db) activeWitnessesKey" for t
    using Lock_cases[OF B assms(3)] by (auto simp: visible_def)
  then show "GetActiveSet (en_badger E) J db' now' = GetActiveSet (en_badger E) J db now'"
    by (simp add: GetActiveSet_def GetActiveWitnesses_def g)
  show "IsLocked (en_badger E) db' now pk nonce"
  proof (cases "visible now (ab_db A db) ?k")
    case (Some v)
    with assms(3) show ?thesis by (simp add: Lock_def IsLocked_def g)
  next
    case None
    with assms(1,3) have "e = None" by (auto simp: Lock_def g reliable_def prod_eq_iff)
    with Lock_cases[OF B assms(3)] obtain x where
      x: "ab_db A db' = (ab_db A db)(?k \<mapsto> ([1], Some x))" "now + nonceLockTTL < x + Second"
      by auto
    then have "visible now (ab_db A db') ?k = Some [1]"
      by (simp add: visible_ttl_update nonceLockTTL_def)
    then show ?thesis by (simp add: IsLocked_def g)
  qed
qed

section \<open>Handlers that forward\<close>

text \<open>A message id that the node still forwards \<open>n\<close> times.\<close>

definition fwd :: "nat \<Rightarrow> 'db node \<Rightarrow> hash32 \<Rightarrow> bool" where
  "fwd n nd h \<longleftrightarrow> n + (case nd_gossip nd h of None \<Rightarrow> 0 | Some m \<Rightarrow> gm_hops m) \<le> gossipHops"

lemma fwd_Suc:
  assumes "fwd (Suc n) nd h"
  obtains hops g where "ShouldForward (nd_gossip nd) now h = ((True, hops), g)" and "fwd n (nd\<lparr>nd_gossip := g\<rparr>) h"
  using assms by (cases "nd_gossip nd h") (auto simp: fwd_def ShouldForward_def)

lemma fwd_sent [simp]: "sent nd nd' \<Longrightarrow> fwd n nd' h = fwd n nd h"
  by (simp add: fwd_def)

text \<open>What a handler that only forwards keeps of the payments under way.\<close>

definition same_payments :: "'db node \<Rightarrow> 'db node \<Rightarrow> bool" where
  "same_payments nd nd' \<longleftrightarrow> nd_kp nd' = nd_kp nd \<and> nd_peers nd' = nd_peers nd \<and> nd_pending nd' = nd_pending nd
     \<and> nd_spawned nd' = nd_spawned nd \<and> tp_dag (nd_tp nd') = tp_dag (nd_tp nd)
     \<and> (\<forall>i. nd_heap nd' i = None \<longleftrightarrow> nd_heap nd i = None)"

lemma same_payments_trans: "same_payments a b \<Longrightarrow> same_payments b c \<Longrightarrow> same_payments a c"
  by (simp add: same_payments_def)

lemma chan_updates [simp]:
  "chan (nd\<lparr>nd_gossip := g\<rparr>) i = chan nd i" "chan (nd\<lparr>nd_tp := tp\<rparr>) i = chan nd i"
  "chan (nd\<lparr>nd_pending := pd\<rparr>) i = chan nd i" "chan (nd\<lparr>nd_spawned := sp\<rparr>) i = chan nd i"
  by (simp_all add: chan_def)

lemma room_updates [simp]:
  "room n (nd\<lparr>nd_gossip := g\<rparr>) = room n nd" "room n (nd\<lparr>nd_tp := tp\<rparr>) = room n nd"
  "room n (nd\<lparr>nd_pending := pd\<rparr>) = room n nd" "room n (nd\<lparr>nd_spawned := sp\<rparr>) = room n nd"
  by (simp_all add: room_def)

lemma lock_step:
  assumes "node_ok (ne_env NE) A nd" and "reliable (ne_env NE)" and "room (Suc n) nd"
    and "fwd (Suc k) nd (pk_MsgID pkt)" and "pk_Type pkt = PacketNonceLock"
    and "unmarshal (ne_nonceLock NE) (pk_Payload pkt) = Inr msg" and "Encode (ne_packet NE) pkt = Ok d"
  obtains nd' where "handlePacket NE cx nd i pkt = (Ok (), nd')" and "node_ok (ne_env NE) A nd'"
    and "room n nd'" and "fwd k nd' (pk_MsgID pkt)" and "same_payments nd nd'"
    and "\<And>j. chan nd' j = (if j \<in> set (ids nd) then chan nd j @ [d] else chan nd j)"
    and "led A (nd_db nd') = led A (nd_db nd)"
    and "IsLocked (en_badger (ne_env NE)) (nd_db nd') (cx_now cx) (nl_From msg) (nl_Nonce msg)"
    and "\<And>J now'. GetActiveSet (en_badger (ne_env NE)) J (nd_db nd') now' = GetActiveSet (en_badger (ne_env NE)) J (nd_db nd) now'"
proof -
  let ?E = "ne_env NE"
  have st: "store_ok ?E A (nd_db nd)" using assms(1) by (simp add: node_ok_def core_ok_def)
  obtain hops g where g: "ShouldForward (nd_gossip nd) (cx_now cx) (pk_MsgID pkt) = ((True, hops), g)"
    "fwd k (nd\<lparr>nd_gossip := g\<rparr>) (pk_MsgID pkt)" using fwd_Suc[OF assms(4)] .
  obtain e db' where l: "Lock (en_badger ?E) (nd_db nd) (cx_now cx) (nl_From msg) (nl_Nonce msg) = (e, db')" by fastforce
  note L = reliable_lock[OF assms(2) st l]
  let ?nd1 = "set_db db' (nd\<lparr>nd_gossip := g\<rparr>)"
  have "node_ok ?E A ?nd1" by (rule node_ok_db[OF node_ok_gossip[OF assms(1) g(1)] L(1)])
  from broadcast_queue[OF this _ assms(7), of n "cx_draws cx 0"] assms(3) obtain nd' where
    b: "broadcast NE (cx_draws cx 0) ?nd1 pkt None = (Ok (), nd')" "sent ?nd1 nd'" "node_ok ?E A nd'" "room n nd'"
      "\<And>j. chan nd' j = (if j \<in> set (ids ?nd1) then chan ?nd1 j @ [d] else chan ?nd1 j)"
      "\<And>j. nd_heap nd' j = None \<longleftrightarrow> nd_heap ?nd1 j = None"
    by (metis room_updates(1,2))
  have "handlePacket NE cx nd i pkt = (Ok (), nd')"
    using assms(5,6) g(1) l b(1) by (simp add: handlePacket_def handleNonceLock_def Let_def)
  moreover have "same_payments nd nd'" using b(2,6) by (simp add: same_payments_def)
  moreover have "fwd k nd' (pk_MsgID pkt)" using b(2) g(2) by (simp add: fwd_def)
  moreover have "nd_db nd' = db'" using b(2) by simp
  moreover have "chan nd' j = (if j \<in> set (ids nd) then chan nd j @ [d] else chan nd j)" for j
    using b(5)[of j] by simp
  ultimately show ?thesis using b(3,4) L by (intro that[of nd']) simp_all
qed

section \<open>The witness\<close>

definition sigPacket :: "('db, 'txn) net_env \<Rightarrow> hash32 \<Rightarrow> witness_signature \<Rightarrow> packet" where
  "sigPacket NE h ws =
     \<lparr>pk_Type = PacketTxWitnessSig, pk_MsgID = sigMsgID h (ws_WitnessPubKey ws),
      pk_Payload = marshal_or_nil (ne_witSig NE) \<lparr>wm_TxHash = h, wm_Sig = ws\<rparr>\<rparr>"

lemma sendTo_queue:
  assumes "node_ok E A nd" and "room (Suc n) nd" and "map_of (nd_peers nd) pk = Some j" and "Encode (ne_packet NE) q = Ok d"
  obtains nd' where "sendToOriginator NE nd pk q = (Ok (), nd')" and "sent nd nd'" and "node_ok E A nd'"
    and "room n nd'" and "\<And>i. chan nd' i = (if i = j then chan nd i @ [d] else chan nd i)"
    and "\<And>i. nd_heap nd' i = None \<longleftrightarrow> nd_heap nd i = None"
proof -
  have j: "j \<in> set (ids nd)" using assms(3) by (force dest: map_of_SomeD)
  from peer_of_id[OF assms(1) this] obtain p where p: "nd_heap nd j = Some p" "pe_state p = PeerActive" "peer_wf p" .
  then have "length (pe_sendCh p) < sendChCap" using j assms(2) by (auto simp: room_def chan_def)
  note s = Send_active[OF p(2,3) this assms(4)]
  let ?nd = "nd\<lparr>nd_heap := (nd_heap nd)(j \<mapsto> p\<lparr>pe_sendCh := pe_sendCh p @ [d]\<rparr>)\<rparr>"
  have o: "sendToOriginator NE nd pk q = (Ok (), ?nd)"
    using assms(3) p(1) s by (simp add: sendToOriginator_def sendToPeer_def Let_def)
  from sendToOriginator_done[OF assms(1), of NE pk q] o have ok: "node_ok E A ?nd" "sent nd ?nd" by auto
  have ch: "chan ?nd i = (if i = j then chan nd i @ [d] else chan nd i)" for i
    using p(1) by (simp add: chan_def)
  have "room n ?nd" using assms(2) unfolding room_def ch by auto
  with o ok ch p(1) show ?thesis by (intro that[of ?nd]) simp_all
qed

lemma verify_step:
  assumes "node_ok (ne_env NE) A nd" and "room 2 nd"
    and "fwd 1 nd (pk_MsgID pkt)" and "pk_Type pkt = PacketTxVerify"
    and "unmarshal (ne_txVerify NE) (pk_Payload pkt) = Inr \<lparr>tv_Tx = Some tx, tv_Snapshot = snap\<rparr>"
    and "GetActiveSet (en_badger (ne_env NE)) (en_wits (ne_env NE)) (nd_db nd) (cx_now cx) = Ok S"
    and "kp_Public (nd_kp nd) \<in> S"
    and "TxProcessor_VerifyTx (ne_env NE) (nd_db nd) (cx_now cx)
           \<lparr>vp_Tx = Some tx, vp_Snapshot = snap, vp_KnownTips = {}\<rparr> = Ok ()"
    and "map_of (nd_peers nd) (tx_From tx) = Some j" and "no_edges nd"
    and "IsLocked (en_badger (ne_env NE)) (nd_db nd) (cx_now cx) (tx_From tx) (tx_Nonce tx)"
    and "SignAsWitness (en_crypto (ne_env NE)) (nd_kp nd) (tx_Hash tx) 0 True = Ok ws"
    and "Encode (ne_packet NE) (sigPacket NE (tx_Hash tx) ws) = Ok ds" and "Encode (ne_packet NE) pkt = Ok dv"
  obtains nd' where "handlePacket NE cx nd i pkt = (Ok (), nd')" and "node_ok (ne_env NE) A nd'"
    and "chan nd' j = chan nd j @ [ds, dv]" and "same_payments nd nd'" and "nd_db nd' = nd_db nd"
proof -
  let ?E = "ne_env NE"
  obtain hops g where g: "ShouldForward (nd_gossip nd) (cx_now cx) (pk_MsgID pkt) = ((True, hops), g)"
    using fwd_Suc[of 0 nd "pk_MsgID pkt"] assms(3) by (metis One_nat_def)
  let ?nd1 = "nd\<lparr>nd_gossip := g\<rparr>"
  have ok1: "node_ok ?E A ?nd1" using node_ok_gossip[OF assms(1) g] .
  have tips: "CurrentTips (tp_dag (nd_tp nd)) = []" using assms(10) by (simp add: no_edges_def CurrentTips_empty)
  have h: "handlePacket NE cx nd i pkt = witnessReply NE cx ?nd1 pkt tx 0"
    using assms(4-8) g tips
    by (auto simp: handlePacket_def handleTxVerify_def Let_def PacketTxVerify_def PacketNonceLock_def)
  obtain nd2 where s: "sendToOriginator NE ?nd1 (tx_From tx) (sigPacket NE (tx_Hash tx) ws) = (Ok (), nd2)"
    "sent ?nd1 nd2" "node_ok ?E A nd2" "room 1 nd2"
    "\<And>i. chan nd2 i = (if i = j then chan ?nd1 i @ [ds] else chan ?nd1 i)"
    "\<And>i. nd_heap nd2 i = None \<longleftrightarrow> nd_heap ?nd1 i = None"
    using sendTo_queue[OF ok1 _ _ assms(13), of 1 "tx_From tx" j] assms(2,9)
    by (metis (no_types, lifting) Suc_1 node.select_convs(4) node.surjective node.update_convs(3) room_updates(1))
  obtain nd' where b: "broadcast NE (cx_draws cx 1) nd2 pkt None = (Ok (), nd')" "sent nd2 nd'" "node_ok ?E A nd'"
    "\<And>i. chan nd' i = (if i \<in> set (ids nd2) then chan nd2 i @ [dv] else chan nd2 i)"
    "\<And>i. nd_heap nd' i = None \<longleftrightarrow> nd_heap nd2 i = None"
    using broadcast_queue[OF s(3) _ assms(14), of 0 "cx_draws cx 1"] s(4) by (metis One_nat_def)
  have "handlePacket NE cx nd i pkt = (Ok (), nd')"
    unfolding h using assms(9,11,12) s(1) b(1)
    by (simp add: witnessReply_def Let_def andThen_def sigPacket_def)
  moreover have "j \<in> set (ids nd2)" using assms(9) s(2) by (force dest: map_of_SomeD)
  then have "chan nd' j = chan nd j @ [ds, dv]" using b(4)[of j] s(5)[of j] by simp
  moreover have "same_payments nd nd'" using s(2,6) b(2,5) by (simp add: same_payments_def)
  moreover have "nd_db nd' = nd_db nd" using s(2) b(2) by simp
  ultimately show ?thesis using b(3) by (intro that[of nd']) simp_all
qed

section \<open>The payer\<close>

text \<open>The snapshot and the two requests that \<open>SendTx\<close> sends, on a store that can be read.\<close>

definition payerSnapshot :: "('db, 'txn) badger_abs \<Rightarrow> 'db node \<Rightarrow> gtime \<Rightarrow> snapshot" where
  "payerSnapshot A nd now =
     \<lparr>sn_PubKey = kp_Public (nd_kp nd), sn_Sequence = lg_seq (led A (nd_db nd)) (kp_Public (nd_kp nd)),
      sn_Balance = balance (led A (nd_db nd)) (kp_Public (nd_kp nd)),
      sn_DAGTips = CurrentTips (tp_dag (nd_tp nd)), sn_CreatedAt = now, sn_ExpiresAt = now + snapshotTTL\<rparr>"

definition lockPacket :: "('db, 'txn) net_env \<Rightarrow> transaction \<Rightarrow> packet" where
  "lockPacket NE tx =
     \<lparr>pk_Type = PacketNonceLock, pk_MsgID = tx_Hash tx,
      pk_Payload = marshal_or_nil (ne_nonceLock NE) \<lparr>nl_From = tx_From tx, nl_Nonce = tx_Nonce tx\<rparr>\<rparr>"

definition verifyPacket :: "('db, 'txn) net_env \<Rightarrow> transaction \<Rightarrow> snapshot \<Rightarrow> packet" where
  "verifyPacket NE tx snap =
     \<lparr>pk_Type = PacketTxVerify, pk_MsgID = tx_Hash tx,
      pk_Payload = marshal_or_nil (ne_txVerify NE) \<lparr>tv_Tx = Some tx, tv_Snapshot = Some snap\<rparr>\<rparr>"

lemma send_step:
  assumes "node_ok (ne_env NE) A nd" and "reliable (ne_env NE)" and "room (Suc (Suc n)) nd"
    and "SendTx NE cx rnd nd to amt = (Ok tx, nd')"
    and "Encode (ne_packet NE) (lockPacket NE tx) = Ok dl"
    and "Encode (ne_packet NE) (verifyPacket NE tx (payerSnapshot A nd (cx_now cx))) = Ok dv"
  shows "node_ok (ne_env NE) A nd'" and "room n nd'" and "nd_gossip nd' = nd_gossip nd"
    and "nd_peers nd' = nd_peers nd" and "nd_kp nd' = nd_kp nd" and "nd_spawned nd' = nd_spawned nd"
    and "\<And>i. nd_heap nd' i = None \<longleftrightarrow> nd_heap nd i = None"
    and "\<And>i. i \<in> set (ids nd) \<Longrightarrow> chan nd' i = chan nd i @ [dl, dv]"
    and "\<And>J now'. GetActiveSet (en_badger (ne_env NE)) J (nd_db nd') now' = GetActiveSet (en_badger (ne_env NE)) J (nd_db nd) now'"
    and "tp_dag (nd_tp nd') = tp_dag (nd_tp nd)"
proof -
  let ?E = "ne_env NE" and ?now = "cx_now cx" and ?me = "kp_Public (nd_kp nd)"
  have st: "store_ok ?E A (nd_db nd)" using assms(1) by (simp add: node_ok_def core_ok_def)
  from assms(4) have b0: "BuildTx ?E (nd_tp nd) ?now rnd (nd_kp nd) to amt = Ok tx"
    by (auto simp: SendTx_def Let_def andThen_def split: outcome.splits prod.splits option.splits)
  from assms(4) b0 obtain db' where l0: "AcquireNonceLock ?E (nd_db nd) ?now tx = (None, db')"
    by (auto simp: SendTx_def Let_def split: prod.splits option.splits)
  then have l: "Lock (en_badger ?E) (nd_db nd) ?now (tx_From tx) (tx_Nonce tx) = (None, db')"
    by (simp add: AcquireNonceLock_def)
  note L = reliable_lock[OF assms(2) st l]
  let ?nd1 = "(set_db db' nd)\<lparr>nd_pending := (nd_pending nd)(tx_Hash tx \<mapsto> \<lparr>pm_tx = tx, pm_sigs = [], pm_confirmed = False\<rparr>)\<rparr>"
  have ok1: "node_ok ?E A ?nd1" using node_ok_db[OF assms(1) L(1)] by simp
  obtain nd2 where 2: "broadcast NE (cx_draws cx 0) ?nd1 (lockPacket NE tx) None = (Ok (), nd2)" "sent ?nd1 nd2"
    "node_ok ?E A nd2" "room (Suc n) nd2"
    "\<And>i. chan nd2 i = (if i \<in> set (ids ?nd1) then chan ?nd1 i @ [dl] else chan ?nd1 i)"
    "\<And>i. nd_heap nd2 i = None \<longleftrightarrow> nd_heap ?nd1 i = None"
    using broadcast_queue[OF ok1 _ assms(5), of "Suc n" "cx_draws cx 0"] assms(3) by (metis room_updates(2,3))
  have "nd_db nd2 = db'" "tp_dag (nd_tp nd2) = tp_dag (nd_tp nd)" using 2(2) by simp_all
  then have snap: "bindO (value_or_zero (GetBalance (en_badger ?E) (nd_db nd2) ?now ?me)) (\<lambda>bal.
      bindO (value_or_zero (GetLatestSeq (en_badger ?E) (nd_db nd2) ?now ?me)) (\<lambda>seq.
      Ok \<lparr>sn_PubKey = ?me, sn_Sequence = seq, sn_Balance = bal, sn_DAGTips = CurrentTips (tp_dag (nd_tp nd2)),
          sn_CreatedAt = ?now, sn_ExpiresAt = ?now + snapshotTTL\<rparr>)) = Ok (payerSnapshot A nd ?now)"
    by (simp add: reliable_balance[OF assms(2) L(1)] value_or_zero_def payerSnapshot_def L(2))
  obtain nd3 where 3: "broadcast NE (cx_draws cx 1) nd2 (verifyPacket NE tx (payerSnapshot A nd ?now)) None = (Ok (), nd3)"
    "sent nd2 nd3" "node_ok ?E A nd3" "room n nd3"
    "\<And>i. chan nd3 i = (if i \<in> set (ids nd2) then chan nd2 i @ [dv] else chan nd2 i)"
    "\<And>i. nd_heap nd3 i = None \<longleftrightarrow> nd_heap nd2 i = None"
    using broadcast_queue[OF 2(3,4) assms(6), of "cx_draws cx 1"] by metis
  have "nd' = nd3"
    using assms(4) b0 l0 2(1) 3(1) snap
    by (simp add: SendTx_def Let_def andThen_def lockPacket_def verifyPacket_def)
  with 2 3 L show "node_ok ?E A nd'" "room n nd'" "nd_gossip nd' = nd_gossip nd"
    "nd_peers nd' = nd_peers nd" "nd_kp nd' = nd_kp nd" "nd_spawned nd' = nd_spawned nd"
    "\<And>i. nd_heap nd' i = None \<longleftrightarrow> nd_heap nd i = None" "tp_dag (nd_tp nd') = tp_dag (nd_tp nd)"
    "\<And>J now'. GetActiveSet (en_badger ?E) J (nd_db nd') now' = GetActiveSet (en_badger ?E) J (nd_db nd) now'"
    by simp_all
  fix i assume "i \<in> set (ids nd)"
  with \<open>nd' = nd3\<close> 2(2) 2(5)[of i] 3(5)[of i] show "chan nd' i = chan nd i @ [dl, dv]" by simp
qed

lemma sig_step:
  assumes "pk_Type pkt = PacketTxWitnessSig"
    and "unmarshal (ne_witSig NE) (pk_Payload pkt) = Inr \<lparr>wm_TxHash = h, wm_Sig = ws\<rparr>"
    and "nd_pending nd h = Some \<lparr>pm_tx = tx, pm_sigs = sigs, pm_confirmed = False\<rparr>"
  shows "handlePacket NE cx nd i pkt = (Ok (),
    if length sigs = 2 then nd\<lparr>nd_pending := (nd_pending nd)(h := None), nd_spawned := nd_spawned nd @ [(tx, sigs @ [ws])]\<rparr>
    else nd\<lparr>nd_pending := (nd_pending nd)(h \<mapsto> \<lparr>pm_tx = tx, pm_sigs = sigs @ [ws], pm_confirmed = False\<rparr>)\<rparr>)"
  using assms
  by (simp add: handlePacket_def handleWitnessSig_def Let_def quorumK_def PacketTxWitnessSig_def PacketNonceLock_def
      PacketTxVerify_def)

section \<open>Delivery\<close>

definition pop :: "peer_id \<Rightarrow> 'db node \<Rightarrow> 'db node" where
  "pop i nd = nd\<lparr>nd_heap := (nd_heap nd)(i := map_option (\<lambda>p. p\<lparr>pe_sendCh := tl (pe_sendCh p)\<rparr>) (nd_heap nd i))\<rparr>"

lemma pop_sel [simp]:
  "nd_kp (pop i nd) = nd_kp nd" "nd_peers (pop i nd) = nd_peers nd" "nd_pending (pop i nd) = nd_pending nd"
  "nd_spawned (pop i nd) = nd_spawned nd" "nd_tp (pop i nd) = nd_tp nd" "nd_gossip (pop i nd) = nd_gossip nd"
  "nd_heap (pop i nd) j = None \<longleftrightarrow> nd_heap nd j = None"
  "chan (pop i nd) j = (if j = i then tl (chan nd j) else chan nd j)"
  by (auto simp: pop_def chan_def split: option.split)

lemma pop_step:
  assumes "node_ok E A nd" and "i \<in> set (ids nd)" and "chan nd i = d # ds"
  shows "node_step NE nd (Pump i (Some d)) (pop i nd)"
proof -
  from peer_of_id[OF assms(1,2)] obtain p where p: "nd_heap nd i = Some p" "pe_state p = PeerActive" "peer_wf p" .
  then have "PumpStep p True = Some (Some d, True, p\<lparr>pe_sendCh := ds\<rparr>)"
    using assms(3) by (simp add: PumpStep_def chan_def peer_wf_def)
  from node_step.pump[of nd i p True "Some d" "p\<lparr>pe_sendCh := ds\<rparr>" NE, OF p(1) this] p(1) assms(3) show ?thesis
    by (simp add: pop_def chan_def)
qed

text \<open>A queued packet crosses a connection on which nothing is under way, and is handled at its other end.\<close>

lemma deliver:
  assumes "node_inv NE A (nw_node s n)" and "i \<in> set (ids (nw_node s n))" and "chan (nw_node s n) i = d # ds"
    and "L (n, i) = Some (m, j)" and "L (m, j) \<noteq> None" and "n \<noteq> m" and "nw_wire s (m, j) = []"
    and "ReadPacket (ne_packet NE) d = (Ok pkt, [])" and "nd_heap (nw_node s m) j \<noteq> None"
    and "handlePacket NE cx (nw_node s m) j pkt = (Ok (), nd')"
  shows "runs (net_step NE L) s [Written n i d, Got m j cx pkt]
    (s\<lparr>nw_node := (nw_node s)(n := pop i (nw_node s n), m := nd')\<rparr>)"
proof -
  have "node_ok (ne_env NE) A (nw_node s n)" using assms(1) by (simp add: node_inv_def)
  from pop_step[OF this assms(2,3)] have w: "net_step NE L s (Written n i d)
      (put_wire (L (n, i)) d (put_node n (pop i (nw_node s n)) s))" (is "net_step NE L s _ ?s1")
    by (rule net_step.written)
  have r: "node_step NE (nw_node ?s1 m) (Receive cx j pkt) nd'"
    using assms(6,9,10) by (intro node_step.receive) simp_all
  have "ReadPacket (ne_packet NE) (nw_wire ?s1 (m, j)) = (Ok pkt, [])"
    using assms(4,7,8) by (simp add: put_wire_def)
  from net_step.got[of L m j NE ?s1 pkt "[]" cx nd', OF assms(5) this r]
  have "net_step NE L ?s1 (Got m j cx pkt) (s\<lparr>nw_node := (nw_node s)(n := pop i (nw_node s n), m := nd')\<rparr>)"
    using assms(4,7) by (simp add: put_wire_def put_node_def fun_upd_idem)
  with w show ?thesis unfolding runs_Cons by (intro exI conjI) (assumption+, simp)
qed

end
