(* ===== verification/Custody.thy ===== *)
theory Custody
  imports Delivery
begin

text \<open>
  What can change the ledger of a node in a network: an abstract machine of accounts, of which every
  node's ledger is a run, whatever packets its peers and outsiders send.
\<close>

section \<open>Accounts\<close>

text \<open>The accounts of a ledger: the balances, and the last sequence of every key.\<close>

type_synonym accounts = "(pubkey \<Rightarrow> nat) \<times> (pubkey \<Rightarrow> u64)"

definition accounts :: "('db, 'txn) badger_abs \<Rightarrow> 'db \<Rightarrow> accounts" where
  "accounts A db = ((\<lambda>pk. unat (balance (led A db) pk)), lg_seq (led A db))"

definition credit :: "pubkey \<Rightarrow> nat \<Rightarrow> accounts \<Rightarrow> accounts" where
  "credit pk n a = ((fst a)(pk := fst a pk + n), snd a)"

text \<open>The receiver's balance is the one read before the debit, and is written last.\<close>

definition settle :: "transaction \<Rightarrow> accounts \<Rightarrow> accounts" where
  "settle tx a =
     ((fst a)(tx_From tx := fst a (tx_From tx) - cost tx, tx_To tx := fst a (tx_To tx) + unat (tx_Amount tx)),
      (snd a)(tx_From tx := tx_Sequence tx))"

lemma accounts_cong: "led A db = led A db' \<Longrightarrow> accounts A db = accounts A db'"
  by (simp add: accounts_def)

lemma apply_accounts:
  assumes "store_ok E A db" and "reads_ok E" and "ApplyConfirmedTxBalance E db now (Some tx) = (r, db')"
  shows "accounts A db' = accounts A db \<or> accounts A db' = credit (tx_To tx) (unat (tx_Amount tx)) (accounts A db)"
proof -
  have rz: "read_or_zero E db now (tx_To tx) = balance (led A db) (tx_To tx)"
    by (rule read_or_zero_ok[OF assms(1)]) (simp add: reads_balance[OF assms(2,1)])
  let ?new = "SafeAdd (balance (led A db) (tx_To tx)) (tx_Amount tx)"
  consider "db' = db" | v e db1 where "?new = Ok v" "SaveBalance (en_badger E) db now (tx_To tx) v = (Some e, db1)" "db' = db1"
    | v db1 where "?new = Ok v" "SaveBalance (en_badger E) db now (tx_To tx) v = (None, db1)"
      "db' = snd (MarkConfirmedTxApplied (en_badger E) db1 now (tx_Hash tx))"
    using assms(3) unfolding ApplyConfirmedTxBalance_def option.case drop_error_read[OF assms(1)] bindO.simps rz
    by (auto split: if_splits outcome.splits prod.splits option.splits)
  then show ?thesis
  proof cases
    case (2 v e db1)
    with chain.save_bal_failed[OF assms(1)] have "led A db' = led A db" by blast
    then show ?thesis by (simp add: accounts_def)
  next
    case (3 v db1)
    have v: "unat v = unat (balance (led A db) (tx_To tx)) + unat (tx_Amount tx)"
      using 3(1) by (simp add: SafeAdd_Ok_iff)
    from chain.save_bal_done[OF assms(1) 3(2)] have ok1: "store_ok E A db1"
      and L1: "led A db1 = (led A db)\<lparr>lg_bal := (lg_bal (led A db))(tx_To tx \<mapsto> v)\<rparr>" by auto
    from mark_cases[OF ok1, of now "tx_Hash tx"] have "accounts A db' = accounts A db1"
      unfolding 3(3) by (auto simp: accounts_def)
    with L1 v show ?thesis by (simp add: accounts_def credit_def fun_eq_iff)
  qed simp
qed

lemma confirm_accounts:
  assumes "store_ok E A (tp_db tp)" and "reads_ok E" and "ConfirmTx E tp now tx = c"
  shows "accounts A (tp_db (cr_tp c)) = accounts A (tp_db tp)
    \<or> cost tx \<le> fst (accounts A (tp_db tp)) (tx_From tx) \<and> accounts A (tp_db (cr_tp c)) = settle tx (accounts A (tp_db tp))"
proof (cases "cr_out c = Ok ()")
  case True
  have rz: "read_or_zero E (tp_db tp) now (tx_To tx) = balance (led A (tp_db tp)) (tx_To tx)"
    by (rule read_or_zero_ok[OF assms(1)]) (simp add: reads_balance[OF assms(2,1)])
  from ConfirmTx_Ok[OF assms(1,3) True] obtain s r data p where
    *: "unat s + cost tx = unat (balance (led A (tp_db tp)) (tx_From tx))"
    "unat r = unat (balance (led A (tp_db tp)) (tx_To tx)) + unat (tx_Amount tx)"
    "led A (tp_db (cr_tp c)) = (confirmed_ledger tx (s, r) data (led A (tp_db tp)))\<lparr>lg_pool := p\<rparr>"
    unfolding rz by metis
  then have "unat s = unat (balance (led A (tp_db tp)) (tx_From tx)) - cost tx" by simp
  with * show ?thesis
    by (auto simp: accounts_def settle_def balance_confirmed confirmed_ledger_sel fun_eq_iff)
next
  case False
  have "led A (tp_db (cr_tp c)) = led A (tp_db tp)"
  proof (cases "confirmAmounts E (tp_db tp) now tx")
    case (Ok b)
    with assms(3) have "c = confirmWrite E tp now tx b" by (simp add: ConfirmTx_def)
    from confirmWrite_cases[OF assms(1) this] False show ?thesis by auto
  qed (use assms(3) in \<open>auto simp: ConfirmTx_def\<close>)
  then show ?thesis by (simp add: accounts_def)
qed

section \<open>What the calls of a node keep\<close>

lemma send_keeps [simp]:
  "nd_kp (snd (sendToPeer NE nd i pkt)) = nd_kp nd" "nd_spawned (snd (sendToPeer NE nd i pkt)) = nd_spawned nd"
  by (auto simp: sendToPeer_def Let_def split: option.split prod.split outcome.split)

lemma sendAll_keeps [simp]:
  "nd_kp (snd (sendAll NE nd is pkt)) = nd_kp nd" "nd_spawned (snd (sendAll NE nd is pkt)) = nd_spawned nd"
  by (induction "is" arbitrary: nd) (auto simp: andThen_def split: outcome.split)

lemma broadcast_keeps [simp]:
  "nd_kp (snd (broadcast NE draws nd pkt ex)) = nd_kp nd" "nd_spawned (snd (broadcast NE draws nd pkt ex)) = nd_spawned nd"
  by (simp_all add: broadcast_def)

lemma originator_keeps [simp]:
  "nd_kp (snd (sendToOriginator NE nd pk pkt)) = nd_kp nd" "nd_spawned (snd (sendToOriginator NE nd pk pkt)) = nd_spawned nd"
  "nd_pending (snd (sendToOriginator NE nd pk pkt)) = nd_pending nd" "nd_tp (snd (sendToOriginator NE nd pk pkt)) = nd_tp nd"
  by (auto simp: sendToOriginator_def split: option.split)

text \<open>A call that leaves the key, the payments under way and the accounts alone.\<close>

definition quiet :: "('db, 'txn) badger_abs \<Rightarrow> 'db node \<Rightarrow> 'db node \<Rightarrow> bool" where
  "quiet A nd nd' \<longleftrightarrow> nd_kp nd' = nd_kp nd \<and> nd_pending nd' = nd_pending nd \<and> nd_spawned nd' = nd_spawned nd
     \<and> accounts A (nd_db nd') = accounts A (nd_db nd)"

lemma quiet_refl [simp]: "quiet A nd nd"
  by (simp add: quiet_def)

lemma quiet_trans: "quiet A a b \<Longrightarrow> quiet A b c \<Longrightarrow> quiet A a c"
  by (simp add: quiet_def)

lemma quiet_updates [simp]:
  "quiet A nd (nd'\<lparr>nd_gossip := g\<rparr>) = quiet A nd nd'" "quiet A nd (nd'\<lparr>nd_heap := h\<rparr>) = quiet A nd nd'"
  "quiet A nd (nd'\<lparr>nd_peers := ps\<rparr>) = quiet A nd nd'" "quiet A nd (nd'\<lparr>nd_next := k\<rparr>) = quiet A nd nd'"
  "quiet A nd (nd'\<lparr>nd_snapJobs := sj\<rparr>) = quiet A nd nd'"
  by (simp_all add: quiet_def)

lemma quiet_from [simp]:
  "quiet A (nd\<lparr>nd_heap := h\<rparr>) nd' = quiet A nd nd'" "quiet A (nd\<lparr>nd_next := k\<rparr>) nd' = quiet A nd nd'"
  by (simp_all add: quiet_def)

lemma quiet_broadcast: "quiet A nd nd' \<Longrightarrow> quiet A nd (snd (broadcast NE draws nd' pkt ex))"
  by (simp add: quiet_def)

lemma quiet_reply: "quiet A nd (snd (witnessReply NE cx nd pkt tx tip))"
  by (auto simp: witnessReply_def Let_def andThen_def quiet_def split: outcome.split)

lemma quiet_lock:
  assumes "node_ok (ne_env NE) A nd"
  shows "quiet A nd (snd (handleNonceLock NE cx nd pkt))"
proof -
  have "accounts A (snd (Lock (en_badger (ne_env NE)) (nd_db nd) now pk n)) = accounts A (nd_db nd)" for now pk n
    using Lock_ledger(1)[of "en_badger (ne_env NE)" A "nd_db nd" now pk n] assms
    by (intro accounts_cong) (metis core_ok_def node_ok_def prod.collapse)
  then show ?thesis
    by (auto simp: handleNonceLock_def Let_def quiet_def split: prod.split sum.split)
qed

lemma quiet_verify: "quiet A nd (snd (handleTxVerify NE cx nd pkt))"
  by (auto simp: handleTxVerify_def Let_def quiet_reply intro: quiet_trans[OF _ quiet_reply]
      split: prod.split sum.split outcome.split option.split)

section \<open>Payments of the node's own\<close>

definition own_payments :: "'db node \<Rightarrow> bool" where
  "own_payments nd \<longleftrightarrow> (\<forall>h m. nd_pending nd h = Some m \<longrightarrow> tx_From (pm_tx m) = node_key nd)
     \<and> (\<forall>(tx, sigs) \<in> set (nd_spawned nd). tx_From tx = node_key nd)"

lemma own_payments_quiet: "quiet A nd nd' \<Longrightarrow> own_payments nd \<Longrightarrow> own_payments nd'"
  by (simp add: quiet_def own_payments_def)

lemma own_payments_sig: "own_payments nd \<Longrightarrow> own_payments (snd (handleWitnessSig NE cx nd pkt))"
  by (auto simp: handleWitnessSig_def Let_def own_payments_def split: sum.split option.split prod.split)

lemma BuildTx_From: "BuildTx E tp now rnd kp to amt = Ok tx \<Longrightarrow> tx_From tx = kp_Public kp"
  by (cases rnd) (auto simp: BuildTx_def bindO_eq_Ok SignTx_Ok split: option.splits if_splits)

lemma pay_effect:
  assumes "node_ok (ne_env NE) A nd"
  shows "node_key (snd (SendTx NE cx rnd nd to amt)) = node_key nd"
    and "own_payments nd \<Longrightarrow> own_payments (snd (SendTx NE cx rnd nd to amt))"
    and "accounts A (nd_db (snd (SendTx NE cx rnd nd to amt))) = accounts A (nd_db nd)"
proof -
  let ?E = "ne_env NE" and ?n = "snd (SendTx NE cx rnd nd to amt)"
  have lock: "accounts A (snd (Lock (en_badger ?E) (nd_db nd) now pk n)) = accounts A (nd_db nd)" for now pk n
    using Lock_ledger(1)[of "en_badger ?E" A "nd_db nd" now pk n] assms
    by (intro accounts_cong) (metis core_ok_def node_ok_def prod.collapse)
  have "nd_kp ?n = nd_kp nd \<and> nd_spawned ?n = nd_spawned nd \<and> accounts A (nd_db ?n) = accounts A (nd_db nd)
    \<and> (nd_pending ?n = nd_pending nd \<or> (\<exists>tx. tx_From tx = node_key nd
         \<and> nd_pending ?n = (nd_pending nd)(tx_Hash tx \<mapsto> \<lparr>pm_tx = tx, pm_sigs = [], pm_confirmed = False\<rparr>)))"
  proof (cases "BuildTx ?E (nd_tp nd) (cx_now cx) rnd (nd_kp nd) to amt")
    case (Ok tx)
    obtain e db' where l: "AcquireNonceLock ?E (nd_db nd) (cx_now cx) tx = (e, db')" by fastforce
    with lock[of "cx_now cx" "tx_From tx" "tx_Nonce tx"] have "accounts A db' = accounts A (nd_db nd)"
      by (simp add: AcquireNonceLock_def)
    with Ok l BuildTx_From[OF Ok] show ?thesis
      by (cases e) (auto simp: SendTx_def Let_def andThen_def split: outcome.split)
  qed (simp_all add: SendTx_def Let_def)
  then show "node_key ?n = node_key nd" "accounts A (nd_db ?n) = accounts A (nd_db nd)"
    "own_payments nd \<Longrightarrow> own_payments ?n"
    by (auto simp: own_payments_def split: if_splits)
qed

lemma confirmed_effect:
  assumes "node_ok (ne_env NE) A nd" and "reads_ok (ne_env NE)" and "handleTxConfirmed NE cx nd pkt = (Ok (), nd')"
  shows "nd_kp nd' = nd_kp nd \<and> nd_pending nd' = nd_pending nd \<and> nd_spawned nd' = nd_spawned nd
    \<and> (accounts A (nd_db nd') = accounts A (nd_db nd) \<or> (\<exists>msg tx. unmarshal (ne_confirmed NE) (pk_Payload pkt) = Inr msg
         \<and> cm_Tx msg = Some tx \<and> accounts A (nd_db nd') = credit (tx_To tx) (unat (tx_Amount tx)) (accounts A (nd_db nd))))"
proof -
  let ?E = "ne_env NE"
  have st: "store_ok ?E A (nd_db nd)" using assms(1) by (simp add: node_ok_def core_ok_def)
  obtain should hops g where g: "ShouldForward (nd_gossip nd) (cx_now cx) (pk_MsgID pkt) = ((should, hops), g)"
    by (metis prod.collapse)
  let ?out = "handleTxConfirmed NE cx nd pkt"
  show ?thesis
  proof (cases "should \<and> (\<exists>msg tx. unmarshal (ne_confirmed NE) (pk_Payload pkt) = Inr msg \<and> cm_Tx msg = Some tx)")
    case True
    then obtain msg tx where m: "should" "unmarshal (ne_confirmed NE) (pk_Payload pkt) = Inr msg" "cm_Tx msg = Some tx"
      by blast
    obtain r db' where a: "ApplyConfirmedTxBalance ?E (nd_db nd) (cx_now cx) (Some tx) = (r, db')" by fastforce
    have "snd ?out = nd' " using assms(3) by simp
    then have "nd_kp nd' = nd_kp nd \<and> nd_pending nd' = nd_pending nd \<and> nd_spawned nd' = nd_spawned nd \<and> nd_db nd' = db'"
      using g m a by (cases r) (auto simp: handleTxConfirmed_def Let_def)
    with apply_accounts[OF st assms(2) a] m show ?thesis by auto
  next
    case False
    with g assms(3) show ?thesis
      by (cases should; cases "unmarshal (ne_confirmed NE) (pk_Payload pkt)")
        (auto simp: handleTxConfirmed_def Let_def ApplyConfirmedTxBalance_def)
  qed
qed

lemma confirm_effect:
  assumes "node_ok (ne_env NE) A nd" and "reads_ok (ne_env NE)" and "confirmTx NE cx nd tx sigs = (r, nd')"
  shows "nd_kp nd' = nd_kp nd \<and> nd_pending nd' = nd_pending nd \<and> nd_spawned nd' = nd_spawned nd
    \<and> (accounts A (nd_db nd') = accounts A (nd_db nd) \<or> (\<exists>S.
         GetActiveSet (en_badger (ne_env NE)) (en_wits (ne_env NE)) (nd_db nd) (cx_now cx) = Ok S
         \<and> 3 \<le> card (good_witnesses (en_crypto (ne_env NE)) sigs (tx_Hash tx) S)
         \<and> cost tx \<le> fst (accounts A (nd_db nd)) (tx_From tx) \<and> accounts A (nd_db nd') = settle tx (accounts A (nd_db nd))))"
proof -
  let ?E = "ne_env NE"
  have st: "store_ok ?E A (tp_db (nd_tp nd))" using assms(1) by (simp add: node_ok_def core_ok_def)
  note c = confirm_accounts[OF st assms(2) refl, of "cx_now cx" "tx\<lparr>tx_WitnessSigs := sigs\<rparr>"]
  show ?thesis
  proof (cases "\<exists>S. GetActiveSet (en_badger ?E) (en_wits ?E) (nd_db nd) (cx_now cx) = Ok S
      \<and> 3 \<le> card (good_witnesses (en_crypto ?E) sigs (tx_Hash tx) S)")
    case False
    then have "confirmTx NE cx nd tx sigs = (Ok (), nd)" by (intro confirmTx_quorum_guard) (auto simp: not_le)
    with assms(3) show ?thesis by simp
  next
    case True
    then obtain S where S: "GetActiveSet (en_badger ?E) (en_wits ?E) (nd_db nd) (cx_now cx) = Ok S"
      "3 \<le> card (good_witnesses (en_crypto ?E) sigs (tx_Hash tx) S)" by blast
    then have "VerifyQuorum (en_crypto ?E) sigs (tx_Hash tx) S (int quorumK) = None"
      by (simp add: VerifyQuorum_None_iff quorumK_def)
    moreover have "snd (confirmTx NE cx nd tx sigs) = nd'" using assms(3) by simp
    ultimately have "nd_kp nd' = nd_kp nd \<and> nd_pending nd' = nd_pending nd \<and> nd_spawned nd' = nd_spawned nd
      \<and> nd_db nd' = tp_db (cr_tp (ConfirmTx ?E (nd_tp nd) (cx_now cx) (tx\<lparr>tx_WitnessSigs := sigs\<rparr>)))"
      using S(1) by (auto simp: confirmTx_def Let_def split: outcome.splits)
    with c S show ?thesis by (auto simp: settle_def cost_def)
  qed
qed

section \<open>The accounts of a node\<close>

text \<open>A received confirmation credits; a confirmation of the node's own settles a payment, after a
  quorum of the active witnesses. These are the only causes of a change.\<close>

definition credited :: "('db, 'txn) net_env \<Rightarrow> packet \<Rightarrow> accounts \<Rightarrow> accounts \<Rightarrow> bool" where
  "credited NE pkt a a' \<longleftrightarrow> pk_Type pkt = PacketTxConfirmed \<and> (\<exists>msg tx. unmarshal (ne_confirmed NE) (pk_Payload pkt) = Inr msg
     \<and> cm_Tx msg = Some tx \<and> a' = credit (tx_To tx) (unat (tx_Amount tx)) a)"

definition settled :: "('db, 'txn) net_env \<Rightarrow> gtime \<Rightarrow> 'db node \<Rightarrow> transaction \<Rightarrow> witness_signature list \<Rightarrow> accounts \<Rightarrow> accounts \<Rightarrow> bool" where
  "settled NE now nd tx sigs a a' \<longleftrightarrow> tx_From tx = node_key nd \<and> cost tx \<le> fst a (node_key nd) \<and> a' = settle tx a
     \<and> (\<exists>S. GetActiveSet (en_badger (ne_env NE)) (en_wits (ne_env NE)) (nd_db nd) now = Ok S
           \<and> 3 \<le> card (good_witnesses (en_crypto (ne_env NE)) sigs (tx_Hash tx) S))"

lemma packet_effect:
  assumes "node_ok (ne_env NE) A nd" and "reads_ok (ne_env NE)" and "handlePacket NE cx nd i pkt = (Ok (), nd')"
  shows "node_key nd' = node_key nd" and "own_payments nd \<Longrightarrow> own_payments nd'"
    and "accounts A (nd_db nd') = accounts A (nd_db nd) \<or> credited NE pkt (accounts A (nd_db nd)) (accounts A (nd_db nd'))"
proof -
  have n: "nd' = snd (handlePacket NE cx nd i pkt)" using assms(3) by simp
  consider "quiet A nd nd'" | "nd' = snd (handleWitnessSig NE cx nd pkt)"
    | "pk_Type pkt = PacketTxConfirmed" "handleTxConfirmed NE cx nd pkt = (Ok (), nd')"
    using assms(3) quiet_lock[OF assms(1), of cx pkt] quiet_verify[of A nd NE cx pkt] n
    by (auto simp: handlePacket_def quiet_def split: if_splits)
  then have "node_key nd' = node_key nd \<and> (own_payments nd \<longrightarrow> own_payments nd') \<and> (accounts A (nd_db nd') = accounts A (nd_db nd)
      \<or> credited NE pkt (accounts A (nd_db nd)) (accounts A (nd_db nd')))"
  proof cases
    case 1
    with own_payments_quiet show ?thesis by (auto simp: quiet_def)
  next
    case 2
    have "nd_kp nd' = nd_kp nd" "nd_db nd' = nd_db nd"
      unfolding 2 by (auto simp: handleWitnessSig_def Let_def split: sum.split option.split prod.split)
    with 2 own_payments_sig show ?thesis by auto
  next
    case 3
    from confirmed_effect[OF assms(1,2) 3(2)] 3(1) show ?thesis
      by (auto simp: own_payments_def credited_def)
  qed
  then show "node_key nd' = node_key nd" "own_payments nd \<Longrightarrow> own_payments nd'"
    "accounts A (nd_db nd') = accounts A (nd_db nd) \<or> credited NE pkt (accounts A (nd_db nd)) (accounts A (nd_db nd'))" by simp_all
qed

lemma quiet_close: "ClosePeer nd i locked = (r, nd') \<Longrightarrow> quiet A nd nd'"
  by (auto simp: ClosePeer_def Let_def removePeer_def split: option.splits prod.splits outcome.splits bool.splits if_splits)

lemma step_effect:
  assumes "node_inv NE A nd" and "own_payments nd" and "reads_ok (ne_env NE)" and "node_step NE nd e nd'"
  shows "node_key nd' = node_key nd \<and> own_payments nd' \<and> (accounts A (nd_db nd') = accounts A (nd_db nd)
    \<or> (\<exists>i cx pkt. e = Receive cx i pkt \<and> credited NE pkt (accounts A (nd_db nd)) (accounts A (nd_db nd')))
    \<or> (\<exists>cx tx sigs. e = Confirm cx tx sigs \<and> settled NE (cx_now cx) nd tx sigs (accounts A (nd_db nd)) (accounts A (nd_db nd'))))"
  (is "?goal nd'")
proof -
  have ok: "node_ok (ne_env NE) A nd" using assms(1) by (simp add: node_inv_def)
  have quiet: "?goal nd'" if "quiet A nd nd'" for nd'
    using own_payments_quiet[OF that assms(2)] that by (auto simp: quiet_def)
  show ?thesis
    using assms(4)
  proof (cases rule: node_step.cases)
    case (receive i cx pkt)
    from packet_effect[OF ok assms(3) receive(3)] assms(2) receive(1) show ?thesis by auto
  next
    case (pay rnd cx to amt r)
    from pay_effect[OF ok, of cx rnd to amt] pay(3) assms(2) show ?thesis by simp
  next
    case (confirm xs tx sigs ys cx)
    let ?nd = "nd\<lparr>nd_spawned := xs @ ys\<rparr>"
    have "node_ok (ne_env NE) A ?nd" using ok by simp
    note c = confirm_effect[OF this assms(3) confirm(3)]
    have own: "own_payments ?nd" "tx_From tx = node_key nd" using assms(2) confirm(2) by (auto simp: own_payments_def)
    with c confirm(1) show ?thesis by (auto simp: own_payments_def settled_def)
  next
    case (snap xs j ys now)
    have "store_ok (ne_env NE) A (nd_db nd)" using ok by (simp add: node_ok_def core_ok_def)
    from autoSnapshot_ok[OF this, of now j] snap show ?thesis by (intro quiet) (simp add: quiet_def accounts_def)
  next
    case (join pk addr i nd1)
    then show ?thesis
      by (intro quiet) (auto simp: allocPeer_def addPeer_def split: option.splits if_splits dest: quiet_close[where A = A])
  next
    case (leave i)
    then show ?thesis by (intro quiet) (auto dest: quiet_close)
  next
    case (pump i p ok out p')
    then show ?thesis by (intro quiet) simp
  next
    case (pump_ends i p ok out p')
    from quiet_close[OF pump_ends(4), of A] show ?thesis by (intro quiet) (simp add: quiet_def)
  next
    case (sweep now)
    then show ?thesis by (intro quiet) simp
  qed
qed

section \<open>The accounts in a network\<close>

definition custody :: "('db, 'txn) net_env \<Rightarrow> ('db, 'txn) badger_abs \<Rightarrow> (nat \<Rightarrow> pubkey) \<Rightarrow> 'db network \<Rightarrow> bool" where
  "custody NE A key s \<longleftrightarrow> reads_ok (ne_env NE) \<and> net_inv NE A s
     \<and> (\<forall>n. own_payments (nw_node s n) \<and> node_key (nw_node s n) = key n)"

lemma custody_start:
  assumes "reads_ok (ne_env NE)" and "net_start NE A s"
  shows "custody NE A (\<lambda>n. node_key (nw_node s n)) s"
proof -
  have "own_payments (nw_node s n)" for n
  proof -
    obtain kp db where "nw_node s n = NewNode kp db"
      using assms(2) unfolding net_start_def fresh_node_def by blast
    then show ?thesis by (simp add: own_payments_def NewNode_def)
  qed
  with assms networks.inv_init[OF assms(2)] show ?thesis by (simp add: custody_def)
qed

lemma custody_effect:
  assumes "custody NE A key s" and "net_step NE L s e s'" and "call_of e = (n, c)"
  shows "custody NE A key s'"
    and "accounts A (nd_db (nw_node s' n)) = accounts A (nd_db (nw_node s n))
      \<or> (\<exists>i cx pkt. c = Receive cx i pkt \<and> credited NE pkt (accounts A (nd_db (nw_node s n))) (accounts A (nd_db (nw_node s' n))))
      \<or> (\<exists>cx tx sigs. c = Confirm cx tx sigs
           \<and> settled NE (cx_now cx) (nw_node s n) tx sigs (accounts A (nd_db (nw_node s n))) (accounts A (nd_db (nw_node s' n))))"
proof -
  have inv: "net_inv NE A s" and r: "reads_ok (ne_env NE)" and o: "own_payments (nw_node s m)" "node_key (nw_node s m) = key m" for m
    using assms(1) by (simp_all add: custody_def)
  note eff = step_effect[OF net_inv_node[OF inv] o(1) r net_step_call(1)[OF assms(2,3)]]
  then show "accounts A (nd_db (nw_node s' n)) = accounts A (nd_db (nw_node s n))
      \<or> (\<exists>i cx pkt. c = Receive cx i pkt \<and> credited NE pkt (accounts A (nd_db (nw_node s n))) (accounts A (nd_db (nw_node s' n))))
      \<or> (\<exists>cx tx sigs. c = Confirm cx tx sigs
           \<and> settled NE (cx_now cx) (nw_node s n) tx sigs (accounts A (nd_db (nw_node s n))) (accounts A (nd_db (nw_node s' n))))"
    by blast
  have "own_payments (nw_node s' m) \<and> node_key (nw_node s' m) = key m" for m
    using eff o[of m] o[of n] net_step_call(2)[OF assms(2,3), of m] by (cases "m = n") auto
  with net_inv_step[OF inv assms(2)] r show "custody NE A key s'" by (simp add: custody_def)
qed

interpretation custodians: machine "custody NE A key" "net_step NE L" "custody NE A key" for NE A key L
  by unfold_locales (assumption, metis custody_effect(1) prod.collapse)


section \<open>The abstract machine\<close>

text \<open>The accounts as the node with the key \<open>me\<close> keeps them: other keys are only ever credited.\<close>

datatype cause = Idle | Credited pubkey nat | Settled transaction

inductive account_step :: "pubkey \<Rightarrow> accounts \<Rightarrow> cause \<Rightarrow> accounts \<Rightarrow> bool" for me :: pubkey where
  idle: "account_step me a Idle a"
| credit: "account_step me a (Credited pk n) (credit pk n a)"
| settle: "tx_From tx = me \<Longrightarrow> cost tx \<le> fst a me \<Longrightarrow> account_step me a (Settled tx) (settle tx a)"

inductive_cases account_stepE: "account_step me a c a'"

fun explains :: "('db, 'txn) net_env \<Rightarrow> nat \<Rightarrow> net_event \<Rightarrow> cause \<Rightarrow> bool" where
  "explains NE n e Idle = True"
| "explains NE n e (Credited pk amt) = (\<exists>i cx pkt msg tx. call_of e = (n, Receive cx i pkt) \<and> pk_Type pkt = PacketTxConfirmed
     \<and> unmarshal (ne_confirmed NE) (pk_Payload pkt) = Inr msg \<and> cm_Tx msg = Some tx \<and> tx_To tx = pk \<and> unat (tx_Amount tx) = amt)"
| "explains NE n e (Settled tx) = (\<exists>cx sigs. call_of e = (n, Confirm cx tx sigs))"

lemma custody_simulates:
  assumes "custody NE A key s" and "net_step NE L s e s'"
  shows "\<exists>c. account_step (key n) (accounts A (nd_db (nw_node s n))) c (accounts A (nd_db (nw_node s' n))) \<and> explains NE n e c"
proof -
  obtain m c where c: "call_of e = (m, c)" by fastforce
  let ?a = "accounts A (nd_db (nw_node s n))" and ?a' = "accounts A (nd_db (nw_node s' n))"
  consider "?a' = ?a" | i cx pkt where "m = n" "c = Receive cx i pkt" "credited NE pkt ?a ?a'"
    | cx tx sigs where "m = n" "c = Confirm cx tx sigs" "settled NE (cx_now cx) (nw_node s n) tx sigs ?a ?a'"
    using custody_effect(2)[OF assms c] net_step_call(2)[OF assms(2) c, of n] by (cases "m = n") (simp, blast, simp)
  then show ?thesis
  proof cases
    case 1
    then show ?thesis by (auto intro: account_step.idle exI[of _ Idle])
  next
    case (2 i cx pkt)
    then obtain msg tx where "pk_Type pkt = PacketTxConfirmed" "unmarshal (ne_confirmed NE) (pk_Payload pkt) = Inr msg"
      "cm_Tx msg = Some tx" and a: "?a' = credit (tx_To tx) (unat (tx_Amount tx)) ?a" by (auto simp: credited_def)
    with 2 c show ?thesis
      unfolding a by (intro exI[of _ "Credited (tx_To tx) (unat (tx_Amount tx))"] conjI account_step.credit) auto
  next
    case (3 cx tx sigs)
    then have own: "tx_From tx = key n" "cost tx \<le> fst ?a (key n)" and a: "?a' = settle tx ?a"
      using assms(1) by (auto simp: settled_def custody_def)
    with 3 c show ?thesis unfolding a by (intro exI[of _ "Settled tx"] conjI account_step.settle) auto
  qed
qed

interpretation custodies: simulation "custody NE A key" "net_step NE L" "custody NE A key"
  "\<lambda>s. accounts A (nd_db (nw_node s n))" "account_step (key n)" "explains NE n" for NE A key L n
  by unfold_locales (rule custody_simulates)


lemma foreign_account_step:
  "account_step me a c a' \<Longrightarrow> pk \<noteq> me \<Longrightarrow> fst a pk \<le> fst a' pk \<and> snd a' pk = snd a pk"
  by (auto elim!: account_stepE simp: credit_def settle_def)

lemma foreign_account_runs:
  "runs (account_step me) a cs a' \<Longrightarrow> pk \<noteq> me \<Longrightarrow> fst a pk \<le> fst a' pk \<and> snd a' pk = snd a pk"
  by (induction rule: runs.induct) (auto dest: foreign_account_step intro: le_trans)


section \<open>A forged confirmation\<close>

definition rich_network :: "mem network" where
  "rich_network = \<lparr>nw_node = (\<lambda>_. rich_node), nw_wire = (\<lambda>_. [])\<rparr>"

abbreviation no_links :: "end_point \<Rightarrow> end_point option" where
  "no_links \<equiv> \<lambda>_. None"

text \<open>An outsider connects to node 0 and sends a confirmation that credits account 5 with 1000.\<close>

lemma forged_run:
  obtains NE :: "(mem, mem \<times> gtime) net_env" and pkt s s' where "net_start NE mem_abs rich_network" and "reads_ok (ne_env NE)"
    and "runs (net_step NE no_links) rich_network [Local 0 (Join 0 [])] s"
    and "net_step NE no_links s (Outside 0 0 sample_cx pkt) s'"
    and "balance (led mem_abs (nd_db (nw_node s 0))) 5 = 70" and "unat (balance (led mem_abs (nd_db (nw_node s' 0))) 5) = 1070"
proof -
  let ?tx = "(pay 5)\<lparr>tx_Hash := 1\<rparr>"
  let ?NE = "(sample_net no_sigs)\<lparr>ne_confirmed := \<lparr>marshal = (\<lambda>_. Inr [5]), unmarshal = (\<lambda>_. Inr \<lparr>cm_Tx = Some ?tx\<rparr>)\<rparr>\<rparr>"
  let ?p = "\<lparr>pk_Type = PacketTxConfirmed, pk_MsgID = 7, pk_Payload = [5]\<rparr>"
  have fresh: "fresh_node ?NE mem_abs rich_node"
    unfolding fresh_node_def rich_node_def
    by (rule exI, rule exI, rule conjI, rule refl) (simp add: rich_store_ok)
  then have start: "net_start ?NE mem_abs rich_network" by (simp add: net_start_def rich_network_def)
  have reads: "reads_ok (ne_env ?NE)" by (simp add: reads_ok_def mem_DB_Get)
  have bal: "balance (led mem_abs (nd_db rich_node)) 5 = 70"
    by (simp add: mem_abs_def balance_ledger_of cell_def rich_node_def NewNode_def)
  obtain nd where j: "node_step ?NE rich_node (Join 0 []) nd" "nd_heap nd 0 \<noteq> None" "nd_gossip nd = NewGossip" "nd_tp nd = nd_tp rich_node"
    using join_next[of rich_node 0 ?NE] by (auto simp: rich_node_def NewNode_def MaxPeers_def)
  then have ok: "node_ok (ne_env ?NE) mem_abs nd"
    using node_inv_step[OF node_inv_New[OF fresh] j(1)] by (simp add: node_inv_def)
  obtain db' where a: "ApplyConfirmedTxBalance sample_env (nd_db rich_node) 0 (Some ?tx) = (Ok (), db')"
    using mem_apply[OF rich_node_wf, of ?tx 0] bal by (auto simp: unat_MaxAmount)
  have e: "ApplyConfirmedTxBalance (ne_env (sample_net no_sigs)) = ApplyConfirmedTxBalance sample_env"
    by (rule Apply_badger) simp
  have new: "\<not> IsConfirmedTxApplied mem_badger (nd_db rich_node) 0 1"
    by (simp add: IsConfirmedTxApplied_def mem_DB_Get visible_def rich_node_def NewNode_def)
  have st: "store_ok sample_env mem_abs (nd_db rich_node)" using rich_node_wf mem_badger_ok by simp
  have db': "store_ok sample_env mem_abs db'" "unat (balance (led mem_abs db') 5) = 1070"
    using apply_balance[OF st a] new bal mem_read_ok[OF rich_node_wf] by simp_all
  obtain nd' where h: "handlePacket ?NE sample_cx nd 0 ?p = (Ok (), nd')" "nd_db nd' = db'"
    using handleTxConfirmed_applies[of ?p nd ?NE ?tx sample_cx db' mem_abs 0] a db'(1) ok j(3,4)
    by (auto simp: e NewGossip_def)
  let ?s = "put_node 0 nd rich_network"
  have s1: "net_step ?NE no_links rich_network (Local 0 (Join 0 [])) ?s"
    by (rule net_step.own) (use j(1) in \<open>simp_all add: rich_network_def\<close>)
  then have run: "runs (net_step ?NE no_links) rich_network [Local 0 (Join 0 [])] ?s"
    by (simp add: runs_Cons)
  have s2: "net_step ?NE no_links ?s (Outside 0 0 sample_cx ?p) (put_node 0 nd' ?s)"
    by (rule net_step.outside, rule refl, rule node_step.receive) (use j(2) h(1) in simp_all)
  show ?thesis
    by (rule that[OF start reads run s2]) (use bal j(4) h(2) db'(2) in simp_all)
qed




end
