(* ===== verification/Localnet.thy ===== *)
theory Localnet
  imports Startup Strconv
begin

text \<open>
  \<^verbatim>\<open>scripts/localnet\<close>: \<^verbatim>\<open>setup.go\<close>, which writes the keys and configurations of a local network of five
  nodes, and \<^verbatim>\<open>init.go\<close>, which waits for the nodes, gives each its balance and registers all of them
  as witnesses. \<^verbatim>\<open>os.MkdirAll\<close> is not modelled:
  its error is dropped, and a directory that is missing shows as a failed write of the files in it.
\<close>

section \<open>Paths and addresses\<close>

definition totalNodes :: nat where "totalNodes = 5"
definition basePeerPort :: nat where "basePeerPort = 7331"
definition baseAPIPort :: nat where "baseAPIPort = 8331"

definition local_addr :: "nat \<Rightarrow> string" where
  "local_addr port = ''127.0.0.1:'' @ digits port"

text \<open>\<^verbatim>\<open>filepath.Join\<close> on names without separators, and the \<^verbatim>\<open>Sprintf\<close> paths of the other scripts.\<close>

definition nodeDir :: "nat \<Rightarrow> string" where
  "nodeDir i = ''testnet/node'' @ digits i"

definition keyPath :: "nat \<Rightarrow> string" where "keyPath i = nodeDir i @ ''/node.key''"
definition configPath :: "nat \<Rightarrow> string" where "configPath i = nodeDir i @ ''/config.json''"
definition genesisPath :: string where "genesisPath = ''testnet/genesis.json''"

section \<open>setup.go\<close>

definition seedsFor :: "nat \<Rightarrow> string list" where
  "seedsFor i = map (\<lambda>j. local_addr (basePeerPort + j - 1)) [1..<i]"

definition nodeConfig :: "nat \<Rightarrow> config" where
  "nodeConfig i =
     \<lparr>cfg_PrivKeyPath = keyPath i, cfg_DBPath = nodeDir i @ ''/db'',
      cfg_P2PAddr = local_addr (basePeerPort + i - 1), cfg_APIAddr = local_addr (baseAPIPort + i - 1),
      cfg_SeedPeers = seedsFor i, cfg_NetworkID = ''cdml-local-1''\<rparr>"

record genesis_witness =
  gw_PubKey :: string
  gw_Addr :: string

record genesis =
  gs_NetworkID :: string
  gs_Witnesses :: "genesis_witness list"

text \<open>The public half of the node's key, reused from its file or new; a failed write of the new key is
  ignored.\<close>

definition setupKey :: "crypto_ops \<Rightarrow> disk \<Rightarrow> error + bytes \<Rightarrow> string \<Rightarrow> bytes result \<times> disk" where
  "setupKey C dk rnd path =
     (let create = (case rnd of
                      Inl e \<Rightarrow> (Panic, dk)
                    | Inr seed \<Rightarrow> (let priv = ed_new_key C seed in (Ok (drop 32 priv), snd (WriteFile dk path priv))))
      in case ReadFile dk path of
           Inr existing \<Rightarrow> if length existing = 64 then (Ok (drop 32 existing), dk) else create
         | Inl e \<Rightarrow> create)"

fun setupNodes ::
  "config codec \<Rightarrow> crypto_ops \<Rightarrow> (nat \<Rightarrow> error + bytes) \<Rightarrow> nat list \<Rightarrow> disk \<Rightarrow> string list \<Rightarrow>
     string list result \<times> disk" where
  "setupNodes J C rnd [] dk pks = (Ok pks, dk)"
| "setupNodes J C rnd (i # is) dk pks =
     (case setupKey C dk (rnd i) (keyPath i) of
        (Ok pub, dk1) \<Rightarrow>
          setupNodes J C rnd is (snd (WriteFile dk1 (configPath i) (marshal_or_nil J (nodeConfig i))))
            (pks @ [hex_encode pub])
      | (Err e, dk1) \<Rightarrow> (Err e, dk1) | (Panic, dk1) \<Rightarrow> (Panic, dk1) | (Blocked, dk1) \<Rightarrow> (Blocked, dk1))"

definition genesisOf :: "string list \<Rightarrow> genesis" where
  "genesisOf pks =
     \<lparr>gs_NetworkID = ''cdml-local-1'',
      gs_Witnesses = map (\<lambda>i. \<lparr>gw_PubKey = pks ! i, gw_Addr = local_addr (basePeerPort + i)\<rparr>) [0..<totalNodes]\<rparr>"

text \<open>The batch files that start and stop the nodes.\<close>

definition crlf :: string where "crlf = [CHR 0x0D, CHR 0x0A]"
definition quote :: string where "quote = [CHR 0x22]"
definition bslash :: string where "bslash = [CHR 0x5C]"

definition startNodeLines :: "nat \<Rightarrow> string" where
  "startNodeLines i =
     ''echo Starting node'' @ digits i @ ''...'' @ crlf @
     ''start '' @ quote @ ''node'' @ digits i @ quote @ '' cmd /c '' @ quote @
       ''testnet'' @ bslash @ ''cdml.exe -config testnet'' @ bslash @ ''node'' @ digits i @ bslash @
       ''config.json >> testnet'' @ bslash @ ''node'' @ digits i @ bslash @ ''node.log 2>&1'' @ quote @ crlf @
     (if i = 2 then ''timeout /t 3 /nobreak >nul'' @ crlf else [])"

definition startBat :: string where
  "startBat =
     ''@echo off'' @ crlf @ ''cd /d %~dp0'' @ bslash @ ''..'' @ crlf @ crlf @
     ''echo Building cdml...'' @ crlf @
     ''go build -o testnet'' @ bslash @ ''cdml.exe .'' @ bslash @ ''cmd'' @ bslash @ ''cdml'' @ crlf @
     ''if errorlevel 1 (echo BUILD FAILED && pause && exit /b 1)'' @ crlf @ crlf @
     concat (map startNodeLines [1..<totalNodes + 1]) @
     crlf @ ''echo All nodes started.'' @ crlf @
     ''echo Dashboard: http://127.0.0.1:'' @ digits 8331 @ ''/healthz'' @ crlf @
     ''timeout /t 5 /nobreak >nul'' @ crlf @
     ''echo.'' @ crlf @ ''echo Next: go run scripts'' @ bslash @ ''localnet'' @ bslash @ ''init.go'' @ crlf @
     ''echo.'' @ crlf @ ''pause'' @ crlf"

definition stopBat :: string where
  "stopBat = ''@echo off'' @ crlf @ ''taskkill /F /IM cdml.exe 2>nul'' @ crlf @ ''echo All nodes stopped.'' @ crlf @
     ''pause'' @ crlf"

definition writeBat :: "disk \<Rightarrow> disk" where
  "writeBat dk =
     (let dk1 = snd (WriteFile dk ''testnet/start_all.bat'' (str_bytes startBat))
      in snd (WriteFile dk1 ''testnet/stop_all.bat'' (str_bytes stopBat)))"

definition setup_main ::
  "config codec \<Rightarrow> genesis codec \<Rightarrow> crypto_ops \<Rightarrow> (nat \<Rightarrow> error + bytes) \<Rightarrow> disk \<Rightarrow> string list result \<times> disk" where
  "setup_main J G C rnd dk =
     (case setupNodes J C rnd [1..<totalNodes + 1] dk [] of
        (Ok pks, dk1) \<Rightarrow>
          (Ok pks, writeBat (snd (WriteFile dk1 genesisPath (marshal_or_nil G (genesisOf pks)))))
      | (r, dk1) \<Rightarrow> (r, dk1))"

section \<open>What setup leaves\<close>

lemma path_inject [simp]:
  "keyPath i = keyPath j \<longleftrightarrow> i = j" "configPath i = configPath j \<longleftrightarrow> i = j"
  by (simp_all add: keyPath_def configPath_def nodeDir_def digits_inject)

lemma path_last:
  "last (keyPath i) = CHR ''y''" "last (configPath i) = CHR ''n''"
  by (simp_all add: keyPath_def configPath_def)

lemma path_distinct [simp]: "keyPath i \<noteq> configPath j" "configPath j \<noteq> keyPath i"
proof -
  show "keyPath i \<noteq> configPath j"
  proof
    assume "keyPath i = configPath j"
    then have "last (keyPath i) = last (configPath j)" by (rule arg_cong)
    then show False by (simp add: path_last)
  qed
  then show "configPath j \<noteq> keyPath i" by (rule not_sym)
qed

lemma genesis_distinct [simp]: "genesisPath \<noteq> keyPath i" "genesisPath \<noteq> configPath i"
  by (simp_all add: genesisPath_def keyPath_def configPath_def nodeDir_def)

lemma local_addr_inject [simp]: "local_addr p = local_addr q \<longleftrightarrow> p = q"
  by (simp add: local_addr_def digits_inject)

text \<open>The topology of the local network: two nodes always have a seed link, from the later one to the
  earlier; no node is its own seed; and all P2P and API addresses are different.\<close>

theorem localnet_topology:
  "\<forall>i \<in> {1..totalNodes}. \<forall>j \<in> {1..totalNodes}.
     (i < j \<longleftrightarrow> cfg_P2PAddr (nodeConfig i) \<in> set (cfg_SeedPeers (nodeConfig j)))
     \<and> (cfg_P2PAddr (nodeConfig i) = cfg_P2PAddr (nodeConfig j) \<longleftrightarrow> i = j)
     \<and> (cfg_APIAddr (nodeConfig i) = cfg_APIAddr (nodeConfig j) \<longleftrightarrow> i = j)
     \<and> cfg_P2PAddr (nodeConfig i) \<noteq> cfg_APIAddr (nodeConfig j)"
  by (auto simp: nodeConfig_def seedsFor_def basePeerPort_def baseAPIPort_def totalNodes_def image_iff)

definition all_ok :: "disk \<Rightarrow> bool" where
  "all_ok dk \<longleftrightarrow> (\<forall>p. dk_readable dk p) \<and> (\<forall>p. dk_writable dk p)"

lemma WriteFile_all_ok [simp]:
  "all_ok dk \<Longrightarrow> all_ok (snd (WriteFile dk p b))"
  "all_ok dk \<Longrightarrow> ReadFile (snd (WriteFile dk p b)) q = (if q = p then Inr b else ReadFile dk q)"
  by (auto simp: all_ok_def WriteFile_def ReadFile_def)

lemma writeBat_files:
  "all_ok dk \<Longrightarrow> p \<notin> {''testnet/start_all.bat'', ''testnet/stop_all.bat''} \<Longrightarrow> ReadFile (writeBat dk) p = ReadFile dk p"
  by (simp add: writeBat_def Let_def)

lemma writeBat_paths [simp]:
  "keyPath i \<notin> {''testnet/start_all.bat'', ''testnet/stop_all.bat''}"
  "configPath i \<notin> {''testnet/start_all.bat'', ''testnet/stop_all.bat''}"
  by (auto simp: keyPath_def configPath_def nodeDir_def)

text \<open>What is on the disk for one node: its configuration, and a key whose public half is listed.\<close>

definition node_ready :: "config codec \<Rightarrow> disk \<Rightarrow> nat \<Rightarrow> string \<Rightarrow> bool" where
  "node_ready J dk i pk \<longleftrightarrow> ReadFile dk (configPath i) = Inr (marshal_or_nil J (nodeConfig i)) \<and>
     (\<exists>k. ReadFile dk (keyPath i) = Inr k \<and> length k = 64 \<and> pk = hex_encode (drop 32 k))"

lemma setupKey_ok:
  assumes "ed25519_ok C" and "all_ok dk" and "setupKey C dk rnd path = (Ok pub, dk')"
  shows "all_ok dk' \<and> (\<exists>k. ReadFile dk' path = Inr k \<and> length k = 64 \<and> pub = drop 32 k)
    \<and> (\<forall>q. q \<noteq> path \<longrightarrow> ReadFile dk' q = ReadFile dk q)"
proof -
  have new: ?thesis if "(case rnd of Inl e \<Rightarrow> (Panic, dk)
      | Inr seed \<Rightarrow> (Ok (drop 32 (ed_new_key C seed)), snd (WriteFile dk path (ed_new_key C seed)))) = (Ok pub, dk')"
    using that assms(1,2) by (cases rnd) (auto simp: ed25519_ok_def)
  show ?thesis
  proof (cases "\<exists>b. ReadFile dk path = Inr b \<and> length b = 64")
    case True
    with assms(2,3) show ?thesis by (auto simp: setupKey_def Let_def)
  next
    case False
    with assms(3) show ?thesis by (intro new) (auto simp: setupKey_def Let_def split: sum.splits if_splits)
  qed
qed

lemma setupNodes_ok:
  assumes "ed25519_ok C" and "all_ok dk" and "distinct is" and "setupNodes J C rnd is dk pks = (Ok pks', dk')"
  shows "all_ok dk' \<and> (\<exists>new. pks' = pks @ new \<and> length new = length is
      \<and> (\<forall>n < length is. node_ready J dk' (is ! n) (new ! n)))
    \<and> (\<forall>q. (\<forall>i \<in> set is. q \<noteq> keyPath i \<and> q \<noteq> configPath i) \<longrightarrow> ReadFile dk' q = ReadFile dk q)"
  using assms(2-)
proof (induction "is" arbitrary: dk pks)
  case Nil
  then show ?case by simp
next
  case (Cons i "is")
  from Cons.prems(3) obtain pub dk1 where k: "setupKey C dk (rnd i) (keyPath i) = (Ok pub, dk1)"
    by (auto split: prod.splits outcome.splits)
  note k1 = setupKey_ok[OF assms(1) Cons.prems(1) k]
  let ?dk2 = "snd (WriteFile dk1 (configPath i) (marshal_or_nil J (nodeConfig i)))"
  have dk2: "all_ok ?dk2" "node_ready J ?dk2 i (hex_encode pub)"
    using k1 by (auto simp: node_ready_def)
  have rest: "setupNodes J C rnd is ?dk2 (pks @ [hex_encode pub]) = (Ok pks', dk')"
    using Cons.prems(3) k by simp
  from Cons.IH[OF dk2(1) _ rest] Cons.prems(2) obtain new where
    new: "all_ok dk'" "pks' = (pks @ [hex_encode pub]) @ new" "length new = length is"
      "\<forall>n < length is. node_ready J dk' (is ! n) (new ! n)"
    and fr: "\<forall>q. (\<forall>i \<in> set is. q \<noteq> keyPath i \<and> q \<noteq> configPath i) \<longrightarrow> ReadFile dk' q = ReadFile ?dk2 q"
    by auto
  have "node_ready J dk' i (hex_encode pub)"
  proof -
    have "ReadFile dk' (configPath i) = ReadFile ?dk2 (configPath i)" "ReadFile dk' (keyPath i) = ReadFile ?dk2 (keyPath i)"
      by (rule fr[rule_format]; use Cons.prems(2) in auto)+
    with dk2(2) show ?thesis unfolding node_ready_def by simp
  qed
  with new have "pks' = pks @ (hex_encode pub # new) \<and> length (hex_encode pub # new) = length (i # is)
      \<and> (\<forall>n < length (i # is). node_ready J dk' ((i # is) ! n) ((hex_encode pub # new) ! n))"
    by (auto simp: less_Suc_eq_0_disj)
  moreover have "ReadFile dk' q = ReadFile dk q" if "\<forall>j \<in> set (i # is). q \<noteq> keyPath j \<and> q \<noteq> configPath j" for q
    using that fr k1 by auto
  ultimately show ?case using new(1) by blast
qed



end
