(* ===== verification/Cli.thy ===== *)
theory Cli
  imports Files Strconv
begin

text \<open>
  \<^verbatim>\<open>scripts/cli/main.go\<close>, the command line client, and the HTTP client it shares with
  \<^verbatim>\<open>scripts/localnet/init.go\<close>. What a command prints is modelled by its values, without the wording.
\<close>

section \<open>HTTP client\<close>

text \<open>What is at the other end, with its state \<open>'s\<close>: \<^verbatim>\<open>http.Client\<close> gives a response, whose body is read
  afterwards, or an error, also when the time is up.\<close>

record http_req =
  hq_Timeout :: nat
  hq_Method :: string
  hq_Url :: string
  hq_Body :: bytes

record http_resp =
  hr_Status :: nat
  hr_Body :: "error + bytes"

type_synonym 's transport = "'s \<Rightarrow> http_req \<Rightarrow> (error + http_resp) \<times> 's"

definition fetch :: "'s transport \<Rightarrow> 's \<Rightarrow> http_req \<Rightarrow> (error + bytes) \<times> 's" where
  "fetch T s rq = (case T s rq of (Inl e, s') \<Rightarrow> (Inl e, s') | (Inr resp, s') \<Rightarrow> (hr_Body resp, s'))"

text \<open>\<^verbatim>\<open>get\<close> and \<^verbatim>\<open>post\<close>: the status of the response is not looked at.\<close>

definition cli_get :: "'s transport \<Rightarrow> 's \<Rightarrow> string \<Rightarrow> (error + bytes) \<times> 's" where
  "cli_get T s url = fetch T s \<lparr>hq_Timeout = 5, hq_Method = ''GET'', hq_Url = url, hq_Body = []\<rparr>"

definition cli_post :: "'s transport \<Rightarrow> 's \<Rightarrow> string \<Rightarrow> bytes \<Rightarrow> (error + bytes) \<times> 's" where
  "cli_post T s url data = fetch T s \<lparr>hq_Timeout = 10, hq_Method = ''POST'', hq_Url = url, hq_Body = data\<rparr>"

text \<open>The two as the commands use them.\<close>

record 's client =
  cl_get :: "'s \<Rightarrow> string \<Rightarrow> (error + bytes) \<times> 's"
  cl_post :: "'s \<Rightarrow> string \<Rightarrow> bytes \<Rightarrow> (error + bytes) \<times> 's"

definition cli_client :: "'s transport \<Rightarrow> 's client" where
  "cli_client T = \<lparr>cl_get = cli_get T, cl_post = cli_post T\<rparr>"

section \<open>Flags\<close>

record cli_flags =
  fl_Node :: int
  fl_Testnet :: string

definition defaultFlags :: cli_flags where
  "defaultFlags = \<lparr>fl_Node = 1, fl_Testnet = ''testnet''\<rparr>"

text \<open>
  The documented behaviour of Go's \<^verbatim>\<open>flag\<close> package: it stops at the first argument that is not a
  flag, and after \<^verbatim>\<open>--\<close>; \<open>None\<close> is a usage error, which ends the program. \<open>atoi\<close> is the package's
  reading of an integer.
\<close>

definition setFlag :: "(string \<Rightarrow> int option) \<Rightarrow> string \<Rightarrow> string \<Rightarrow> cli_flags \<Rightarrow> cli_flags option" where
  "setFlag atoi key v fl =
     (if key = ''node'' then map_option (\<lambda>n. fl\<lparr>fl_Node := n\<rparr>) (atoi v)
      else if key = ''testnet'' then Some (fl\<lparr>fl_Testnet := v\<rparr>) else None)"

definition flagName :: "string \<Rightarrow> string" where
  "flagName s = (if s ! 1 = CHR ''-'' then drop 2 s else drop 1 s)"

fun parseFlags :: "(string \<Rightarrow> int option) \<Rightarrow> string list \<Rightarrow> cli_flags \<Rightarrow> (cli_flags \<times> string list) option" where
  "parseFlags atoi [] fl = Some (fl, [])"
| "parseFlags atoi (s # rest) fl =
     (if length s < 2 \<or> hd s \<noteq> CHR ''-'' then Some (fl, s # rest)
      else if s = ''--'' then Some (fl, rest)
      else (let name = flagName s in
            if name = [] \<or> hd name = CHR ''-'' \<or> hd name = CHR ''='' then None
            else (case dropWhile (\<lambda>c. c \<noteq> CHR ''='') name of
                    _ # v \<Rightarrow>
                      (case setFlag atoi (takeWhile (\<lambda>c. c \<noteq> CHR ''='') name) v fl of
                         None \<Rightarrow> None | Some fl' \<Rightarrow> parseFlags atoi rest fl')
                  | [] \<Rightarrow>
                      (case rest of
                         [] \<Rightarrow> None
                       | v # rest' \<Rightarrow>
                           (case setFlag atoi name v fl of
                              None \<Rightarrow> None | Some fl' \<Rightarrow> parseFlags atoi rest' fl')))))"

section \<open>Finding the nodes\<close>

text \<open>\<open>J\<close> reads the field \<^verbatim>\<open>api_addr\<close> of a configuration. \<^verbatim>\<open>%d\<close> of a negative number has a sign.\<close>

definition int_digits :: "int \<Rightarrow> string" where
  "int_digits n = (if n < 0 then CHR ''-'' # digits (nat (- n)) else digits (nat n))"

definition loadAPIAddr :: "(bytes \<Rightarrow> error + string) \<Rightarrow> disk \<Rightarrow> string \<Rightarrow> int \<Rightarrow> string result" where
  "loadAPIAddr J dk dir n =
     (let path = dir @ ''/node'' @ int_digits n @ ''/config.json'' in
      case ReadFile dk path of
        Inl e \<Rightarrow> Err (Wrapf (''read '' @ path @ '': %w'') [] e)
      | Inr data \<Rightarrow>
          (case J data of
             Inl e \<Rightarrow> Err (Wrapf ''parse config: %w'' [] e)
           | Inr addr \<Rightarrow> if addr = [] then Err (Errorf (''api_addr not set in '' @ path) []) else Ok addr))"

text \<open>The loop from node \<open>i\<close> on, for at most \<open>k\<close> nodes: the first that cannot be loaded ends it.\<close>

fun loadNodes :: "(nat \<Rightarrow> 'a result) \<Rightarrow> nat \<Rightarrow> nat \<Rightarrow> (nat \<times> 'a) list" where
  "loadNodes load i 0 = []"
| "loadNodes load i (Suc k) =
     (case load i of Ok a \<Rightarrow> (i, a) # loadNodes load (Suc i) k | _ \<Rightarrow> [])"

definition loadAllNodes :: "(bytes \<Rightarrow> error + string) \<Rightarrow> disk \<Rightarrow> string \<Rightarrow> (nat \<times> string) list" where
  "loadAllNodes J dk dir = loadNodes (\<lambda>i. loadAPIAddr J dk dir (int i)) 1 20"

section \<open>Amounts\<close>

definition microToCDML :: "u64 \<Rightarrow> string" where
  "microToCDML micro =
     (if unat micro mod 1000000 = 0 then digits (unat micro div 1000000)
      else digits (unat micro div 1000000) @ ''.'' @ padded 6 (unat micro mod 1000000))"

section \<open>Commands\<close>

datatype printed =
    PFatal string
  | PHelp
  | PUnknown string
  | PNode nat string "(string \<times> int) option"
  | PBalance string u64 string u64
  | PSending string string u64 string
  | PSent string u64
  | PApiError string string
  | PBody bytes
  | PPeers int "(string \<times> string) list"
  | PFaucet string string

text \<open>The JSON values the client reads from responses (a field that is missing or does not parse has
  its zero value) and the bodies it sends.\<close>

record cli_json =
  cj_status :: "bytes \<Rightarrow> string \<times> int"
  cj_balance :: "bytes \<Rightarrow> u64 \<times> u64"
  cj_error :: "bytes \<Rightarrow> string \<times> string"
  cj_sent :: "bytes \<Rightarrow> string \<times> u64"
  cj_peers :: "bytes \<Rightarrow> int \<times> (string \<times> string) list"
  cj_faucet :: "bytes \<Rightarrow> u64 \<times> u64"
  cj_sendBody :: "string \<Rightarrow> u64 \<Rightarrow> bytes"
  cj_faucetBody :: "string \<Rightarrow> u64 \<Rightarrow> bytes"

definition short_key :: "string \<Rightarrow> string" where
  "short_key pub = (if length pub > 16 then take 16 pub @ ''...'' else pub)"

fun statusLines :: "'s client \<Rightarrow> cli_json \<Rightarrow> (nat \<times> string) list \<Rightarrow> 's \<Rightarrow> printed list \<times> 's" where
  "statusLines cl CJ [] s = ([], s)"
| "statusLines cl CJ ((i, addr) # ns) s =
     (case cl_get cl s (''http://'' @ addr @ ''/v1/status'') of
        (r, s1) \<Rightarrow>
          (let line = (case r of
                         Inl e \<Rightarrow> PNode i addr None
                       | Inr b \<Rightarrow> PNode i addr (Some (short_key (fst (cj_status CJ b)), snd (cj_status CJ b))))
           in case statusLines cl CJ ns s1 of (ls, s2) \<Rightarrow> (line # ls, s2)))"

definition cmdStatus ::
  "'s client \<Rightarrow> cli_json \<Rightarrow> (bytes \<Rightarrow> error + string) \<Rightarrow> disk \<Rightarrow> string \<Rightarrow> 's \<Rightarrow> printed list \<times> 's" where
  "cmdStatus cl CJ J dk dir s =
     (case loadAllNodes J dk dir of
        [] \<Rightarrow> ([PFatal ''no node config''], s)
      | nodes \<Rightarrow> statusLines cl CJ nodes s)"

definition cmdBalance :: "'s client \<Rightarrow> cli_json \<Rightarrow> string \<Rightarrow> string \<Rightarrow> 's \<Rightarrow> printed list \<times> 's" where
  "cmdBalance cl CJ base pk s =
     (case cl_get cl s (base @ ''/v1/balance/'' @ pk) of
        (Inl e, s') \<Rightarrow> ([PFatal ''balance''], s')
      | (Inr b, s') \<Rightarrow>
          (case cj_balance CJ b of (bal, seq) \<Rightarrow> ([PBalance pk bal (microToCDML bal) seq], s')))"

definition cmdSend :: "'s client \<Rightarrow> cli_json \<Rightarrow> string \<Rightarrow> string \<Rightarrow> u64 \<Rightarrow> 's \<Rightarrow> printed list \<times> 's" where
  "cmdSend cl CJ base to amt s =
     (case cl_get cl s (base @ ''/v1/status'') of
        (r, s1) \<Rightarrow>
          (let from = (case r of Inl e \<Rightarrow> fst (cj_status CJ []) | Inr b \<Rightarrow> fst (cj_status CJ b));
               sending = PSending from to amt (microToCDML amt) in
           case cl_post cl s1 (base @ ''/v1/tx'') (cj_sendBody CJ to amt) of
             (Inl e, s2) \<Rightarrow> ([sending, PFatal ''send''], s2)
           | (Inr b, s2) \<Rightarrow>
               (case cj_error CJ b of
                  (code, msg) \<Rightarrow>
                    if code \<noteq> [] then ([sending, PApiError code msg], s2)
                    else (case cj_sent CJ b of (h, seq) \<Rightarrow> ([sending, PSent h seq], s2)))))"

definition cmdGetTx :: "'s client \<Rightarrow> string \<Rightarrow> string \<Rightarrow> string \<Rightarrow> 's \<Rightarrow> printed list \<times> 's" where
  "cmdGetTx cl base pk seq s =
     (case cl_get cl s (base @ ''/v1/tx/'' @ pk @ ''/'' @ seq) of
        (Inl e, s') \<Rightarrow> ([PFatal ''tx''], s')
      | (Inr b, s') \<Rightarrow> ([PBody b], s'))"

definition cmdPeers :: "'s client \<Rightarrow> cli_json \<Rightarrow> string \<Rightarrow> 's \<Rightarrow> printed list \<times> 's" where
  "cmdPeers cl CJ base s =
     (case cl_get cl s (base @ ''/v1/peers'') of
        (Inl e, s') \<Rightarrow> ([PFatal ''peers''], s')
      | (Inr b, s') \<Rightarrow>
          (case cj_peers CJ b of
             (count, ps) \<Rightarrow> ([PPeers count (map (\<lambda>(pk, addr). (short_key pk, addr)) ps)], s')))"

definition cmdFaucet :: "'s client \<Rightarrow> cli_json \<Rightarrow> string \<Rightarrow> string \<Rightarrow> u64 \<Rightarrow> 's \<Rightarrow> printed list \<times> 's" where
  "cmdFaucet cl CJ base pk amt s =
     (case cl_post cl s (base @ ''/v1/faucet'') (cj_faucetBody CJ pk amt) of
        (Inl e, s') \<Rightarrow> ([PFatal ''faucet''], s')
      | (Inr b, s') \<Rightarrow>
          (case cj_faucet CJ b of (bal, amount) \<Rightarrow> ([PFaucet (microToCDML amount) (microToCDML bal)], s')))"

text \<open>The switch over the command; \<open>args\<close> is what the flag package left.\<close>

definition runCommand ::
  "'s client \<Rightarrow> cli_json \<Rightarrow> (bytes \<Rightarrow> error + string) \<Rightarrow> disk \<Rightarrow> string \<Rightarrow> string \<Rightarrow> string list \<Rightarrow> 's \<Rightarrow>
     printed list \<times> 's" where
  "runCommand cl CJ J dk dir base args s =
     (let cmd = args ! 0; n = length args in
      if cmd = ''status'' then cmdStatus cl CJ J dk dir s
      else if cmd = ''balance'' then
        (if n < 2 then ([PFatal ''usage''], s) else cmdBalance cl CJ base (args ! 1) s)
      else if cmd = ''send'' then
        (if n < 3 then ([PFatal ''usage''], s)
         else case ParseUint (args ! 2) of
                (_, Some e) \<Rightarrow> ([PFatal ''amount''], s)
              | (amt, None) \<Rightarrow> cmdSend cl CJ base (args ! 1) amt s)
      else if cmd = ''tx'' then
        (if n < 3 then ([PFatal ''usage''], s) else cmdGetTx cl base (args ! 1) (args ! 2) s)
      else if cmd = ''peers'' then cmdPeers cl CJ base s
      else if cmd = ''faucet'' then
        (if n < 2 then ([PFatal ''usage''], s)
         else cmdFaucet cl CJ base (args ! 1)
                (if n \<ge> 3 then fst (ParseUint (args ! 2)) else 10000 * 1000000) s)
      else ([PUnknown cmd, PHelp], s))"

definition cli_main ::
  "'s client \<Rightarrow> cli_json \<Rightarrow> (bytes \<Rightarrow> error + string) \<Rightarrow> (string \<Rightarrow> int option) \<Rightarrow> disk \<Rightarrow> string list \<Rightarrow> 's \<Rightarrow>
     printed list \<times> 's" where
  "cli_main cl CJ J atoi dk argv s =
     (case parseFlags atoi argv defaultFlags of
        None \<Rightarrow> ([PFatal ''flags''], s)
      | Some (fl, args) \<Rightarrow>
          if args = [] then ([PHelp], s)
          else (case loadAPIAddr J dk (fl_Testnet fl) (fl_Node fl) of
                  Ok addr \<Rightarrow> runCommand cl CJ J dk (fl_Testnet fl) (''http://'' @ addr) args s
                | _ \<Rightarrow> ([PFatal ''config''], s)))"

section \<open>Properties\<close>

lemma loadNodes_prefix:
  "map fst (loadNodes load i k) = [i ..< i + length (loadNodes load i k)] \<and> length (loadNodes load i k) \<le> k
   \<and> (\<forall>(j, a) \<in> set (loadNodes load i k). load j = Ok a)
   \<and> (length (loadNodes load i k) < k \<longrightarrow> \<not> is_ok (load (i + length (loadNodes load i k))))"
proof (induction k arbitrary: i)
  case (Suc k)
  show ?case
  proof (cases "load i")
    case (Ok a)
    with Suc.IH[of "Suc i"] show ?thesis by (simp add: upt_conv_Cons del: upt_Suc)
  qed simp_all
qed simp

text \<open>The nodes found are numbered from 1 without a gap, each with the address its configuration has, and
  there are no more than 20; fewer only because the next one could not be loaded.\<close>

theorem loadAllNodes_prefix:
  "let ns = loadAllNodes J dk dir in
     map fst ns = [1 ..< 1 + length ns] \<and> length ns \<le> 20
     \<and> (\<forall>(i, addr) \<in> set ns. loadAPIAddr J dk dir (int i) = Ok addr)
     \<and> (length ns < 20 \<longrightarrow> \<not> is_ok (loadAPIAddr J dk dir (int (1 + length ns))))"
  using loadNodes_prefix[of "\<lambda>i. loadAPIAddr J dk dir (int i)" 1 20]
  by (simp add: loadAllNodes_def Let_def)

text \<open>The amount a printed CDML string stands for, in micro units.\<close>

definition readCDML :: "string \<Rightarrow> nat" where
  "readCDML s =
     (case dropWhile is_digit s of
        [] \<Rightarrow> spelled 0 s * 1000000
      | _ # frac \<Rightarrow> spelled 0 (takeWhile is_digit s) * 1000000 + spelled 0 frac)"

lemma dot_no_digit: "\<not> is_digit (CHR ''.'')"
  by (simp add: is_digit_def)

lemma digits_take: "takeWhile is_digit (digits n @ CHR ''.'' # s) = digits n"
  "dropWhile is_digit (digits n @ CHR ''.'' # s) = CHR ''.'' # s"
  using digits_ok[of n] dot_no_digit by (simp_all add: list_all_iff takeWhile_tail dropWhile_append)

text \<open>Amounts are printed exactly: the CDML string of an amount reads back as the same number of micro
  units, so different amounts print differently, and the fraction, when there is one, has six
  digits.\<close>

theorem microToCDML_exact:
  "readCDML (microToCDML m) = unat m
   \<and> (microToCDML m = digits (unat m div 1000000) \<or>
        (\<exists>a b. microToCDML m = a @ ''.'' @ b \<and> length b = 6 \<and> list_all is_digit (a @ b)))"
proof -
  let ?q = "unat m div 1000000" and ?r = "unat m mod 1000000"
  have q: "list_all is_digit (digits ?q)" "spelled 0 (digits ?q) = ?q" using digits_ok by blast+
  have r: "list_all is_digit (padded 6 ?r)" "spelled 0 (padded 6 ?r) = ?r" "length (padded 6 ?r) = 6"
    using padded_ok[of 6 ?r] length_padded[of ?r 6] by simp_all
  show ?thesis
  proof (cases "?r = 0")
    case True
    have d: "dropWhile is_digit (digits ?q) = []" using q(1) by (simp add: list_all_iff)
    have "readCDML (digits ?q) = ?q * 1000000" by (simp only: readCDML_def d q(2) list.case)
    with True show ?thesis
      using div_mult_mod_eq[of "unat m" 1000000] by (simp add: microToCDML_def)
  next
    case False
    then have m: "microToCDML m = digits ?q @ CHR ''.'' # padded 6 ?r" by (simp add: microToCDML_def)
    then have "readCDML (microToCDML m) = ?q * 1000000 + ?r"
      by (simp add: readCDML_def digits_take q r)
    then have "readCDML (microToCDML m) = unat m" by simp
    moreover have "\<exists>a b. microToCDML m = a @ ''.'' @ b \<and> length b = 6 \<and> list_all is_digit (a @ b)"
      using q r m by (intro exI[of _ "digits ?q"] exI[of _ "padded 6 ?r"]) simp
    ultimately show ?thesis by blast
  qed
qed

text \<open>Options after the command do nothing: the flag package stops at the command, so the line that
  the help text shows, \<^verbatim>\<open>send <pubkey> 1000000 -node 2\<close>, sends from node 1 as if the option were not
  there; only the option in front of the command is read.\<close>

theorem flags_after_command_ignored:
  "cli_main cl CJ J atoi dk [''send'', to, amt, ''-node'', ''2''] s = cli_main cl CJ J atoi dk [''send'', to, amt] s
   \<and> parseFlags atoi [''-node'', ''2'', ''send'', to, amt] defaultFlags
        = map_option (\<lambda>n. (defaultFlags\<lparr>fl_Node := n\<rparr>, [''send'', to, amt])) (atoi ''2'')"
  by (simp add: cli_main_def runCommand_def flagName_def setFlag_def Let_def defaultFlags_def
      split: outcome.split option.split)

text \<open>A mistyped faucet amount is not refused: an amount that is no number is sent as 0, which the
  server takes for its default of ten thousand CDML, and one too large as the largest 64-bit
  number; the error of the parse is dropped.\<close>

theorem faucet_amount_error_dropped:
  assumes "snd (ParseUint amt) = Some e"
  shows "runCommand cl CJ J dk dir base [''faucet'', pk, amt] s = cmdFaucet cl CJ base pk (fst (ParseUint amt)) s
    \<and> fst (ParseUint amt) \<in> {0, maxUint64}"
proof -
  have "fst (parse_loop t n) \<in> {0, maxUint64}" if "snd (parse_loop t n) = Some e" for t n
    using that by (induction t arbitrary: n) (auto simp: Let_def split: if_splits)
  then have "fst (ParseUint amt) \<in> {0, maxUint64}"
    using assms by (auto simp: ParseUint_def split: if_splits)
  then show ?thesis by (simp add: runCommand_def)
qed

theorem faucet_amount_error_dropped_witness:
  "runCommand (cl :: 's client) CJ J dk dir base [''faucet'', pk, ''ten''] s = cmdFaucet cl CJ base pk 0 s"
proof -
  have "ParseUint ''ten'' = (0, Some ErrSyntax)" by (simp add: ParseUint_def is_digit_def)
  with faucet_amount_error_dropped[of "''ten''" ErrSyntax cl CJ J dk dir base pk s] show ?thesis by simp
qed

end
