(* ===== verification/LocalnetInit.thy ===== *)
theory LocalnetInit
  imports Localnet Cli Api
begin

text \<open>
  \<^verbatim>\<open>scripts/localnet/init.go\<close>: wait for every node, give each its balance, register all of them as
  witnesses on every node, and read the balances back. \<open>J\<close> reads the two addresses of a
  configuration file; the bodies sent and the fields read are functions of the run.
\<close>

record node_addrs =
  na_APIAddr :: string
  na_P2PAddr :: string

record init_json =
  ij_pubkey :: "bytes \<Rightarrow> string"
  ij_balance :: "bytes \<Rightarrow> u64"
  ij_faucet :: "string \<Rightarrow> u64 \<Rightarrow> bytes"
  ij_register :: "witness_req list \<Rightarrow> bytes"

text \<open>The script's own \<^verbatim>\<open>get\<close> and \<^verbatim>\<open>post\<close>, which wait for a shorter time than those of the client.\<close>

definition init_get :: "'s transport \<Rightarrow> 's \<Rightarrow> string \<Rightarrow> (error + bytes) \<times> 's" where
  "init_get T s url = fetch T s \<lparr>hq_Timeout = 3, hq_Method = ''GET'', hq_Url = url, hq_Body = []\<rparr>"

definition init_post :: "'s transport \<Rightarrow> 's \<Rightarrow> string \<Rightarrow> bytes \<Rightarrow> (error + bytes) \<times> 's" where
  "init_post T s url data = fetch T s \<lparr>hq_Timeout = 5, hq_Method = ''POST'', hq_Url = url, hq_Body = data\<rparr>"

definition init_client :: "'s transport \<Rightarrow> 's client" where
  "init_client T = \<lparr>cl_get = init_get T, cl_post = init_post T\<rparr>"

definition initialBalance :: u64 where "initialBalance = 10000 * 1000000"

definition loadNodeConfig :: "(bytes \<Rightarrow> error + node_addrs) \<Rightarrow> disk \<Rightarrow> nat \<Rightarrow> node_addrs result" where
  "loadNodeConfig J dk n =
     (case ReadFile dk (configPath n) of
        Inl e \<Rightarrow> Err (Wrapf (''read '' @ configPath n @ '': %w'') [] e)
      | Inr data \<Rightarrow>
          (case J data of
             Inl e \<Rightarrow> Err (Wrapf (''parse '' @ configPath n @ '': %w'') [] e)
           | Inr cfg \<Rightarrow> Ok cfg))"

definition init_loadAllNodes :: "(bytes \<Rightarrow> error + node_addrs) \<Rightarrow> disk \<Rightarrow> node_addrs list" where
  "init_loadAllNodes J dk = map snd (loadNodes (loadNodeConfig J dk) 1 20)"

text \<open>Ten tries for one node; the loop over the nodes gives up at the first that stays silent.\<close>

fun waitFor :: "'s client \<Rightarrow> init_json \<Rightarrow> string \<Rightarrow> nat \<Rightarrow> 's \<Rightarrow> string option \<times> 's" where
  "waitFor cl IJ base 0 s = (None, s)"
| "waitFor cl IJ base (Suc k) s =
     (case cl_get cl s (base @ ''/v1/status'') of
        (Inr b, s') \<Rightarrow> (Some (ij_pubkey IJ b), s')
      | (Inl e, s') \<Rightarrow> waitFor cl IJ base k s')"

definition base_of :: "node_addrs \<Rightarrow> string" where "base_of n = ''http://'' @ na_APIAddr n"

fun waitAll :: "'s client \<Rightarrow> init_json \<Rightarrow> node_addrs list \<Rightarrow> string list \<Rightarrow> 's \<Rightarrow> string list option \<times> 's" where
  "waitAll cl IJ [] pks s = (Some pks, s)"
| "waitAll cl IJ (n # ns) pks s =
     (case waitFor cl IJ (base_of n) 10 s of
        (None, s') \<Rightarrow> (None, s')
      | (Some pk, s') \<Rightarrow> waitAll cl IJ ns (pks @ [pk]) s')"

fun faucetAll :: "'s client \<Rightarrow> init_json \<Rightarrow> (node_addrs \<times> string) list \<Rightarrow> 's \<Rightarrow> 's" where
  "faucetAll cl IJ [] s = s"
| "faucetAll cl IJ ((n, pk) # ns) s =
     faucetAll cl IJ ns (snd (cl_post cl s (base_of n @ ''/v1/faucet'') (ij_faucet IJ pk initialBalance)))"

fun registerAll :: "'s client \<Rightarrow> bytes \<Rightarrow> node_addrs list \<Rightarrow> 's \<Rightarrow> 's" where
  "registerAll cl body [] s = s"
| "registerAll cl body (n # ns) s =
     registerAll cl body ns (snd (cl_post cl s (base_of n @ ''/v1/witness/register'') body))"

fun balanceLines :: "'s client \<Rightarrow> init_json \<Rightarrow> (node_addrs \<times> string) list \<Rightarrow> 's \<Rightarrow> (string \<times> u64) list \<times> 's" where
  "balanceLines cl IJ [] s = ([], s)"
| "balanceLines cl IJ ((n, pk) # ns) s =
     (case cl_get cl s (base_of n @ ''/v1/balance/'' @ pk) of
        (r, s1) \<Rightarrow>
          (case balanceLines cl IJ ns s1 of
             (ls, s2) \<Rightarrow> ((pk, ij_balance IJ (case r of Inl e \<Rightarrow> [] | Inr b \<Rightarrow> b)) # ls, s2)))"

text \<open>\<open>None\<close>: there are no nodes, or one stayed silent.\<close>

definition init_main ::
  "'s client \<Rightarrow> init_json \<Rightarrow> (bytes \<Rightarrow> error + node_addrs) \<Rightarrow> disk \<Rightarrow> 's \<Rightarrow> (string \<times> u64) list option \<times> 's" where
  "init_main cl IJ J dk s =
     (let nodes = init_loadAllNodes J dk in
      if nodes = [] then (None, s)
      else (case waitAll cl IJ nodes [] s of
              (None, s1) \<Rightarrow> (None, s1)
            | (Some pks, s1) \<Rightarrow>
                (let s2 = faucetAll cl IJ (zip nodes pks) s1;
                     ws = map (\<lambda>(n, pk). \<lparr>wr_PubKey = pk, wr_Addr = na_P2PAddr n\<rparr>) (zip nodes pks);
                     s3 = registerAll cl (ij_register IJ ws) nodes s2
                 in case balanceLines cl IJ (zip nodes pks) s3 of (ls, s4) \<Rightarrow> (Some ls, s4))))"

section \<open>The requests of a run\<close>

text \<open>Any client with a record of what is posted through it.\<close>

definition logged :: "'s client \<Rightarrow> ('s \<times> (string \<times> bytes) list) client" where
  "logged cl =
     \<lparr>cl_get = (\<lambda>(s, l) url. case cl_get cl s url of (r, s') \<Rightarrow> (r, s', l)),
      cl_post = (\<lambda>(s, l) url b. case cl_post cl s url b of (r, s') \<Rightarrow> (r, s', l @ [(url, b)]))\<rparr>"

lemma logged_get: "cl_get (logged cl) (s, l) url = (r, s', l') \<Longrightarrow> l' = l"
  by (auto simp: logged_def split: prod.splits)

lemma logged_post: "snd (snd (cl_post (logged cl) (s, l) url b)) = l @ [(url, b)]"
  by (simp add: logged_def split: prod.split)

lemma waitFor_logged: "waitFor (logged cl) IJ base k (s, l) = (r, s', l') \<Longrightarrow> l' = l"
proof (induction k arbitrary: s l)
  case (Suc k)
  obtain g s1 l1 where g: "cl_get (logged cl) (s, l) (base @ ''/v1/status'') = (g, s1, l1)"
    by (metis prod.collapse)
  with Suc logged_get[OF g] show ?case by (cases g) auto
qed simp

lemma waitAll_logged:
  "waitAll (logged cl) IJ ns pks (s, l) = (r, s', l') \<Longrightarrow>
     l' = l \<and> (\<forall>pks'. r = Some pks' \<longrightarrow> length pks' = length pks + length ns)"
proof (induction ns arbitrary: pks s l)
  case (Cons n ns)
  obtain w s1 l1 where w: "waitFor (logged cl) IJ (base_of n) 10 (s, l) = (w, s1, l1)"
    by (metis prod.collapse)
  with Cons waitFor_logged[OF w] show ?case by (cases w) fastforce+
qed auto

lemma faucetAll_logged:
  "snd (faucetAll (logged cl) IJ ns (s, l)) =
     l @ map (\<lambda>(n, pk). (base_of n @ ''/v1/faucet'', ij_faucet IJ pk initialBalance)) ns"
proof (induction ns arbitrary: s l)
  case (Cons p ns)
  obtain n pk where p: "p = (n, pk)" by (cases p)
  obtain s1 l1 where "snd (cl_post (logged cl) (s, l) (base_of n @ ''/v1/faucet'') (ij_faucet IJ pk initialBalance)) = (s1, l1)"
    by (metis prod.collapse)
  with Cons.IH[of s1 l1] logged_post[of cl s l "base_of n @ ''/v1/faucet''" "ij_faucet IJ pk initialBalance"] p
  show ?case by simp
qed simp

lemma registerAll_logged:
  "snd (registerAll (logged cl) body ns (s, l)) =
     l @ map (\<lambda>n. (base_of n @ ''/v1/witness/register'', body)) ns"
proof (induction ns arbitrary: s l)
  case (Cons n ns)
  obtain s1 l1 where "snd (cl_post (logged cl) (s, l) (base_of n @ ''/v1/witness/register'') body) = (s1, l1)"
    by (metis prod.collapse)
  with Cons.IH[of s1 l1] logged_post[of cl s l "base_of n @ ''/v1/witness/register''" body]
  show ?case by simp
qed simp

lemma balanceLines_logged:
  "balanceLines (logged cl) IJ ns (s, l) = (ls, s', l') \<Longrightarrow> l' = l \<and> map fst ls = map snd ns"
proof (induction ns arbitrary: s l ls s' l')
  case (Cons p ns)
  obtain n pk where p: "p = (n, pk)" by (cases p)
  obtain g s1 l1 where g: "cl_get (logged cl) (s, l) (base_of n @ ''/v1/balance/'' @ pk) = (g, s1, l1)"
    by (metis prod.collapse)
  obtain ls1 s2 l2 where b: "balanceLines (logged cl) IJ ns (s1, l1) = (ls1, s2, l2)"
    by (metis prod.collapse)
  from Cons.IH[OF b] Cons.prems g b p logged_get[OF g] show ?case by auto
qed simp

text \<open>What \<^verbatim>\<open>init.go\<close> sends: nothing at all when there is no node or one stays silent; otherwise, in the
  order of the nodes, first one faucet request to every node for that node's own key and ten
  thousand CDML, then to every node the same list of all keys with their P2P addresses.\<close>

theorem init_requests:
  assumes "init_main (logged cl) IJ J dk (s, []) = (r, s', log)" and "nodes = init_loadAllNodes J dk"
  shows "case r of
      None \<Rightarrow> log = []
    | Some ls \<Rightarrow> length ls = length nodes \<and>
        log = map (\<lambda>(n, pk). (base_of n @ ''/v1/faucet'', ij_faucet IJ pk initialBalance)) (zip nodes (map fst ls))
          @ map (\<lambda>n. (base_of n @ ''/v1/witness/register'',
               ij_register IJ (map (\<lambda>(n, pk). \<lparr>wr_PubKey = pk, wr_Addr = na_P2PAddr n\<rparr>) (zip nodes (map fst ls))))) nodes"
proof (cases "nodes = []")
  case True
  with assms show ?thesis by (auto simp: init_main_def)
next
  case False
  obtain w s1 l1 where w: "waitAll (logged cl) IJ nodes [] (s, []) = (w, s1, l1)" by (metis prod.collapse)
  note l1 = waitAll_logged[OF w]
  show ?thesis
  proof (cases w)
    case None
    with assms w False l1 show ?thesis by (auto simp: init_main_def Let_def)
  next
    case (Some pks)
    with l1 have len: "length pks = length nodes" "l1 = []" by auto
    let ?ws = "map (\<lambda>(n, pk). \<lparr>wr_PubKey = pk, wr_Addr = na_P2PAddr n\<rparr>) (zip nodes pks)"
    obtain s2 l2 where f: "faucetAll (logged cl) IJ (zip nodes pks) (s1, l1) = (s2, l2)" by (metis prod.collapse)
    obtain s3 l3 where g: "registerAll (logged cl) (ij_register IJ ?ws) nodes (s2, l2) = (s3, l3)" by (metis prod.collapse)
    obtain ls s4 l4 where b: "balanceLines (logged cl) IJ (zip nodes pks) (s3, l3) = (ls, s4, l4)" by (metis prod.collapse)
    have "r = Some ls" "log = l4"
      using assms w Some False f g b by (auto simp: init_main_def Let_def)
    moreover have "map fst ls = pks" "l4 = l3" using balanceLines_logged[OF b] len by auto
    moreover have "length ls = length nodes" using calculation len by (metis length_map)
    ultimately show ?thesis
      using faucetAll_logged[of cl IJ "zip nodes pks" s1 l1] registerAll_logged[of cl "ij_register IJ ?ws" nodes s2 l2]
        f g len by simp
  qed
qed

text \<open>A client over five nodes that answers everything, after \<^verbatim>\<open>setup.go\<close> wrote their configurations.\<close>

definition sample_client :: "unit client" where
  "sample_client = \<lparr>cl_get = (\<lambda>s url. (Inr [], s)), cl_post = (\<lambda>s url b. (Inr [], s))\<rparr>"

definition sample_init :: init_json where
  "sample_init = \<lparr>ij_pubkey = (\<lambda>_. ''ab''), ij_balance = (\<lambda>_. 0), ij_faucet = (\<lambda>_ _. [1]), ij_register = (\<lambda>_. [2])\<rparr>"

definition one_node_disk :: disk where
  "one_node_disk = \<lparr>dk_files = [configPath 1 \<mapsto> []], dk_readable = (\<lambda>_. True), dk_writable = (\<lambda>_. True)\<rparr>"

theorem init_requests_witness:
  "snd (snd (init_main (logged sample_client) sample_init
     (\<lambda>_. Inr \<lparr>na_APIAddr = ''a:1'', na_P2PAddr = ''a:2''\<rparr>) one_node_disk ((), [])))
   = [(''http://a:1/v1/faucet'', [1]), (''http://a:1/v1/witness/register'', [2])]"
proof -
  let ?n = "\<lparr>na_APIAddr = ''a:1'', na_P2PAddr = ''a:2''\<rparr>"
  have nodes: "init_loadAllNodes (\<lambda>_. Inr ?n) one_node_disk = [?n]"
    by (simp add: init_loadAllNodes_def loadNodeConfig_def one_node_disk_def ReadFile_def eval_nat_numeral)
  obtain r s' log where i: "init_main (logged sample_client) sample_init (\<lambda>_. Inr ?n) one_node_disk ((), []) = (r, s', log)"
    by (metis prod.collapse)
  have "r \<noteq> None"
    using i by (auto simp: init_main_def nodes logged_def sample_client_def eval_nat_numeral Let_def split: prod.splits)
  then obtain ls where r: "r = Some ls" by auto
  with init_requests[OF i refl] have "length ls = Suc 0" by (simp add: nodes)
  then obtain p where "ls = [p]" by (auto simp: length_Suc_conv)
  with init_requests[OF i refl] r
  have "log = [(''http://a:1/v1/faucet'', [1]), (''http://a:1/v1/witness/register'', [2])]"
    by (simp add: nodes base_of_def sample_init_def)
  with i show ?thesis by simp
qed

end
