(* ===== verification/Settlement.thy ===== *)
theory Settlement
  imports Delivery
begin

text \<open>
  A payment across a network: the payer's node and three witness nodes, each connected to it, with the
  requests, the witnesses' answers and the confirmation as steps of one run.
\<close>

section \<open>What a witness accepts with a snapshot\<close>

lemma VerifyTx_accepts_snapshot:
  assumes "reliable E" and "store_ok E A db" and "VerifyTx (en_crypto E) tx = None" and "\<not> IsExpired now sn"
    and "lg_seq (led A db) (tx_From tx) = 0 \<or> tx_Sequence tx = lg_seq (led A db) (tx_From tx) + 1"
    and "\<forall>b. lg_bal (led A db) (tx_From tx) = Some b \<longrightarrow> cost tx \<le> unat b" and "cost tx \<le> unat (sn_Balance sn)"
  shows "TxProcessor_VerifyTx E db now \<lparr>vp_Tx = Some tx, vp_Snapshot = Some sn, vp_KnownTips = K\<rparr> = Ok ()"
proof -
  note r = reliable_balance[OF assms(1,2)]
  let ?need = "case SafeAdd (tx_Amount tx) (BondAmount (tx_Amount tx)) of Ok n \<Rightarrow> n | _ \<Rightarrow> 0"
  have need: "\<not> b < ?need" if "cost tx \<le> unat b" for b
    using that cost_SafeAdd[of tx] by (auto simp: word_less_nat_alt not_less split: outcome.splits)
  obtain eff where "effectiveBal E db now (Some sn) (tx_From tx) = Ok eff" "\<not> eff < ?need"
  proof (cases "lg_bal (led A db) (tx_From tx)")
    case None
    with reads_HasBalance[OF reliable_reads[OF assms(1)] assms(2)] need[OF assms(7)] show ?thesis
      by (intro that[of "sn_Balance sn"]) (simp_all add: effectiveBal_def)
  next
    case (Some b)
    then have "GetBalance (en_badger E) db now (tx_From tx) = Ok b" by (simp add: r balance_def)
    with Some reads_HasBalance[OF reliable_reads[OF assms(1)] assms(2)] need[OF assms(7)] need[of b] assms(6) show ?thesis
      by (intro that[of "min b (sn_Balance sn)"]) (auto simp: effectiveBal_def Let_def min_def)
  qed
  with assms(3-5) show ?thesis
    by (auto simp: TxProcessor_VerifyTx_def verifyTxInternal_def r Let_def)
qed

section \<open>One round with a witness\<close>

text \<open>The connection of the payer's node, 0, with node \<open>k\<close>: the peers \<open>p\<close> and \<open>q\<close> are its ends, nothing is
  under way, and the witness has nothing queued.\<close>

definition linked :: "(end_point \<Rightarrow> end_point option) \<Rightarrow> 'db network \<Rightarrow> pubkey \<Rightarrow> peer_id \<Rightarrow> nat \<Rightarrow> peer_id \<Rightarrow> bool" where
  "linked L s me p k q \<longleftrightarrow> k \<noteq> 0 \<and> L (0, p) = Some (k, q) \<and> L (k, q) = Some (0, p)
     \<and> p \<in> set (ids (nw_node s 0)) \<and> map_of (nd_peers (nw_node s k)) me = Some q
     \<and> nw_wire s (0, p) = [] \<and> nw_wire s (k, q) = [] \<and> chan (nw_node s k) q = []"

text \<open>A witness that can answer a payment of \<open>me\<close>: it has room, has not met the message id, knows the
  active set, and has no record of the payer that speaks against the payment; it may have none at all.\<close>

definition ready ::
  "('db, 'txn) net_env \<Rightarrow> ('db, 'txn) badger_abs \<Rightarrow> gtime \<Rightarrow> pubkey set \<Rightarrow> transaction \<Rightarrow> snapshot \<Rightarrow> 'db node \<Rightarrow> bool" where
  "ready NE A now S tx sn nd \<longleftrightarrow> room 3 nd \<and> fwd 2 nd (tx_Hash tx) \<and> kp_wf (en_crypto (ne_env NE)) (nd_kp nd)
     \<and> kp_Public (nd_kp nd) \<in> S
     \<and> GetActiveSet (en_badger (ne_env NE)) (en_wits (ne_env NE)) (nd_db nd) now = Ok S
     \<and> (\<forall>b. lg_bal (led A (nd_db nd)) (tx_From tx) = Some b \<longrightarrow> cost tx \<le> unat b)
     \<and> lg_seq (led A (nd_db nd)) (tx_From tx) \<in> {0, sn_Sequence sn}"

text \<open>The message codings and frames that the payment uses are faithful.\<close>

definition readable :: "('db, 'txn) net_env \<Rightarrow> packet \<Rightarrow> bool" where
  "readable NE pkt \<longleftrightarrow> sendable (ne_packet NE) pkt"

lemma readable_frame:
  assumes "readable NE pkt"
  obtains d where "Encode (ne_packet NE) pkt = Ok d" and "ReadPacket (ne_packet NE) d = (Ok pkt, [])"
proof -
  obtain d where d: "Encode (ne_packet NE) pkt = Ok d" "length d \<le> 4 + 10 * 1024 * 1024" "roundtrips (ne_packet NE) pkt"
    using sendable_Encode[OF assms[unfolded readable_def]] .
  with read_encoded[OF d(1,3,2), of "[]"] show ?thesis by (intro that) simp_all
qed

definition codes :: "'a codec \<Rightarrow> 'a \<Rightarrow> bool" where
  "codes J m \<longleftrightarrow> (\<exists>b. marshal J m = Inr b \<and> unmarshal J b = Inr m)"

lemma codes_payload: "codes J m \<Longrightarrow> unmarshal J (marshal_or_nil J m) = Inr m"
  by (auto simp: codes_def marshal_or_nil_def)

definition faithful ::
  "('db, 'txn) net_env \<Rightarrow> transaction \<Rightarrow> snapshot \<Rightarrow> witness_signature set \<Rightarrow> bool" where
  "faithful NE tx sn sigs \<longleftrightarrow> readable NE (lockPacket NE tx) \<and> readable NE (verifyPacket NE tx sn)
     \<and> codes (ne_nonceLock NE) \<lparr>nl_From = tx_From tx, nl_Nonce = tx_Nonce tx\<rparr>
     \<and> codes (ne_txVerify NE) \<lparr>tv_Tx = Some tx, tv_Snapshot = Some sn\<rparr>
     \<and> (\<forall>ws \<in> sigs. readable NE (sigPacket NE (tx_Hash tx) ws)
          \<and> codes (ne_witSig NE) \<lparr>wm_TxHash = tx_Hash tx, wm_Sig = ws\<rparr>)"

text \<open>What the payer's node has of the payment once \<open>n\<close> witnesses are to come.\<close>

definition collecting ::
  "('db, 'txn) net_env \<Rightarrow> ('db, 'txn) badger_abs \<Rightarrow> gtime \<Rightarrow> pubkey set \<Rightarrow> 'db node \<Rightarrow> nat \<Rightarrow> 'db node \<Rightarrow> hash32 \<Rightarrow> bool" where
  "collecting NE A now S nd0 n nd h \<longleftrightarrow> room n nd \<and> fwd n nd h \<and> nd_kp nd = nd_kp nd0 \<and> nd_peers nd = nd_peers nd0
     \<and> led A (nd_db nd) = led A (nd_db nd0)
     \<and> GetActiveSet (en_badger (ne_env NE)) (en_wits (ne_env NE)) (nd_db nd) now = Ok S"

lemma collecting_pop:
  assumes "collecting NE A now S nd0 n nd h"
  shows "collecting NE A now S nd0 n (pop i nd) h"
proof -
  have "room n (pop i nd)"
    unfolding room_def
  proof (rule conjI[rotated], rule ballI)
    fix j assume j: "j \<in> set (ids (pop i nd))"
    have r: "\<forall>j \<in> set (ids nd). length (chan nd j) + n \<le> sendChCap"
      using assms unfolding collecting_def room_def by blast
    from j have "length (chan nd j) + n \<le> sendChCap" by (intro r[rule_format]) simp
    then show "length (chan (pop i nd) j) + n \<le> sendChCap" by (cases "j = i") simp_all
  next
    have "length (nd_peers nd) \<le> Fanout" using assms unfolding collecting_def room_def by blast
    then show "length (nd_peers (pop i nd)) \<le> Fanout" by simp
  qed
  with assms show ?thesis by (simp add: collecting_def fwd_def)
qed

text \<open>The steps that move a packet from one node to another.\<close>

fun transport :: "net_event \<Rightarrow> bool" where
  "transport (Written n i d) = True"
| "transport (Got m j cx pkt) = True"
| "transport _ = False"

lemma witness_round:
  fixes cx :: step_ctx
  assumes "net_inv NE A s" and "reliable (ne_env NE)" and "linked L s (tx_From tx) p k q"
    and "ready NE A (cx_now cx) S tx sn (nw_node s k)"
    and "VerifyTx (en_crypto (ne_env NE)) tx = None" and "\<not> IsExpired (cx_now cx) sn"
    and "tx_Sequence tx = sn_Sequence sn + 1" and "cost tx \<le> unat (sn_Balance sn)"
    and "SignAsWitness (en_crypto (ne_env NE)) (nd_kp (nw_node s k)) (tx_Hash tx) 0 True = Ok ws"
    and "faithful NE tx sn sigs" and "ws \<in> sigs"
    and "collecting NE A (cx_now cx) S nd0 (Suc n) (nw_node s 0) (tx_Hash tx)"
    and "Encode (ne_packet NE) (lockPacket NE tx) = Ok dl" and "Encode (ne_packet NE) (verifyPacket NE tx sn) = Ok dv"
    and "chan (nw_node s 0) p = dl # dv # rest"
    and "nd_pending (nw_node s 0) (tx_Hash tx) = Some \<lparr>pm_tx = tx, pm_sigs = ss, pm_confirmed = False\<rparr>"
  obtains es s' nd where "runs (net_step NE L) s es s'" and "list_all transport es"
    and "nw_node s' 0 = (if length ss = 2
      then nd\<lparr>nd_pending := (nd_pending nd)(tx_Hash tx := None), nd_spawned := nd_spawned nd @ [(tx, ss @ [ws])]\<rparr>
      else nd\<lparr>nd_pending := (nd_pending nd)(tx_Hash tx \<mapsto> \<lparr>pm_tx = tx, pm_sigs = ss @ [ws], pm_confirmed = False\<rparr>)\<rparr>)"
    and "collecting NE A (cx_now cx) S nd0 n nd (tx_Hash tx)"
    and "\<forall>i \<in> set (ids nd0) - {p}. chan nd i = chan (nw_node s 0) i @ [dl]"
    and "\<forall>m. m \<noteq> 0 \<longrightarrow> m \<noteq> k \<longrightarrow> nw_node s' m = nw_node s m"
    and "nw_wire s' = nw_wire s"
proof -
  let ?h = "tx_Hash tx" and ?E = "ne_env NE" and ?now = "cx_now cx"
  let ?lp = "lockPacket NE tx" and ?vp = "verifyPacket NE tx sn" and ?sp = "sigPacket NE (tx_Hash tx) ws"
  have ok: "node_ok ?E A (nw_node t m)" "no_edges (nw_node t m)" "node_inv NE A (nw_node t m)"
    if "net_inv NE A t" for t m
    using net_inv_node[OF that, of m] by (simp_all add: node_inv_def)
  have ids0: "p \<in> set (ids (nw_node s 0))" and k: "k \<noteq> 0" and L: "L (0, p) = Some (k, q)" "L (k, q) = Some (0, p)"
    and mq: "map_of (nd_peers (nw_node s k)) (tx_From tx) = Some q"
    and wires: "nw_wire s (0, p) = []" "nw_wire s (k, q) = []" and cq: "chan (nw_node s k) q = []"
    using assms(3) by (simp_all add: linked_def)
  have q: "q \<in> set (ids (nw_node s k))" using mq by (force dest: map_of_SomeD)
  have peer: "nd_heap (nw_node t m) i \<noteq> None" if "net_inv NE A t" "i \<in> set (ids (nw_node t m))" for t m i
    using peer_of_id[OF ok(1)[OF that(1)] that(2)] by auto
  have rl: "ReadPacket (ne_packet NE) dl = (Ok ?lp, [])" and rv: "ReadPacket (ne_packet NE) dv = (Ok ?vp, [])"
    using readable_frame assms(10,13,14) unfolding faithful_def by (metis outcome.inject(1))+
  obtain ds where ds: "Encode (ne_packet NE) ?sp = Ok ds" "ReadPacket (ne_packet NE) ds = (Ok ?sp, [])"
    using readable_frame assms(10,11) unfolding faithful_def by metis
  have msgs: "unmarshal (ne_nonceLock NE) (pk_Payload ?lp) = Inr \<lparr>nl_From = tx_From tx, nl_Nonce = tx_Nonce tx\<rparr>"
    "unmarshal (ne_txVerify NE) (pk_Payload ?vp) = Inr \<lparr>tv_Tx = Some tx, tv_Snapshot = Some sn\<rparr>"
    "unmarshal (ne_witSig NE) (pk_Payload ?sp) = Inr \<lparr>wm_TxHash = ?h, wm_Sig = ws\<rparr>"
    using assms(10,11) unfolding faithful_def
    by (simp_all add: lockPacket_def verifyPacket_def sigPacket_def codes_payload)
  have types: "pk_Type ?lp = PacketNonceLock" "pk_Type ?vp = PacketTxVerify" "pk_Type ?sp = PacketTxWitnessSig"
    "pk_MsgID ?lp = ?h" "pk_MsgID ?vp = ?h"
    by (simp_all add: lockPacket_def verifyPacket_def sigPacket_def)
  note r = assms(4)[unfolded ready_def]
  txt \<open>the lock request\<close>
  obtain w1 where w1: "handlePacket NE cx (nw_node s k) q ?lp = (Ok (), w1)" "room 2 w1" "fwd 1 w1 ?h"
    "same_payments (nw_node s k) w1"
    "\<And>j. chan w1 j = (if j \<in> set (ids (nw_node s k)) then chan (nw_node s k) j @ [dl] else chan (nw_node s k) j)"
    "led A (nd_db w1) = led A (nd_db (nw_node s k))"
    "IsLocked (en_badger ?E) (nd_db w1) ?now (tx_From tx) (tx_Nonce tx)"
    "\<And>J t. GetActiveSet (en_badger ?E) J (nd_db w1) t = GetActiveSet (en_badger ?E) J (nd_db (nw_node s k)) t"
    using lock_step[OF ok(1)[OF assms(1)] assms(2) _ _ types(1) msgs(1) assms(13), of 2 k 1 cx q] r
    by (simp add: types(4) numeral_2_eq_2 numeral_3_eq_3) metis
  let ?s1 = "s\<lparr>nw_node := (nw_node s)(0 := pop p (nw_node s 0), k := w1)\<rparr>"
  have d1: "runs (net_step NE L) s [Written 0 p dl, Got k q cx ?lp] ?s1"
    using deliver[of NE A s 0 p dl "dv # rest" L k q ?lp cx w1, OF ok(3)[OF assms(1)] ids0 assms(15) L(1) _ _ wires(2) rl peer[OF assms(1) q] w1(1)] L k by simp
  have inv1: "net_inv NE A ?s1" by (rule networks.inv_from[OF d1 assms(1)])
  txt \<open>the verification request\<close>
  have w1k: "node_ok ?E A w1" "no_edges w1" using ok(1,2)[OF inv1, of k] by simp_all
  then have st1: "store_ok ?E A (nd_db w1)" by (simp add: node_ok_def core_ok_def)
  have same1: "nd_kp w1 = nd_kp (nw_node s k)" "nd_peers w1 = nd_peers (nw_node s k)"
    using w1(4) by (simp_all add: same_payments_def)
  have v: "TxProcessor_VerifyTx ?E (nd_db w1) ?now \<lparr>vp_Tx = Some tx, vp_Snapshot = Some sn, vp_KnownTips = {}\<rparr> = Ok ()"
  proof (rule VerifyTx_accepts_snapshot[OF assms(2) st1 assms(5,6) _ _ assms(8)])
    show "lg_seq (led A (nd_db w1)) (tx_From tx) = 0 \<or> tx_Sequence tx = lg_seq (led A (nd_db w1)) (tx_From tx) + 1"
      using r unfolding w1(6) assms(7) by (elim conjE insertE) simp_all
  qed (use r in \<open>simp add: w1(6)\<close>)
  obtain w2 where w2: "handlePacket NE cx w1 q ?vp = (Ok (), w2)" "node_ok ?E A w2" "chan w2 q = chan w1 q @ [ds, dv]"
    "same_payments w1 w2"
    using verify_step[OF w1k(1) w1(2) _ types(2) msgs(2) _ _ v _ w1k(2) w1(7) _ ds(1) assms(14), of S q q thesis]
      w1(3) w1(8) r mq assms(9) same1 types(5) by auto
  have cw2: "chan w2 q = [dl, ds, dv]" using w2(3) w1(5)[of q] q cq by simp
  have n1: "pop p (nw_node s 0) = nw_node ?s1 0" using k by simp
  have c1: "chan (nw_node ?s1 0) p = dv # rest" using k assms(15) by simp
  have ids1: "p \<in> set (ids (nw_node ?s1 0))" "q \<in> set (ids (nw_node ?s1 k))" using ids0 q k same1 by simp_all
  let ?s2 = "?s1\<lparr>nw_node := (nw_node ?s1)(0 := pop p (nw_node ?s1 0), k := w2)\<rparr>"
  have d2: "runs (net_step NE L) ?s1 [Written 0 p dv, Got k q cx ?vp] ?s2"
    using deliver[of NE A ?s1 0 p dv rest L k q ?vp cx w2, OF ok(3)[OF inv1] ids1(1) c1 L(1) _ _ _ rv peer[OF inv1 ids1(2)], OF _] L k wires w2(1) by simp
  have inv2: "net_inv NE A ?s2" by (rule networks.inv_from[OF d2 inv1])
  txt \<open>the echo of the lock request\<close>
  let ?n2 = "nw_node ?s2 0"
  have n2: "?n2 = pop p (pop p (nw_node s 0))" "nw_node ?s2 k = w2" using k by simp_all
  have col2: "collecting NE A ?now S nd0 (Suc n) ?n2 ?h"
    unfolding n2 by (intro collecting_pop assms(12))
  obtain nd where nd: "handlePacket NE cx ?n2 p ?lp = (Ok (), nd)" "room n nd" "fwd n nd ?h" "same_payments ?n2 nd"
    "\<And>j. chan nd j = (if j \<in> set (ids ?n2) then chan ?n2 j @ [dl] else chan ?n2 j)"
    "led A (nd_db nd) = led A (nd_db ?n2)"
    "\<And>J t. GetActiveSet (en_badger ?E) J (nd_db nd) t = GetActiveSet (en_badger ?E) J (nd_db ?n2) t"
    using lock_step[OF ok(1)[OF inv2] assms(2) _ _ types(1) msgs(1) assms(13), of n 0 n cx p] col2
    by (simp add: types(4) collecting_def) metis
  have ids2: "q \<in> set (ids (nw_node ?s2 k))" "p \<in> set (ids ?n2)" using ids0 q k same1 w2(4)
    by (simp_all add: same_payments_def)
  have cs2: "chan (nw_node ?s2 k) q = dl # [ds, dv]" using cw2 by (simp add: n2)
  let ?s3 = "?s2\<lparr>nw_node := (nw_node ?s2)(k := pop q (nw_node ?s2 k), 0 := nd)\<rparr>"
  have d3: "runs (net_step NE L) ?s2 [Written k q dl, Got 0 p cx ?lp] ?s3"
    using deliver[of NE A ?s2 k q dl "[ds, dv]" L 0 p ?lp cx nd, OF ok(3)[OF inv2] ids2(1) cs2 L(2) _ k _ rl peer[OF inv2 ids2(2)] nd(1)] L wires by simp
  have inv3: "net_inv NE A ?s3" by (rule networks.inv_from[OF d3 inv2])
  txt \<open>the signature\<close>
  have n3: "nw_node ?s3 0 = nd" "nw_node ?s3 k = pop q w2" using k by simp_all
  have cs3: "chan (nw_node ?s3 k) q = ds # [dv]" using cw2 unfolding n3 by simp
  have ids3: "q \<in> set (ids (nw_node ?s3 k))" "p \<in> set (ids (nw_node ?s3 0))"
    using ids2 nd(4) unfolding n3 n2(2) by (simp_all add: same_payments_def)
  have pend: "nd_pending nd ?h = Some \<lparr>pm_tx = tx, pm_sigs = ss, pm_confirmed = False\<rparr>"
    using nd(4) assms(16) n2(1) by (simp add: same_payments_def)
  define nd' where "nd' = (if length ss = 2
      then nd\<lparr>nd_pending := (nd_pending nd)(?h := None), nd_spawned := nd_spawned nd @ [(tx, ss @ [ws])]\<rparr>
      else nd\<lparr>nd_pending := (nd_pending nd)(?h \<mapsto> \<lparr>pm_tx = tx, pm_sigs = ss @ [ws], pm_confirmed = False\<rparr>)\<rparr>)"
  have h4: "handlePacket NE cx (nw_node ?s3 0) p ?sp = (Ok (), nd')"
    unfolding n3 nd'_def by (rule sig_step[OF types(3) msgs(3) pend])
  let ?s4 = "?s3\<lparr>nw_node := (nw_node ?s3)(k := pop q (nw_node ?s3 k), 0 := nd')\<rparr>"
  have d4: "runs (net_step NE L) ?s3 [Written k q ds, Got 0 p cx ?sp] ?s4"
    using deliver[of NE A ?s3 k q ds "[dv]" L 0 p ?sp cx nd', OF ok(3)[OF inv3] ids3(1) cs3 L(2) _ k _ ds(2) peer[OF inv3 ids3(2)] h4] L wires by simp
  let ?es = "[Written 0 p dl, Got k q cx ?lp] @ [Written 0 p dv, Got k q cx ?vp] @ [Written k q dl, Got 0 p cx ?lp]
    @ [Written k q ds, Got 0 p cx ?sp]"
  have run: "runs (net_step NE L) s ?es ?s4"
    unfolding runs_append by (intro exI conjI) (rule d1, rule d2, rule d3, rule d4)
  have col: "collecting NE A ?now S nd0 n nd ?h"
    using col2 nd(2-4,6,7) unfolding collecting_def same_payments_def by simp
  have ch: "\<forall>i \<in> set (ids nd0) - {p}. chan nd i = chan (nw_node s 0) i @ [dl]"
    using nd(5) n2(1) assms(12) by (simp add: collecting_def)
  show ?thesis
    by (rule that[OF run _ _ col ch]) (use k in \<open>simp_all add: nd'_def\<close>)
qed

text \<open>One witness after the other answers, until the third signature starts the confirmation.\<close>

lemma all_rounds:
  fixes cx :: step_ctx
  assumes "reliable (ne_env NE)"
    and "VerifyTx (en_crypto (ne_env NE)) tx = None" and "\<not> IsExpired (cx_now cx) sn"
    and "tx_Sequence tx = sn_Sequence sn + 1" and "cost tx \<le> unat (sn_Balance sn)"
    and "faithful NE tx sn (ws ` K)"
    and "Encode (ne_packet NE) (lockPacket NE tx) = Ok dl" and "Encode (ne_packet NE) (verifyPacket NE tx sn) = Ok dv"
    and "net_inv NE A s" and "set ks \<subseteq> K" and "ks \<noteq> []" and "distinct ks" and "distinct (map p ks)"
    and "\<forall>k \<in> set ks. linked L s (tx_From tx) (p k) k (q k) \<and> ready NE A (cx_now cx) S tx sn (nw_node s k)
      \<and> SignAsWitness (en_crypto (ne_env NE)) (nd_kp (nw_node s k)) (tx_Hash tx) 0 True = Ok (ws k)
      \<and> (\<exists>rest. chan (nw_node s 0) (p k) = dl # dv # rest)"
    and "collecting NE A (cx_now cx) S nd0 (length ks) (nw_node s 0) (tx_Hash tx)"
    and "nd_pending (nw_node s 0) (tx_Hash tx) = Some \<lparr>pm_tx = tx, pm_sigs = ss, pm_confirmed = False\<rparr>"
    and "length ss + length ks = 3"
  shows "\<exists>es s' nd. runs (net_step NE L) s es s' \<and> list_all transport es
    \<and> nw_node s' 0 = nd\<lparr>nd_pending := (nd_pending nd)(tx_Hash tx := None),
         nd_spawned := nd_spawned nd @ [(tx, ss @ map ws ks)]\<rparr>
    \<and> collecting NE A (cx_now cx) S nd0 0 nd (tx_Hash tx)"
  using assms(9-)
proof (induction ks arbitrary: s ss)
  case (Cons k ks)
  let ?h = "tx_Hash tx"
  have k: "linked L s (tx_From tx) (p k) k (q k)" "ready NE A (cx_now cx) S tx sn (nw_node s k)"
    "SignAsWitness (en_crypto (ne_env NE)) (nd_kp (nw_node s k)) ?h 0 True = Ok (ws k)" "ws k \<in> ws ` K"
    using Cons.prems(2,6) by auto
  obtain rest where rest: "chan (nw_node s 0) (p k) = dl # dv # rest" using Cons.prems(6) by auto
  have col: "collecting NE A (cx_now cx) S nd0 (Suc (length ks)) (nw_node s 0) ?h" using Cons.prems(7) by simp
  from witness_round[OF Cons.prems(1) assms(1) k(1,2) assms(2-5) k(3) assms(6) k(4) col assms(7,8) rest Cons.prems(8)]
  obtain es1 s1 nd where r1: "runs (net_step NE L) s es1 s1" "list_all transport es1"
    and n0: "nw_node s1 0 = (if length ss = 2
      then nd\<lparr>nd_pending := (nd_pending nd)(?h := None), nd_spawned := nd_spawned nd @ [(tx, ss @ [ws k])]\<rparr>
      else nd\<lparr>nd_pending := (nd_pending nd)(?h \<mapsto> \<lparr>pm_tx = tx, pm_sigs = ss @ [ws k], pm_confirmed = False\<rparr>)\<rparr>)"
    and col1: "collecting NE A (cx_now cx) S nd0 (length ks) nd ?h"
    and ch: "\<forall>i \<in> set (ids nd0) - {p k}. chan nd i = chan (nw_node s 0) i @ [dl]"
    and oth: "\<forall>m. m \<noteq> 0 \<longrightarrow> m \<noteq> k \<longrightarrow> nw_node s1 m = nw_node s m" and w: "nw_wire s1 = nw_wire s"
    .
  show ?case
  proof (cases ks)
    case Nil
    with n0 col1 Cons.prems(9) r1 show ?thesis
      by (intro exI[of _ es1] exI[of _ s1] exI[of _ nd]) (simp add: fun_upd_def)
  next
    case (Cons k' ks')
    then have n1: "nw_node s1 0 = nd\<lparr>nd_pending := (nd_pending nd)(?h \<mapsto> \<lparr>pm_tx = tx, pm_sigs = ss @ [ws k], pm_confirmed = False\<rparr>)\<rparr>"
      using n0 Cons.prems(9) by auto
    have inv1: "net_inv NE A s1" by (rule networks.inv_from[OF r1(1) Cons.prems(1)])
    have col': "collecting NE A (cx_now cx) S nd0 (length ks) (nw_node s1 0) ?h"
      using col1 unfolding n1 collecting_def by (simp add: fwd_def)
    have peers: "nd_peers nd = nd_peers nd0" "nd_peers (nw_node s 0) = nd_peers nd0"
      using col1 col by (simp_all add: collecting_def)
    have rest1: "linked L s1 (tx_From tx) (p m) m (q m) \<and> ready NE A (cx_now cx) S tx sn (nw_node s1 m)
      \<and> SignAsWitness (en_crypto (ne_env NE)) (nd_kp (nw_node s1 m)) ?h 0 True = Ok (ws m)
      \<and> (\<exists>rest. chan (nw_node s1 0) (p m) = dl # dv # rest)" if "m \<in> set ks" for m
    proof -
      have "p k \<notin> p ` set ks" using Cons.prems(5) by simp
      then have pm: "p m \<noteq> p k" using that by (metis imageI)
      have m: "linked L s (tx_From tx) (p m) m (q m)" "m \<noteq> k"
        using that Cons.prems(4,6) by auto
      then have "m \<noteq> 0" "p m \<in> set (ids nd0)" using peers by (simp_all add: linked_def)
      with m pm oth[rule_format, of m] bspec[OF ch, of "p m"] that Cons.prems(6) show ?thesis
        unfolding n1 linked_def by (auto simp: w peers)
    qed
    have "\<exists>es s' nd. runs (net_step NE L) s1 es s' \<and> list_all transport es
      \<and> nw_node s' 0 = nd\<lparr>nd_pending := (nd_pending nd)(?h := None),
           nd_spawned := nd_spawned nd @ [(tx, (ss @ [ws k]) @ map ws ks)]\<rparr>
      \<and> collecting NE A (cx_now cx) S nd0 0 nd ?h"
      using Cons.prems(2,4,5,9) Cons n1 rest1
      by (intro Cons.IH[OF inv1 _ _ _ _ _ col']) auto
    then obtain es2 s2 nd2 where "runs (net_step NE L) s1 es2 s2" "list_all transport es2"
      "nw_node s2 0 = nd2\<lparr>nd_pending := (nd_pending nd2)(?h := None),
           nd_spawned := nd_spawned nd2 @ [(tx, (ss @ [ws k]) @ map ws ks)]\<rparr>"
      "collecting NE A (cx_now cx) S nd0 0 nd2 ?h" by blast
    with r1 show ?thesis
      by (intro exI[of _ "es1 @ es2"] exI[of _ s2] exI[of _ nd2]) (auto simp: runs_append fun_upd_def)
  qed
qed simp

section \<open>A payment settles\<close>

lemma payment_runs:
  fixes cx :: step_ctx
  assumes "net_inv NE A s" and "reliable (ne_env NE)" and "ed25519_ok (en_crypto (ne_env NE))"
    and "kp_wf (en_crypto (ne_env NE)) (nd_kp (nw_node s 0))" and "nonce_draw rnd"
    and "SendTx NE cx rnd (nw_node s 0) to amt = (Ok tx, nd)" and "to \<noteq> node_key (nw_node s 0)"
    and "sn = payerSnapshot A (nw_node s 0) (cx_now cx)"
    and "\<forall>k \<in> {1, 2, 3}. linked L s (node_key (nw_node s 0)) (p k) k (q k) \<and> chan (nw_node s 0) (p k) = []
      \<and> ready NE A (cx_now cx) S tx sn (nw_node s k)
      \<and> SignAsWitness (en_crypto (ne_env NE)) (nd_kp (nw_node s k)) (tx_Hash tx) 0 True = Ok (ws k)"
    and "inj_on p {1, 2, 3}" and "inj_on (\<lambda>k. node_key (nw_node s k)) {1, 2, 3}"
    and "room 5 (nw_node s 0)" and "fwd 3 (nw_node s 0) (tx_Hash tx)"
    and "GetActiveSet (en_badger (ne_env NE)) (en_wits (ne_env NE)) (nd_db (nw_node s 0)) (cx_now cx) = Ok S"
    and "faithful NE tx sn (ws ` {1, 2, 3})"
    and "unat (balance (led A (nd_db (nw_node s 0))) to) + unat amt \<le> unat MaxAmount"
  shows "\<exists>es s'. runs (net_step NE L) s (Local 0 (Pay cx rnd to amt) # es @ [Local 0 (Confirm cx tx [ws 1, ws 2, ws 3])]) s'
    \<and> list_all transport es
    \<and> unat (balance (led A (nd_db (nw_node s' 0))) (node_key (nw_node s 0))) + cost tx
        = unat (balance (led A (nd_db (nw_node s 0))) (node_key (nw_node s 0)))
    \<and> unat (balance (led A (nd_db (nw_node s' 0))) to) = unat (balance (led A (nd_db (nw_node s 0))) to) + unat amt"
proof -
  let ?E = "ne_env NE" and ?nd0 = "nw_node s 0" and ?now = "cx_now cx" and ?sigs = "[ws 1, ws 2, ws 3]"
  note inv0 = net_inv_node[OF assms(1), of 0, unfolded node_inv_def]
  then have ok0: "node_ok ?E A ?nd0" and empty0: "no_edges ?nd0" by simp_all
  have start: "nd_pending nd (tx_Hash tx) = Some \<lparr>pm_tx = tx, pm_sigs = [], pm_confirmed = False\<rparr>"
    "led A (nd_db nd) = led A (nd_db ?nd0)" "VerifyTx (en_crypto ?E) tx = None" "tx_From tx = node_key ?nd0" "tx_To tx = to"
    "tx_Amount tx = amt" "tx_Sequence tx = sn_Sequence sn + 1" "cost tx \<le> unat (sn_Balance sn)"
    "cost tx \<le> unat MaxAmount" "tx_ParentHashes tx = []"
    using SendTx_effect[OF ok0 assms(3,4,6)] empty0
    by (simp_all add: no_edges_def CurrentTips_empty assms(8) payerSnapshot_def)
  have live: "\<not> IsExpired ?now sn" by (simp add: assms(8) payerSnapshot_def IsExpired_def snapshotTTL_def)
  obtain dl dv where d: "Encode (ne_packet NE) (lockPacket NE tx) = Ok dl" "Encode (ne_packet NE) (verifyPacket NE tx sn) = Ok dv"
    using assms(15) readable_frame unfolding faithful_def by metis
  have "room (Suc (Suc 3)) ?nd0" using assms(12) by (simp add: eval_nat_numeral)
  note sent = send_step[OF ok0 assms(2) this assms(6) d(1) d(2)[unfolded assms(8)]]
  let ?s1 = "put_node 0 nd s"
  have pay: "net_step NE L s (Local 0 (Pay cx rnd to amt)) ?s1"
    by (rule net_step.own[OF _ node_step.pay[OF assms(5,6)]]) simp
  have inv1: "net_inv NE A ?s1" by (rule net_inv_step[OF assms(1) pay])
  have col: "collecting NE A ?now S nd (length [1, 2, 3 :: nat]) (nw_node ?s1 0) (tx_Hash tx)"
    using sent(2,3,9) assms(13,14) by (simp add: collecting_def fwd_def numeral_3_eq_3)
  have "linked L ?s1 (tx_From tx) (p k) k (q k) \<and> ready NE A ?now S tx sn (nw_node ?s1 k)
      \<and> SignAsWitness (en_crypto ?E) (nd_kp (nw_node ?s1 k)) (tx_Hash tx) 0 True = Ok (ws k)
      \<and> (\<exists>rest. chan (nw_node ?s1 0) (p k) = dl # dv # rest)" if "k \<in> {1, 2, 3}" for k
  proof -
    have k: "linked L s (node_key ?nd0) (p k) k (q k)" "chan ?nd0 (p k) = []" "ready NE A ?now S tx sn (nw_node s k)"
      "SignAsWitness (en_crypto ?E) (nd_kp (nw_node s k)) (tx_Hash tx) 0 True = Ok (ws k)"
      using bspec[OF assms(9) that] by blast+
    then have "k \<noteq> 0" "p k \<in> set (ids ?nd0)" by (simp_all add: linked_def)
    with k sent(4) sent(8)[of "p k"] start(4) show ?thesis by (simp add: linked_def)
  qed
  then obtain es2 s2 nd2 where run2: "runs (net_step NE L) ?s1 es2 s2" "list_all transport es2"
    and n2: "nw_node s2 0 = nd2\<lparr>nd_pending := (nd_pending nd2)(tx_Hash tx := None),
        nd_spawned := nd_spawned nd2 @ [(tx, [] @ map ws [1, 2, 3])]\<rparr>"
    and col2: "collecting NE A ?now S nd 0 nd2 (tx_Hash tx)"
    using all_rounds[OF assms(2) start(3) live start(7,8) assms(15) d inv1, of "[1, 2, 3]" p L q S nd "[]"] col start(1)
      assms(10) by (auto simp: inj_on_def)
  have inv2: "net_inv NE A s2" by (rule networks.inv_from[OF run2(1) inv1])
  let ?nd2 = "nw_node s2 0"
  let ?nd3 = "?nd2\<lparr>nd_spawned := nd_spawned nd2\<rparr>"
  have ok3: "node_ok ?E A ?nd3" using net_inv_node[OF inv2, of 0] by (simp add: node_inv_def)
  then have st: "store_ok ?E A (nd_db ?nd3)" by (simp add: node_ok_def core_ok_def)
  have led2: "led A (nd_db ?nd3) = led A (nd_db ?nd0)"
    "GetActiveSet (en_badger ?E) (en_wits ?E) (nd_db ?nd3) ?now = Ok S"
    using col2 start(2) by (simp_all add: n2 collecting_def)
  have good: "3 \<le> card (good_witnesses (en_crypto ?E) ?sigs (tx_Hash tx) S)"
    using assms(9,11)
    by (intro three_good[OF assms(3), of "nd_kp (nw_node s 1)" "nd_kp (nw_node s 2)" "nd_kp (nw_node s 3)" _ 0 _ 0 _ 0])
      (auto simp: ready_def inj_on_def)
  have c: "cr_out (ConfirmTx ?E (nd_tp ?nd3) ?now (tx\<lparr>tx_WitnessSigs := ?sigs\<rparr>)) = Ok ()"
    using assms(2) st led2 start assms(16) reliable_balance[OF assms(2) st]
    by (intro ConfirmTx_succeeds[of ?E A]) (simp_all add: cost_def reliable_def assms(8) payerSnapshot_def)
  obtain r nd4 where r: "confirmTx NE cx ?nd3 tx ?sigs = (r, nd4)" by fastforce
  have ft: "tx_From tx \<noteq> tx_To tx" using assms(7) start(4,5) by simp
  from confirmTx_transfer[OF ok3 led2(2) good c ft _ r] reliable_balance[OF assms(2) st]
  have moved: "r = Ok ()" "unat (balance (led A (nd_db nd4)) (node_key ?nd0)) + cost tx = unat (balance (led A (nd_db ?nd0)) (node_key ?nd0))"
    "unat (balance (led A (nd_db nd4)) to) = unat (balance (led A (nd_db ?nd0)) to) + unat amt"
    using start(4-6) led2(1) by simp_all
  have "node_step NE ?nd2 (Confirm cx tx ?sigs) nd4"
    using r moved(1) by (intro node_step.confirm[of _ "nd_spawned nd2" tx ?sigs "[]"]) (simp_all add: n2)
  then have fin: "net_step NE L s2 (Local 0 (Confirm cx tx ?sigs)) (put_node 0 nd4 s2)"
    by (intro net_step.own) simp_all
  have "runs (net_step NE L) s (Local 0 (Pay cx rnd to amt) # es2 @ [Local 0 (Confirm cx tx ?sigs)]) (put_node 0 nd4 s2)"
    unfolding runs_Cons by (intro exI conjI, rule pay, rule runs_snoc[OF run2(1) fin])
  with run2(2) moved show ?thesis by (intro exI[of _ es2] exI[of _ "put_node 0 nd4 s2"]) simp
qed


end
