(* ===== verification/NetSamples.thy ===== *)
theory NetSamples
  imports Settlement
begin

text \<open>
  A network of four nodes over the in-memory database: a payer and three witnesses, each connected to
  it, and the properties of \<open>Network\<close> and \<open>Settlement\<close> applied to its runs.
\<close>

section \<open>Joining\<close>

definition joined :: "pubkey \<Rightarrow> 'db node \<Rightarrow> 'db node" where
  "joined pk nd = nd\<lparr>nd_heap := (nd_heap nd)(nd_next nd \<mapsto> NewPeer pk []), nd_next := nd_next nd + 1,
     nd_peers := nd_peers nd @ [(pk, nd_next nd)]\<rparr>"

lemma join_step:
  assumes "pk \<notin> fst ` set (nd_peers nd)" and "length (nd_peers nd) < MaxPeers"
  shows "node_step NE nd (Join pk []) (joined pk nd)"
proof -
  let ?nd1 = "nd\<lparr>nd_heap := (nd_heap nd)(nd_next nd \<mapsto> NewPeer pk []), nd_next := nd_next nd + 1\<rparr>"
  have al: "allocPeer nd pk [] = (nd_next nd, ?nd1)" by (simp add: allocPeer_def)
  have "addPeer ?nd1 (nd_next nd) = (Ok (), joined pk nd)"
    using assms AList_update_new[OF assms(1)] by (simp add: addPeer_def NewPeer_def joined_def)
  with al show ?thesis by (rule node_step.join)
qed

lemma joined_sel [simp]:
  "nd_kp (joined pk nd) = nd_kp nd" "nd_tp (joined pk nd) = nd_tp nd" "nd_gossip (joined pk nd) = nd_gossip nd"
  "nd_peers (joined pk nd) = nd_peers nd @ [(pk, nd_next nd)]" "nd_next (joined pk nd) = nd_next nd + 1"
  "nd_pending (joined pk nd) = nd_pending nd" "nd_spawned (joined pk nd) = nd_spawned nd"
  "chan (joined pk nd) i = (if i = nd_next nd then [] else chan nd i)"
  by (simp_all add: joined_def chan_def NewPeer_def)

lemma chan_New [simp]: "chan (NewNode kp db) i = []"
  by (simp add: chan_def NewNode_def)

lemma joined_inv:
  assumes "node_inv NE A nd" and "pk \<notin> fst ` set (nd_peers nd)" and "length (nd_peers nd) < MaxPeers"
  shows "node_inv NE A (joined pk nd)"
  by (rule node_inv_step[OF assms(1) join_step[OF assms(2,3)]])

section \<open>The network\<close>

abbreviation net_db :: mem where
  "net_db \<equiv> [(balKey (kp_Public sample_key), PutUint64 5000, None), (activeWitnessesKey, [1], None)]"

abbreviation payer_key :: pubkey where
  "payer_key \<equiv> kp_Public sample_key"

definition net_kp :: "nat \<Rightarrow> keypair" where
  "net_kp k = (if k = 0 then sample_key else sample_kp (of_nat k))"

definition node_over :: "mem \<Rightarrow> nat \<Rightarrow> mem node" where
  "node_over db k = (if k = 0 then joined (kp_Public (net_kp 3)) (joined (kp_Public (net_kp 2)) (joined (kp_Public (net_kp 1)) (NewNode sample_key db)))
     else joined payer_key (NewNode (net_kp k) db))"

abbreviation net_node :: "nat \<Rightarrow> mem node" where
  "net_node \<equiv> node_over net_db"

definition sample_network :: "mem network" where
  "sample_network = \<lparr>nw_node = net_node, nw_wire = (\<lambda>_. [])\<rparr>"

fun sample_links :: "end_point \<Rightarrow> end_point option" where
  "sample_links (n, i) =
     (if n = 0 \<and> i < 3 then Some (i + 1, 0) else if 0 < n \<and> n \<le> 3 \<and> i = 0 then Some (0, n - 1) else None)"

lemma sample_links_ok: "link_ok sample_links"
  by (auto simp: link_ok_def)

text \<open>Packets are coded as their type, their id and their payload.\<close>

definition flat_codec :: "packet codec" where
  "flat_codec = \<lparr>marshal = (\<lambda>p. Inr (pk_Type p # arr32 (pk_MsgID p) @ pk_Payload p)),
     unmarshal = (\<lambda>b. Inr \<lparr>pk_Type = hd b, pk_MsgID = be_word (take 32 (tl b)), pk_Payload = drop 33 b\<rparr>)\<rparr>"

lemma flat_sendable: "length (pk_Payload p) < 1000 \<Longrightarrow> sendable flat_codec p"
  by (simp add: sendable_def roundtrips_def flat_codec_def)

text \<open>The message codings read what this payment writes.\<close>

definition pay_net :: "transaction \<Rightarrow> snapshot \<Rightarrow> (nat \<Rightarrow> witness_signature) \<Rightarrow> (mem, mem \<times> gtime) net_env" where
  "pay_net tx sn ws = (sample_net
       \<lparr>marshal = (\<lambda>m. Inr [if wm_Sig m = ws 1 then 1 else if wm_Sig m = ws 2 then 2 else 3]),
        unmarshal = (\<lambda>b. Inr \<lparr>wm_TxHash = tx_Hash tx, wm_Sig = ws (unat (hd b))\<rparr>)\<rparr>)
     \<lparr>ne_packet := flat_codec,
      ne_nonceLock := \<lparr>marshal = (\<lambda>_. Inr [3]), unmarshal = (\<lambda>_. Inr \<lparr>nl_From = tx_From tx, nl_Nonce = tx_Nonce tx\<rparr>)\<rparr>,
      ne_txVerify := \<lparr>marshal = (\<lambda>_. Inr [4]), unmarshal = (\<lambda>_. Inr \<lparr>tv_Tx = Some tx, tv_Snapshot = Some sn\<rparr>)\<rparr>\<rparr>"

lemma pay_net_faithful: "faithful (pay_net tx sn ws) tx sn (ws ` {1, 2, 3})"
  by (auto simp: faithful_def readable_def codes_def pay_net_def sample_net_def lockPacket_def verifyPacket_def
      sigPacket_def marshal_or_nil_def intro!: flat_sendable)

lemma pay_net_env [simp]: "ne_env (pay_net tx sn ws) = ne_env (sample_net no_sigs)"
  by (simp add: pay_net_def sample_net_def)

lemma mem_reliable: "reliable (ne_env (sample_net W))"
proof -
  have "fst (DB_SetWithTTL mem_badger db now k v ttl) = None" for db now k v ttl
    by (simp add: DB_SetWithTTL_def) (simp add: mem_badger_def)
  then show ?thesis by (simp add: reliable_def reads_ok_def mem_DB_Get mem_ConfirmTxBatch)
qed

lemma net_db_ok: "store_ok (ne_env (sample_net W)) mem_abs net_db"
  using sample_store_ok mem_badger_ok by simp

lemma net_db_led: "balance (led mem_abs net_db) payer_key = 5000" "lg_seq (led mem_abs net_db) payer_key = 0"
  "balance (led mem_abs net_db) 5 = 0"
proof -
  note r = reliable_balance[OF mem_reliable net_db_ok, where now = 0 and pk = payer_key]
  then show "balance (led mem_abs net_db) payer_key = 5000" "lg_seq (led mem_abs net_db) payer_key = 0"
    using sample_reads[of 0] by simp_all
  show "balance (led mem_abs net_db) 5 = 0"
    using sample_kps_distinct(2) by (simp add: mem_abs_def balance_ledger_of cell_def)
qed

lemma node_over_sel [simp]:
  "nd_kp (node_over db k) = net_kp k" "nd_db (node_over db k) = db" "nd_gossip (node_over db k) = NewGossip"
  "tp_dag (nd_tp (node_over db k)) = NewDAGManager" "chan (node_over db k) i = []"
  by (simp_all add: node_over_def NewNode_def net_kp_def chan_def NewPeer_def joined_def)

lemma net_node_tp [simp]: "nd_tp (net_node 0) = nd_tp sample_node"
  by (simp add: node_over_def NewNode_def sample_node_def)

lemma net_kps: "kp_wf sample_crypto (net_kp k)" "kp_Public (net_kp 0) = payer_key"
  "distinct [kp_Public (net_kp 1), kp_Public (net_kp 2), kp_Public (net_kp 3)]"
  "{kp_Public (net_kp 1), kp_Public (net_kp 2), kp_Public (net_kp 3)} = kp_Public ` set sample_kps"
  using sample_kps_distinct(1) by (simp_all add: net_kp_def sample_kps_def)

lemma net_peers:
  "nd_peers (node_over db 0) = [(kp_Public (net_kp 1), 0), (kp_Public (net_kp 2), 1), (kp_Public (net_kp 3), 2)]"
  "k \<noteq> 0 \<Longrightarrow> nd_peers (node_over db k) = [(payer_key, 0)]"
  by (simp_all add: node_over_def NewNode_def)

lemma node_over_inv:
  assumes "store_ok (ne_env NE) mem_abs db" and "en_crypto (ne_env NE) = sample_crypto"
  shows "node_inv NE mem_abs (node_over db k)"
proof -
  have "length (kp_private kp) = PrivateKeySize" if "kp_wf sample_crypto kp" for kp
    using that sample_crypto_ok by (auto simp: kp_wf_def ed25519_ok_def PrivateKeySize_def)
  then have f: "node_inv NE mem_abs (NewNode (net_kp k) db)" for k
    using net_kps(1)[of k] assms by (intro node_inv_New) (auto simp: fresh_node_def)
  show ?thesis
  proof (cases "k = 0")
    case True
    have "kp_Public (net_kp 2) \<noteq> kp_Public (net_kp 1)" "kp_Public (net_kp 3) \<noteq> kp_Public (net_kp 1)"
      "kp_Public (net_kp 3) \<noteq> kp_Public (net_kp 2)" using net_kps(3) by auto
    with True f[of 0] show ?thesis
      by (auto simp: node_over_def net_kp_def NewNode_def MaxPeers_def intro!: joined_inv)
  next
    case False
    with f[of k] show ?thesis by (auto simp: node_over_def NewNode_def MaxPeers_def intro!: joined_inv)
  qed
qed

section \<open>The payment\<close>

lemma SendTx_succeeds:
  assumes "node_ok (ne_env NE) A nd" and "reliable (ne_env NE)"
    and "BuildTx (ne_env NE) (nd_tp nd) (cx_now cx) rnd (nd_kp nd) to amt = Ok tx"
    and "Lock (en_badger (ne_env NE)) (nd_db nd) (cx_now cx) (tx_From tx) (tx_Nonce tx) = (None, db')"
  shows "\<exists>nd'. SendTx NE cx rnd nd to amt = (Ok tx, nd')"
proof -
  have st: "store_ok (ne_env NE) A (nd_db nd)" using assms(1) by (simp add: node_ok_def core_ok_def)
  note L = reliable_lock[OF assms(2) st assms(4)]
  let ?nd1 = "(set_db db' nd)\<lparr>nd_pending := (nd_pending nd)(tx_Hash tx \<mapsto> \<lparr>pm_tx = tx, pm_sigs = [], pm_confirmed = False\<rparr>)\<rparr>"
  have ok1: "node_ok (ne_env NE) A ?nd1" using node_ok_db[OF assms(1) L(1)] by simp
  obtain nd2 where b2: "broadcast NE (cx_draws cx 0) ?nd1 (lockPacket NE tx) None = (Ok (), nd2)" "node_ok (ne_env NE) A nd2" "sent ?nd1 nd2"
    using broadcast_done[OF ok1] by blast
  then have db2: "nd_db nd2 = db'" by simp
  have b3: "fst (broadcast NE ds nd2 pkt None) = Ok ()" for ds pkt
    using broadcast_done[OF b2(2), of NE ds pkt None] by auto
  show ?thesis
    using assms(3,4) b2(1) b3
    by (auto simp: SendTx_def Let_def andThen_def AcquireNonceLock_def lockPacket_def db2 value_or_zero_def
        reliable_balance[OF assms(2) L(1)])
qed


section \<open>A relayed packet\<close>

text \<open>Node 0 has a connection to node 1 and one from outside; the lock request that comes from outside is
  relayed over the connection.\<close>

definition one_link :: "end_point \<Rightarrow> end_point option" where
  "one_link e = (if e = (0, 0) then Some (1, 0) else if e = (1, 0) then Some (0, 0) else None)"

theorem connections_carry_witness:
  "\<exists>es s d. runs (net_step (sample_net no_sigs) one_link) \<lparr>nw_node = (\<lambda>_. sample_node), nw_wire = (\<lambda>_. [])\<rparr> es s
     \<and> written_at 0 0 es = [d] \<and> got_at 1 0 es = [sample_packet]
     \<and> ReadPacket (sample_packet_codec 3) d = (Ok sample_packet, []) \<and> nw_wire s (1, 0) = []"
proof -
  let ?NE = "sample_net no_sigs" and ?s0 = "\<lparr>nw_node = (\<lambda>_. sample_node), nw_wire = (\<lambda>_. [])\<rparr>"
  have start: "net_start ?NE mem_abs ?s0" by (simp add: net_start_def)
  have pk: "ne_packet ?NE = sample_packet_codec 3" by (simp add: sample_net_def)
  let ?a = "joined 0 sample_node"
  let ?b = "joined 1 ?a"
  have j: "node_step ?NE sample_node (Join 0 []) ?a" "node_step ?NE ?a (Join 1 []) ?b"
    by (rule join_step; simp add: MaxPeers_def)+
  have inv: "node_inv ?NE mem_abs ?a" "node_inv ?NE mem_abs ?b"
    using node_inv_step[OF node_inv_New[OF sample_fresh] j(1)] node_inv_step[OF _ j(2)] by blast+
  obtain d where d: "Encode (sample_packet_codec 3) sample_packet = Ok d"
    by (simp add: Encode_def sample_packet_codec_def)
  then have r: "ReadPacket (sample_packet_codec 3) d = (Ok sample_packet, [])"
    using read_encoded[OF d, of "[]"] by (auto simp: roundtrips_def sample_packet_codec_def Encode_def)
  have ok: "node_ok (ne_env ?NE) mem_abs ?b" "node_ok (ne_env ?NE) mem_abs ?a" using inv by (simp_all add: node_inv_def)
  obtain c where c: "handlePacket ?NE sample_cx ?b 1 sample_packet = (Ok (), c)" "same_payments ?b c"
    "\<And>i. chan c i = (if i \<in> set (ids ?b) then chan ?b i @ [d] else chan ?b i)"
    by (rule lock_step[OF ok(1) mem_reliable, of 5 5 sample_packet "\<lparr>nl_From = 3, nl_Nonce = 42\<rparr>" d sample_cx 1])
      (use d in \<open>simp_all add: room_def fwd_def NewGossip_def Fanout_def gossipFanout_def sendChCap_def gossipHops_def
        sample_packet_def sample_net_def sample_node_def NewNode_def\<close>)
  have nx: "nd_next sample_node = 0" by (simp add: sample_node_def NewNode_def)
  obtain e where e: "handlePacket ?NE sample_cx ?a 0 sample_packet = (Ok (), e)"
    by (rule lock_step[OF ok(2) mem_reliable, of 5 5 sample_packet "\<lparr>nl_From = 3, nl_Nonce = 42\<rparr>" d sample_cx 0])
      (use d in \<open>simp_all add: room_def fwd_def NewGossip_def Fanout_def gossipFanout_def sendChCap_def gossipHops_def
        sample_packet_def sample_net_def sample_node_def NewNode_def\<close>)
  let ?s1 = "put_node 0 ?a ?s0"
  let ?s2 = "put_node 0 ?b ?s1"
  let ?s3 = "put_node 1 ?a ?s2"
  let ?s4 = "put_node 0 c ?s3"
  have s1: "net_step ?NE one_link ?s0 (Local 0 (Join 0 [])) ?s1"
    by (rule net_step.own) (use j(1) in simp_all)
  have s2: "net_step ?NE one_link ?s1 (Local 0 (Join 1 [])) ?s2"
    by (rule net_step.own) (use j(2) in simp_all)
  have s3: "net_step ?NE one_link ?s2 (Local 1 (Join 0 [])) ?s3"
    by (rule net_step.own) (use j(1) in simp_all)
  have s4: "net_step ?NE one_link ?s3 (Outside 0 1 sample_cx sample_packet) ?s4"
    by (rule net_step.outside, simp add: one_link_def, rule node_step.receive) (use c(1) nx in \<open>simp_all add: joined_def\<close>)
  have run4: "runs (net_step ?NE one_link) ?s0
      [Local 0 (Join 0 []), Local 0 (Join 1 []), Local 1 (Join 0 []), Outside 0 1 sample_cx sample_packet] ?s4"
    unfolding runs_Cons by (intro exI conjI) (rule s1, rule s2, rule s3, rule s4, rule runs_Nil)
  have inv4: "net_inv ?NE mem_abs ?s4" by (rule networks.inv_reachable[OF start run4])
  have c0: "0 \<in> set (ids c)" "chan c 0 = d # []" using c(2) c(3)[of 0] nx
    by (simp_all add: same_payments_def)
  obtain s where run5: "runs (net_step ?NE one_link) ?s4 [Written 0 0 d, Got 1 0 sample_cx sample_packet] s"
    using deliver[of ?NE mem_abs ?s4 0 0 d "[]" one_link 1 0 sample_packet sample_cx e] net_inv_node[OF inv4, of 0]
      c0 r e nx pk by (simp add: one_link_def joined_def)
  let ?es = "[Local 0 (Join 0 []), Local 0 (Join 1 []), Local 1 (Join 0 []), Outside 0 1 sample_cx sample_packet]
    @ [Written 0 0 d, Got 1 0 sample_cx sample_packet]"
  have run: "runs (net_step ?NE one_link) ?s0 ?es s" unfolding runs_append using run4 run5 by blast
  have link: "link_ok one_link" by (auto simp: link_ok_def one_link_def)
  have hist: "written_at 0 0 ?es = [d]" "got_at 1 0 ?es = [sample_packet]" by (simp_all add: written_at_def got_at_def)
  have "length d < 2 ^ 32" using d by (auto simp: Encode_def sample_packet_codec_def)
  with connections_carry[OF start link run, of 0 0 1 0] hist pk
  have "ReadPacket (sample_packet_codec 3) d = (Ok sample_packet, [])" "nw_wire s (1, 0) = []"
    by (simp_all add: one_link_def)
  with run hist show ?thesis by blast
qed

end
