(* ===== verification/Bootstrap.thy ===== *)
theory Bootstrap
  imports LocalnetInit ApiEffects NetSamples
begin

text \<open>
  \<^verbatim>\<open>scripts/localnet/init.go\<close> against the nodes it starts from: the script's requests go over HTTP to the
  API of each node, and what it leaves is a network in which payments settle.
\<close>

section \<open>Addresses\<close>

text \<open>The documented reading of a URL by the HTTP client and the server: host and port, and the segments of
  the path.\<close>

fun splitSlash :: "string \<Rightarrow> string list" where
  "splitSlash [] = [[]]"
| "splitSlash (c # cs) =
     (if c = CHR ''/'' then [] # splitSlash cs
      else (case splitSlash cs of [] \<Rightarrow> [[c]] | s # ss \<Rightarrow> (c # s) # ss))"

lemma splitSlash_piece:
  assumes "CHR ''/'' \<notin> set s"
  shows "splitSlash (s @ CHR ''/'' # t) = s # splitSlash t" and "splitSlash s = [s]"
  using assms by (induction s) auto

definition splitUrl :: "string \<Rightarrow> (string \<times> string list) option" where
  "splitUrl url =
     (if take 7 url = ''http://'' then (case splitSlash (drop 7 url) of [] \<Rightarrow> None | addr # segs \<Rightarrow> Some (addr, segs))
      else None)"

lemma splitUrl_base:
  assumes "CHR ''/'' \<notin> set (na_APIAddr n)"
  shows "splitUrl (base_of n @ CHR ''/'' # path) = Some (na_APIAddr n, splitSlash path)"
  using splitSlash_piece(1)[OF assms, of path] by (simp add: splitUrl_def base_of_def)

lemma hex_no_slash: "CHR ''/'' \<notin> set (hex_encode bs)"
proof -
  have d: "hexdigit n \<noteq> CHR ''/''" if "n < 16" for n
    using fromHexChar_hexdigit[OF that] by (auto simp: fromHexChar_def)
  have "CHR ''/'' \<notin> set (hex_byte b)" for b
  proof -
    have "unat b < 256" using unsigned_less[of b] by simp
    then have "unat b div 16 < 16" by (simp add: less_mult_imp_div_less)
    with d[of "unat b div 16"] d[of "unat b mod 16"] show ?thesis by (auto simp: hex_byte_def)
  qed
  then show ?thesis by (auto simp: hex_encode_def)
qed

section \<open>The nodes behind their addresses\<close>

record ('db, 'txn) rig =
  rg_NE :: "('db, 'txn) net_env"
  rg_AE :: api_env
  rg_enc :: "response \<Rightarrow> bytes"
  rg_dns :: "string \<Rightarrow> nat option"
  rg_cx :: "nat \<Rightarrow> step_ctx"
  rg_rnd :: "nat \<Rightarrow> error + bytes"

record 'db world =
  wd_node :: "nat \<Rightarrow> 'db node"
  wd_calls :: nat

text \<open>A handler that panics or waits for ever gives the client no response.\<close>

definition call :: "('db, 'txn) rig \<Rightarrow> 'db world \<Rightarrow> nat \<Rightarrow> request \<Rightarrow> (error + http_resp) \<times> 'db world" where
  "call R w i rq =
     (case serve (rg_NE R) (rg_AE R) (rg_cx R (wd_calls w)) (rg_rnd R (wd_calls w)) (wd_node w i) rq of
        (r, nd') \<Rightarrow>
          (case r of Ok r \<Rightarrow> Inr \<lparr>hr_Status = rs_Status r, hr_Body = Inr (rg_enc R r)\<rparr> | _ \<Rightarrow> Inl (LibError ''EOF''),
           \<lparr>wd_node = (wd_node w)(i := nd'), wd_calls = wd_calls w + 1\<rparr>))"

definition api_transport :: "('db, 'txn) rig \<Rightarrow> 'db world transport" where
  "api_transport R w rq =
     (case splitUrl (hq_Url rq) of
        None \<Rightarrow> (Inl (LibError ''unsupported protocol scheme''), w)
      | Some (addr, segs) \<Rightarrow>
          (case rg_dns R addr of
             None \<Rightarrow> (Inl (LibError ''connection refused''), w)
           | Some i \<Rightarrow> call R w i \<lparr>rq_Method = hq_Method rq, rq_Path = segs, rq_Body = hq_Body rq\<rparr>))"

abbreviation the_client :: "('db, 'txn) rig \<Rightarrow> 'db world client" where
  "the_client R \<equiv> init_client (api_transport R)"

definition listens :: "('db, 'txn) rig \<Rightarrow> node_addrs \<Rightarrow> nat \<Rightarrow> bool" where
  "listens R n i \<longleftrightarrow> rg_dns R (na_APIAddr n) = Some i \<and> CHR ''/'' \<notin> set (na_APIAddr n)"

lemma fetch_call:
  assumes "listens R n i"
  shows "fetch (api_transport R) w \<lparr>hq_Timeout = t, hq_Method = m, hq_Url = base_of n @ CHR ''/'' # path, hq_Body = b\<rparr> =
      (case call R w i \<lparr>rq_Method = m, rq_Path = splitSlash path, rq_Body = b\<rparr> of
         (Inl e, w') \<Rightarrow> (Inl e, w') | (Inr r, w') \<Rightarrow> (hr_Body r, w'))"
  using assms splitUrl_base[of n path] by (simp add: listens_def fetch_def api_transport_def)

lemma client_call:
  assumes "listens R n i"
  shows "cl_get (the_client R) w (base_of n @ CHR ''/'' # path) =
      (case call R w i \<lparr>rq_Method = ''GET'', rq_Path = splitSlash path, rq_Body = []\<rparr> of
         (Inl e, w') \<Rightarrow> (Inl e, w') | (Inr r, w') \<Rightarrow> (hr_Body r, w'))"
    and "cl_post (the_client R) w (base_of n @ CHR ''/'' # path) b =
      (case call R w i \<lparr>rq_Method = ''POST'', rq_Path = splitSlash path, rq_Body = b\<rparr> of
         (Inl e, w') \<Rightarrow> (Inl e, w') | (Inr r, w') \<Rightarrow> (hr_Body r, w'))"
  using fetch_call[OF assms] by (simp_all add: init_client_def init_get_def init_post_def)

section \<open>Single requests\<close>

definition sets_ok :: "('db, 'txn) env \<Rightarrow> bool" where
  "sets_ok E \<longleftrightarrow> (\<forall>db now k v. fst (DB_Set (en_badger E) db now k v) = None)"

definition answered :: "response \<Rightarrow> response" where
  "answered r = r\<lparr>rs_Headers := AList.merge corsHeaders (rs_Headers r)\<rparr>"

lemma serve_found:
  assumes "m \<noteq> ''OPTIONS''" and "mux m path = Found ep args"
    and "dispatch NE AE cx rnd nd \<lparr>rq_Method = m, rq_Path = path, rq_Body = b\<rparr> = (Ok r, nd')"
  shows "serve NE AE cx rnd nd \<lparr>rq_Method = m, rq_Path = path, rq_Body = b\<rparr> = (Ok (answered r), nd')"
  using assms by (simp add: serve_def answered_def)

lemma mux_status: "mux ''GET'' [''v1'', ''status''] = Found EStatus []"
  by (simp add: mux_def routes_def methodOk_def)

lemma serve_status:
  "serve NE AE cx rnd nd \<lparr>rq_Method = ''GET'', rq_Path = [''v1'', ''status''], rq_Body = b\<rparr> = (Ok (answered (Status nd)), nd)"
  by (rule serve_found[OF _ mux_status]) (simp_all add: dispatch_def mux_status)

definition balance_resp :: "string \<Rightarrow> u64 \<Rightarrow> u64 \<Rightarrow> response" where
  "balance_resp pk bal seq = respond 200 (JObj [(''pubkey'', JStr pk), (''balance'', JNum bal), (''seq'', JNum seq)])"

lemma serve_balance:
  assumes "node_ok (ne_env NE) A nd" and "reads_ok (ne_env NE)"
  shows "serve NE AE cx rnd nd \<lparr>rq_Method = ''GET'', rq_Path = [''v1'', ''balance'', hex_encode (arr32 pk)], rq_Body = b\<rparr>
    = (Ok (answered (balance_resp (hex_encode (arr32 pk)) (balance (led A (nd_db nd)) pk) (lg_seq (led A (nd_db nd)) pk))), nd)"
  by (rule serve_found[OF _ mux_balance[OF hex_nonempty]])
    (simp_all add: dispatch_def mux_balance[OF hex_nonempty] Balance_def orElse_def Let_def value_or_zero_def
      reads_balance[OF assms(2) node_store[OF assms(1)]] balance_resp_def)

text \<open>The nonce locks of a database.\<close>

definition nonce_locks :: "('db, 'txn) badger_abs \<Rightarrow> 'db \<Rightarrow> pubkey \<Rightarrow> u64 \<Rightarrow> (bytes \<times> gtime option) option" where
  "nonce_locks A db = (\<lambda>pk n. ab_db A db (nonceLockKey pk n))"

lemma write_keeps_locks:
  assumes "badger_ok B A" and "DB_Set B db now k v = (None, db')" and "\<And>pk n. k \<noteq> nonceLockKey pk n"
  shows "nonce_locks A db' = nonce_locks A db"
  using DB_Set_done[OF assms(1,2)] assms(3) by (auto simp: nonce_locks_def fun_eq_iff)

definition fund :: "pubkey \<Rightarrow> amount \<Rightarrow> ledger \<Rightarrow> ledger" where
  "fund pk amt L = L\<lparr>lg_bal := (lg_bal L)(pk \<mapsto> amt)\<rparr>"

lemma serve_faucet:
  assumes "node_ok (ne_env NE) A nd" and "reads_ok (ne_env NE)" and "sets_ok (ne_env NE)"
    and "ae_faucetReq AE b = Inr \<lparr>fr_PubKey = hex_encode (arr32 pk), fr_Amount = amt\<rparr>" and "amt \<noteq> 0"
  shows "\<exists>r db'. serve NE AE cx rnd nd \<lparr>rq_Method = ''POST'', rq_Path = [''v1'', ''faucet''], rq_Body = b\<rparr> = (Ok r, set_db db' nd)
    \<and> store_ok (ne_env NE) A db' \<and> led A db' = fund pk amt (led A (nd_db nd))
    \<and> nonce_locks A db' = nonce_locks A (nd_db nd)"
proof -
  let ?B = "en_badger (ne_env NE)"
  obtain db' where w: "SaveBalance ?B (nd_db nd) (cx_now cx) pk amt = (None, db')"
    using assms(3) unfolding sets_ok_def SaveBalance_def by (metis prod.collapse)
  from chain.save_bal_done[OF node_store[OF assms(1)] w] have
    db': "store_ok (ne_env NE) A db'" "led A db' = fund pk amt (led A (nd_db nd))" by (simp_all add: fund_def)
  have "nonce_locks A db' = nonce_locks A (nd_db nd)"
    by (rule write_keeps_locks[OF _ w[unfolded SaveBalance_def]]) (use node_store[OF assms(1)] in simp_all)
  have "\<exists>r. dispatch NE AE cx rnd nd \<lparr>rq_Method = ''POST'', rq_Path = [''v1'', ''faucet''], rq_Body = b\<rparr> = (Ok r, set_db db' nd)" (is "\<exists>r. ?d = _")
    using assms(4,5) w by (simp add: dispatch_def mux_post Faucet_def orElse_def Let_def value_or_zero_def
        reads_balance[OF assms(2) db'(1)])
  then obtain r where "?d = (Ok r, set_db db' nd)" by blast
  from serve_found[OF _ mux_post(1) this] db' \<open>nonce_locks A db' = _\<close> show ?thesis by (intro exI[of _ "answered r"] exI[of _ db']) simp
qed

lemma parseWitnesses_hex:
  "parseWitnesses now (map (\<lambda>(pk, addr). \<lparr>wr_PubKey = hex_encode (arr32 pk), wr_Addr = addr\<rparr>) ks) ws
     = Ok (ws @ map (\<lambda>(pk, addr). \<lparr>w_PubKey = pk, w_Addr = addr, w_AddedAt = now\<rparr>) ks)"
  by (induction ks arbitrary: ws) auto

lemma serve_register:
  assumes "node_ok (ne_env NE) A nd" and "reads_ok (ne_env NE)" and "sets_ok (ne_env NE)"
    and "ae_witnessReq AE b = Inr (map (\<lambda>(pk, addr). \<lparr>wr_PubKey = hex_encode (arr32 pk), wr_Addr = addr\<rparr>) ks)"
    and "codes (en_wits (ne_env NE)) (map (\<lambda>(pk, addr). \<lparr>w_PubKey = pk, w_Addr = addr, w_AddedAt = cx_now cx\<rparr>) ks)"
  shows "\<exists>r db'. serve NE AE cx rnd nd \<lparr>rq_Method = ''POST'', rq_Path = [''v1'', ''witness'', ''register''], rq_Body = b\<rparr>
      = (Ok r, set_db db' nd)
    \<and> store_ok (ne_env NE) A db' \<and> led A db' = led A (nd_db nd) \<and> nonce_locks A db' = nonce_locks A (nd_db nd)
    \<and> (\<forall>t. GetActiveSet (en_badger (ne_env NE)) (en_wits (ne_env NE)) db' t = Ok (fst ` set ks))"
proof -
  let ?B = "en_badger (ne_env NE)" and ?J = "en_wits (ne_env NE)"
  let ?ws = "map (\<lambda>(pk, addr). \<lparr>w_PubKey = pk, w_Addr = addr, w_AddedAt = cx_now cx\<rparr>) ks"
  have B: "badger_ok ?B A" using node_store[OF assms(1)] by simp
  from assms(5) obtain data where j: "marshal ?J ?ws = Inr data" "unmarshal ?J data = Inr ?ws" by (auto simp: codes_def)
  obtain db' where w: "DB_Set ?B (nd_db nd) (cx_now cx) activeWitnessesKey data = (None, db')"
    using assms(3) unfolding sets_ok_def by (metis prod.collapse)
  have sv: "SaveActiveWitnesses ?B ?J (nd_db nd) (cx_now cx) ?ws = (None, db')" using w j by (simp add: SaveActiveWitnesses_def)
  have g: "DB_Get ?B db' t activeWitnessesKey = (Some data, None)" for t
    using reliable_get[OF assms(2) B, of db' t activeWitnessesKey] dbkv.get_after_set1[OF B w, of t activeWitnessesKey]
    by auto
  have act: "GetActiveSet ?B ?J db' t = Ok (fst ` set ks)" for t
    using g j by (simp add: GetActiveSet_def GetActiveWitnesses_def image_image case_prod_unfold)
  have "\<exists>r. dispatch NE AE cx rnd nd \<lparr>rq_Method = ''POST'', rq_Path = [''v1'', ''witness'', ''register''], rq_Body = b\<rparr>
      = (Ok r, set_db db' nd)" (is "\<exists>r. ?d = _")
    using assms(4) sv parseWitnesses_hex[of "cx_now cx" ks "[]"]
    by (simp add: dispatch_def mux_post RegisterWitnesses_def orElse_def Let_def)
  then obtain r where "?d = (Ok r, set_db db' nd)" by blast
  moreover have "nonce_locks A db' = nonce_locks A (nd_db nd)" by (rule write_keeps_locks[OF B w]) simp
  ultimately show ?thesis using serve_found[OF _ mux_post(2)] SaveActiveWitnesses_ledger[OF B sv] act node_store[OF assms(1)]
    by (intro exI[of _ "answered r"] exI[of _ db']) simp
qed

section \<open>The script's loops\<close>

text \<open>What the script needs of the JSON text: the fields it reads are the ones the handlers wrote, and the
  handlers read what it sends.\<close>

definition json_ok :: "('db, 'txn) rig \<Rightarrow> init_json \<Rightarrow> bool" where
  "json_ok R IJ \<longleftrightarrow>
     (\<forall>nd :: 'db node. ij_pubkey IJ (rg_enc R (answered (Status nd))) = hex_encode (arr32 (node_key nd)))
     \<and> (\<forall>pk bal seq. ij_balance IJ (rg_enc R (answered (balance_resp pk bal seq))) = bal)
     \<and> (\<forall>pk. ae_faucetReq (rg_AE R) (ij_faucet IJ pk initialBalance) = Inr \<lparr>fr_PubKey = pk, fr_Amount = initialBalance\<rparr>)"

text \<open>The nodes have the keys \<open>K\<close>, and those of the list listen at their addresses.\<close>

definition world_ok :: "('db, 'txn) rig \<Rightarrow> ('db, 'txn) badger_abs \<Rightarrow> (nat \<Rightarrow> pubkey) \<Rightarrow> 'db world \<Rightarrow> bool" where
  "world_ok R A K w \<longleftrightarrow> reads_ok (ne_env (rg_NE R)) \<and> sets_ok (ne_env (rg_NE R))
     \<and> (\<forall>i. node_ok (ne_env (rg_NE R)) A (wd_node w i) \<and> node_key (wd_node w i) = K i)"

definition at :: "('db, 'txn) rig \<Rightarrow> node_addrs \<Rightarrow> nat" where
  "at R n = the (rg_dns R (na_APIAddr n))"

abbreviation online :: "('db, 'txn) rig \<Rightarrow> node_addrs list \<Rightarrow> bool" where
  "online R ns \<equiv> \<forall>n \<in> set ns. listens R n (at R n)"

abbreviation hexkey :: "pubkey \<Rightarrow> string" where
  "hexkey pk \<equiv> hex_encode (arr32 pk)"

text \<open>A step of the script that works on the databases only, with its effect on the ledgers.\<close>

definition stores_to :: "('db, 'txn) rig \<Rightarrow> ('db, 'txn) badger_abs \<Rightarrow> (nat \<Rightarrow> ledger \<Rightarrow> ledger) \<Rightarrow> 'db world \<Rightarrow> 'db world \<Rightarrow> bool" where
  "stores_to R A f w w' \<longleftrightarrow> (\<forall>i. \<exists>db. wd_node w' i = set_db db (wd_node w i)
     \<and> store_ok (ne_env (rg_NE R)) A db \<and> led A db = f i (led A (nd_db (wd_node w i)))
     \<and> nonce_locks A db = nonce_locks A (nd_db (wd_node w i)))"

lemma stores_to_ok: "stores_to R A f w w' \<Longrightarrow> world_ok R A K w \<Longrightarrow> world_ok R A K w'"
  unfolding stores_to_def world_ok_def by (metis node_ok_db node.select_convs(1) node.surjective node.update_convs(2))

lemma stores_to_trans:
  assumes "stores_to R A f w w'" and "stores_to R A g w' w''"
  shows "stores_to R A (\<lambda>i L. g i (f i L)) w w''"
  unfolding stores_to_def
proof
  fix i
  obtain db where 1: "wd_node w' i = set_db db (wd_node w i)" "led A db = f i (led A (nd_db (wd_node w i)))"
    "nonce_locks A db = nonce_locks A (nd_db (wd_node w i))"
    using assms(1) unfolding stores_to_def by blast
  obtain db' where "wd_node w'' i = set_db db' (wd_node w' i)" "store_ok (ne_env (rg_NE R)) A db'"
    "led A db' = g i (led A (nd_db (wd_node w' i)))" "nonce_locks A db' = nonce_locks A (nd_db (wd_node w' i))" using assms(2) unfolding stores_to_def by blast
  with 1 show "\<exists>db. wd_node w'' i = set_db db (wd_node w i) \<and> store_ok (ne_env (rg_NE R)) A db
      \<and> led A db = g i (f i (led A (nd_db (wd_node w i)))) \<and> nonce_locks A db = nonce_locks A (nd_db (wd_node w i))"
    by (intro exI[of _ db']) simp
qed

lemma stores_to_one:
  assumes "world_ok R A K w" and "wd_node w' = (wd_node w)(i := set_db db (wd_node w i))"
    and "store_ok (ne_env (rg_NE R)) A db" and "led A db = g (led A (nd_db (wd_node w i)))"
    and "nonce_locks A db = nonce_locks A (nd_db (wd_node w i))"
  shows "stores_to R A (\<lambda>j L. if j = i then g L else L) w w'"
  unfolding stores_to_def
proof
  fix j
  have "store_ok (ne_env (rg_NE R)) A (nd_db (wd_node w j))"
    using assms(1) node_store unfolding world_ok_def by blast
  with assms(2-5) show "\<exists>db. wd_node w' j = set_db db (wd_node w j) \<and> store_ok (ne_env (rg_NE R)) A db
      \<and> led A db = (if j = i then g (led A (nd_db (wd_node w j))) else led A (nd_db (wd_node w j)))
      \<and> nonce_locks A db = nonce_locks A (nd_db (wd_node w j))"
    by (cases "j = i") (auto intro: exI[of _ db] exI[of _ "nd_db (wd_node w j)"])
qed

lemma stores_to_refl: "world_ok R A K w \<Longrightarrow> stores_to R A (\<lambda>i L. L) w w"
  unfolding stores_to_def world_ok_def
  by (metis node.surjective node.update_convs(2) node_store tx_processor.surjective tx_processor.update_convs(1))

lemma waitFor_online:
  fixes R :: "('db, 'txn) rig"
  assumes "world_ok R A K w" and "json_ok R IJ" and "listens R n i"
  shows "\<exists>w'. waitFor (the_client R) IJ (base_of n) (Suc k) w = (Some (hexkey (K i)), w') \<and> wd_node w' = wd_node w"
  using assms client_call(1)[OF assms(3), of w "''v1/status''"]
  by (simp add: call_def serve_status world_ok_def json_ok_def)

lemma waitAll_online:
  assumes "world_ok R A K w" and "json_ok R IJ" and "online R ns"
  shows "\<exists>w'. waitAll (the_client R) IJ ns pks w = (Some (pks @ map (\<lambda>n. hexkey (K (at R n))) ns), w') \<and> wd_node w' = wd_node w"
  using assms(1,3)
proof (induction ns arbitrary: pks w)
  case (Cons n ns)
  obtain w1 where w1: "waitFor (the_client R) IJ (base_of n) 10 w = (Some (hexkey (K (at R n))), w1)" "wd_node w1 = wd_node w"
    using waitFor_online[OF Cons.prems(1) assms(2), of n "at R n" 9] Cons.prems(2) by auto
  then have "world_ok R A K w1" using Cons.prems(1) by (simp add: world_ok_def)
  from Cons.IH[OF this, of "pks @ [hexkey (K (at R n))]"] Cons.prems(2) w1 show ?case by auto
qed simp

lemma faucetAll_online:
  assumes "world_ok R A K w" and "json_ok R IJ" and "online R ns"
  shows "stores_to R A (\<lambda>i L. if i \<in> at R ` set ns then fund (K i) initialBalance L else L) w
    (faucetAll (the_client R) IJ (map (\<lambda>n. (n, hexkey (K (at R n)))) ns) w)"
  using assms(1,3)
proof (induction ns arbitrary: w)
  case Nil
  then show ?case using stores_to_refl by simp
next
  case (Cons n ns)
  let ?i = "at R n" and ?b = "ij_faucet IJ (hexkey (K (at R n))) initialBalance"
  let ?E = "ne_env (rg_NE R)"
  have ok: "node_ok ?E A (wd_node w ?i)" "reads_ok ?E" "sets_ok ?E" using Cons.prems(1) by (simp_all add: world_ok_def)
  have req: "ae_faucetReq (rg_AE R) ?b = Inr \<lparr>fr_PubKey = hexkey (K ?i), fr_Amount = initialBalance\<rparr>" "initialBalance \<noteq> 0"
    using assms(2) by (simp_all add: json_ok_def initialBalance_def)
  obtain r db where f: "serve (rg_NE R) (rg_AE R) (rg_cx R (wd_calls w)) (rg_rnd R (wd_calls w)) (wd_node w ?i)
      \<lparr>rq_Method = ''POST'', rq_Path = [''v1'', ''faucet''], rq_Body = ?b\<rparr> = (Ok r, set_db db (wd_node w ?i))"
    "store_ok ?E A db" "led A db = fund (K ?i) initialBalance (led A (nd_db (wd_node w ?i)))"
    "nonce_locks A db = nonce_locks A (nd_db (wd_node w ?i))"
    using serve_faucet[OF ok req] by blast
  let ?w1 = "snd (cl_post (the_client R) w (base_of n @ ''/v1/faucet'') ?b)"
  have l: "listens R n ?i" using Cons.prems(2) by simp
  have "wd_node ?w1 = (wd_node w)(?i := set_db db (wd_node w ?i))"
    using client_call(2)[OF l, of w "''v1/faucet''" ?b] f(1) by (simp add: call_def)
  from stores_to_one[OF Cons.prems(1) this f(2), of "fund (K ?i) initialBalance"] f(3,4)
  have 1: "stores_to R A (\<lambda>j L. if j = ?i then fund (K ?i) initialBalance L else L) w ?w1" by simp
  have 2: "stores_to R A (\<lambda>i L. if i \<in> at R ` set ns then fund (K i) initialBalance L else L) ?w1
      (faucetAll (the_client R) IJ (map (\<lambda>n. (n, hexkey (K (at R n)))) ns) ?w1)"
    using Cons.IH[OF stores_to_ok[OF 1 Cons.prems(1)]] Cons.prems(2) by simp
  have eq: "(if i \<in> at R ` set ns then fund (K i) initialBalance (if i = ?i then fund (K ?i) initialBalance L else L)
        else if i = ?i then fund (K ?i) initialBalance L else L)
      = (if i \<in> at R ` set (n # ns) then fund (K i) initialBalance L else L)" for i L
    by (auto simp: fund_def)
  from stores_to_trans[OF 1 2] show ?case unfolding eq by simp
qed

lemma registerAll_online:
  assumes "world_ok R A K w" and "online R ns"
    and "ae_witnessReq (rg_AE R) b = Inr (map (\<lambda>(pk, addr). \<lparr>wr_PubKey = hexkey pk, wr_Addr = addr\<rparr>) ks)"
    and "\<forall>c. codes (en_wits (ne_env (rg_NE R))) (map (\<lambda>(pk, addr). \<lparr>w_PubKey = pk, w_Addr = addr, w_AddedAt = cx_now (rg_cx R c)\<rparr>) ks)"
  shows "stores_to R A (\<lambda>i L. L) w (registerAll (the_client R) b ns w)
    \<and> (\<forall>i t. (i \<in> at R ` set ns \<or> GetActiveSet (en_badger (ne_env (rg_NE R))) (en_wits (ne_env (rg_NE R))) (nd_db (wd_node w i)) t = Ok (fst ` set ks)) \<longrightarrow>
        GetActiveSet (en_badger (ne_env (rg_NE R))) (en_wits (ne_env (rg_NE R))) (nd_db (wd_node (registerAll (the_client R) b ns w) i)) t = Ok (fst ` set ks))"
  using assms(1,2)
proof (induction ns arbitrary: w)
  case Nil
  then show ?case using stores_to_refl by simp
next
  case (Cons n ns)
  let ?i = "at R n" and ?E = "ne_env (rg_NE R)"
  have ok: "node_ok ?E A (wd_node w ?i)" "reads_ok ?E" "sets_ok ?E" using Cons.prems(1) by (simp_all add: world_ok_def)
  obtain r db where f: "serve (rg_NE R) (rg_AE R) (rg_cx R (wd_calls w)) (rg_rnd R (wd_calls w)) (wd_node w ?i)
      \<lparr>rq_Method = ''POST'', rq_Path = [''v1'', ''witness'', ''register''], rq_Body = b\<rparr> = (Ok r, set_db db (wd_node w ?i))"
    "store_ok ?E A db" "led A db = led A (nd_db (wd_node w ?i))" "nonce_locks A db = nonce_locks A (nd_db (wd_node w ?i))"
    "\<forall>t. GetActiveSet (en_badger ?E) (en_wits ?E) db t = Ok (fst ` set ks)"
    using serve_register[OF ok assms(3)] assms(4) by blast
  let ?w1 = "snd (cl_post (the_client R) w (base_of n @ ''/v1/witness/register'') b)"
  have l: "listens R n ?i" using Cons.prems(2) by simp
  have n1: "wd_node ?w1 = (wd_node w)(?i := set_db db (wd_node w ?i))"
    using client_call(2)[OF l, of w "''v1/witness/register''" b] f(1) by (simp add: call_def)
  from stores_to_one[OF Cons.prems(1) this f(2), of "\<lambda>L. L"] f(3,4)
  have 1: "stores_to R A (\<lambda>j L. L) w ?w1" by simp
  note IH = Cons.IH[OF stores_to_ok[OF 1 Cons.prems(1)]]
  have "online R ns" using Cons.prems(2) by simp
  from IH[OF this] stores_to_trans[OF 1, of "\<lambda>i L. L"] f(5) show ?case
    by (simp add: n1)
qed

lemma balanceLines_online:
  assumes "world_ok R A K w" and "json_ok R IJ" and "online R ns"
  shows "\<exists>w'. balanceLines (the_client R) IJ (map (\<lambda>n. (n, hexkey (K (at R n)))) ns) w
      = (map (\<lambda>n. (hexkey (K (at R n)), balance (led A (nd_db (wd_node w (at R n)))) (K (at R n)))) ns, w') \<and> wd_node w' = wd_node w"
  using assms(1,3)
proof (induction ns arbitrary: w)
  case (Cons n ns)
  let ?i = "at R n" and ?E = "ne_env (rg_NE R)"
  have ok: "node_ok ?E A (wd_node w ?i)" "reads_ok ?E" using Cons.prems(1) by (simp_all add: world_ok_def)
  have l: "listens R n ?i" using Cons.prems(2) by simp
  have sp: "splitSlash (''v1/balance/'' @ hexkey (K ?i)) = [''v1'', ''balance'', hexkey (K ?i)]"
    using splitSlash_piece(2)[OF hex_no_slash] by simp
  let ?w1 = "w\<lparr>wd_calls := wd_calls w + 1\<rparr>"
  obtain r where g: "cl_get (the_client R) w (base_of n @ ''/v1/balance/'' @ hexkey (K ?i)) = (Inr r, ?w1)"
    and b: "ij_balance IJ r = balance (led A (nd_db (wd_node w ?i))) (K ?i)"
    using client_call(1)[OF l, of w "''v1/balance/'' @ hexkey (K ?i)"] serve_balance[OF ok] assms(2)
    unfolding sp by (simp add: call_def json_ok_def)
  have "world_ok R A K ?w1" using Cons.prems(1) by (simp add: world_ok_def)
  from Cons.IH[OF this] Cons.prems(2) g b show ?case by auto
qed simp

section \<open>The whole script\<close>

lemma init_online:
  assumes "world_ok R A K w" and "json_ok R IJ" and "nodes = init_loadAllNodes J dk" and "nodes \<noteq> []" and "online R nodes"
    and "raw = map (\<lambda>n. \<lparr>wr_PubKey = hexkey (K (at R n)), wr_Addr = na_P2PAddr n\<rparr>) nodes"
    and "ae_witnessReq (rg_AE R) (ij_register IJ raw) = Inr raw"
    and "\<forall>c. codes (en_wits (ne_env (rg_NE R)))
      (map (\<lambda>n. \<lparr>w_PubKey = K (at R n), w_Addr = na_P2PAddr n, w_AddedAt = cx_now (rg_cx R c)\<rparr>) nodes)"
    and "init_main (the_client R) IJ J dk w = (r, w')"
  shows "r = Some (map (\<lambda>n. (hexkey (K (at R n)), initialBalance)) nodes)"
    and "stores_to R A (\<lambda>i L. if i \<in> at R ` set nodes then fund (K i) initialBalance L else L) w w'"
    and "\<And>n t. n \<in> set nodes \<Longrightarrow> GetActiveSet (en_badger (ne_env (rg_NE R))) (en_wits (ne_env (rg_NE R))) (nd_db (wd_node w' (at R n))) t
      = Ok (K ` at R ` set nodes)"
proof -
  let ?f = "\<lambda>i L. if i \<in> at R ` set nodes then fund (K i) initialBalance L else L"
  let ?pks = "map (\<lambda>n. hexkey (K (at R n))) nodes"
  let ?ks = "map (\<lambda>n. (K (at R n), na_P2PAddr n)) nodes"
  obtain w1 where 1: "waitAll (the_client R) IJ nodes [] w = (Some ?pks, w1)" "wd_node w1 = wd_node w"
    using waitAll_online[OF assms(1,2,5), of "[]"] by auto
  then have ok1: "world_ok R A K w1" using assms(1) by (simp add: world_ok_def)
  have zip: "zip nodes ?pks = map (\<lambda>n. (n, hexkey (K (at R n)))) nodes"
    by (induction nodes) auto
  let ?w2 = "faucetAll (the_client R) IJ (zip nodes ?pks) w1"
  have 2: "stores_to R A ?f w1 ?w2" unfolding zip by (rule faucetAll_online[OF ok1 assms(2,5)])
  note ok2 = stores_to_ok[OF 2 ok1]
  let ?b = "ij_register IJ raw"
  have raw: "map (\<lambda>(n, pk). \<lparr>wr_PubKey = pk, wr_Addr = na_P2PAddr n\<rparr>) (zip nodes ?pks) = raw"
    "map (\<lambda>(pk, addr). \<lparr>wr_PubKey = hexkey pk, wr_Addr = addr\<rparr>) ?ks = raw"
    unfolding zip assms(6) by simp_all
  let ?w3 = "registerAll (the_client R) ?b nodes ?w2"
  have 3: "stores_to R A (\<lambda>i L. L) ?w2 ?w3"
    "GetActiveSet (en_badger (ne_env (rg_NE R))) (en_wits (ne_env (rg_NE R))) (nd_db (wd_node ?w3 i)) t = Ok (K ` at R ` set nodes)"
    if "i \<in> at R ` set nodes" for i t
    using registerAll_online[OF ok2 assms(5), of ?b ?ks] assms(7,8) that raw(2) by (simp_all add: comp_def image_image)
  obtain n0 where "n0 \<in> set nodes" using assms(4) by (cases nodes) auto
  then have i0: "at R n0 \<in> at R ` set nodes" by simp
  note s3 = stores_to_trans[OF 2 3(1)[OF i0]]
  note ok3 = stores_to_ok[OF 3(1)[OF i0] ok2]
  obtain w4 where 4: "balanceLines (the_client R) IJ (zip nodes ?pks) ?w3
      = (map (\<lambda>n. (hexkey (K (at R n)), balance (led A (nd_db (wd_node ?w3 (at R n)))) (K (at R n)))) nodes, w4)" "wd_node w4 = wd_node ?w3"
    using balanceLines_online[OF ok3 assms(2,5)] unfolding zip by blast
  have bal: "balance (led A (nd_db (wd_node ?w3 (at R n)))) (K (at R n)) = initialBalance" if "n \<in> set nodes" for n
  proof -
    obtain db where "wd_node ?w3 (at R n) = set_db db (wd_node w1 (at R n))" "led A db = ?f (at R n) (led A (nd_db (wd_node w1 (at R n))))"
      using s3 unfolding stores_to_def by blast
    with that show ?thesis by (simp add: fund_def balance_def)
  qed
  have res: "r = Some (map (\<lambda>n. (hexkey (K (at R n)), balance (led A (nd_db (wd_node ?w3 (at R n)))) (K (at R n)))) nodes)" "w' = w4"
    using assms(9) 1(1) 4(1) assms(4) raw(1) by (simp_all add: init_main_def assms(3)[symmetric] Let_def)
  then show "r = Some (map (\<lambda>n. (hexkey (K (at R n)), initialBalance)) nodes)" using bal by simp
  show "stores_to R A ?f w w'" using s3 unfolding stores_to_def res(2) 4(2) 1(2) .
  show "GetActiveSet (en_badger (ne_env (rg_NE R))) (en_wits (ne_env (rg_NE R))) (nd_db (wd_node w' (at R n))) t
      = Ok (K ` at R ` set nodes)" if "n \<in> set nodes" for n t
    using 3(2)[of "at R n" t] that unfolding res(2) 4(2) by simp
qed


section \<open>The first payment\<close>

abbreviation net_of :: "'db world \<Rightarrow> 'db network" where
  "net_of w \<equiv> \<lparr>nw_node = wd_node w, nw_wire = (\<lambda>_. [])\<rparr>"

text \<open>When \<^verbatim>\<open>init.go\<close> has funded and registered four nodes, three of them connected to the first, with no
  record of its key yet, a payment that the first node's \<open>SendTx\<close> accepts can settle.\<close>

lemma localnet_runs:
  fixes w :: "'db world" and cx :: step_ctx
  assumes "reliable (ne_env (rg_NE R))" and "sets_ok (ne_env (rg_NE R))" and "ed25519_ok (en_crypto (ne_env (rg_NE R)))"
    and "\<forall>i. node_inv (rg_NE R) A (wd_node w i)" and "K = (\<lambda>i. node_key (wd_node w i))" and "inj_on K {0, 1, 2, 3}"
    and "\<forall>i \<in> {0, 1, 2, 3}. kp_wf (en_crypto (ne_env (rg_NE R))) (nd_kp (wd_node w i))"
    and "json_ok R IJ" and "nodes = init_loadAllNodes J dk" and "online R nodes" and "at R ` set nodes = {0, 1, 2, 3}"
    and "raw = map (\<lambda>n. \<lparr>wr_PubKey = hexkey (K (at R n)), wr_Addr = na_P2PAddr n\<rparr>) nodes"
    and "ae_witnessReq (rg_AE R) (ij_register IJ raw) = Inr raw"
    and "\<forall>c. codes (en_wits (ne_env (rg_NE R)))
      (map (\<lambda>n. \<lparr>w_PubKey = K (at R n), w_Addr = na_P2PAddr n, w_AddedAt = cx_now (rg_cx R c)\<rparr>) nodes)"
    and "init_main (the_client R) IJ J dk w = (r, w')"
    and "\<forall>k \<in> {1, 2, 3}. linked L (net_of w) (K 0) (p k) k (q k) \<and> chan (wd_node w 0) (p k) = []
      \<and> room 3 (wd_node w k) \<and> fwd 2 (wd_node w k) (tx_Hash tx)
      \<and> lg_bal (led A (nd_db (wd_node w k))) (K 0) = None \<and> lg_seq (led A (nd_db (wd_node w k))) (K 0) = 0
      \<and> SignAsWitness (en_crypto (ne_env (rg_NE R))) (nd_kp (wd_node w k)) (tx_Hash tx) 0 True = Ok (ws k)"
    and "inj_on p {1, 2, 3}" and "room 5 (wd_node w 0)" and "fwd 3 (wd_node w 0) (tx_Hash tx)"
    and "nonce_draw rnd" and "SendTx (rg_NE R) cx rnd (wd_node w' 0) to amt = (Ok tx, nd)" and "to \<noteq> K 0"
    and "faithful (rg_NE R) tx (payerSnapshot A (wd_node w' 0) (cx_now cx)) (ws ` {1, 2, 3})"
    and "unat (balance (led A (nd_db (wd_node w 0))) to) + unat amt \<le> unat MaxAmount"
  shows "r = Some (map (\<lambda>n. (hexkey (K (at R n)), initialBalance)) nodes)
    \<and> (\<exists>es s'. runs (net_step (rg_NE R) L) (net_of w') (Local 0 (Pay cx rnd to amt) # es @ [Local 0 (Confirm cx tx [ws 1, ws 2, ws 3])]) s'
         \<and> list_all transport es
         \<and> unat (balance (led A (nd_db (nw_node s' 0))) (K 0)) + cost tx = unat initialBalance
         \<and> unat (balance (led A (nd_db (nw_node s' 0))) to) = unat (balance (led A (nd_db (wd_node w 0))) to) + unat amt)"
proof -
  let ?NE = "rg_NE R" and ?E = "ne_env (rg_NE R)" and ?S = "K ` at R ` set nodes"
  have w: "world_ok R A K w"
    using assms(1,2,4,5) reliable_reads by (auto simp: world_ok_def node_inv_def)
  have ne: "nodes \<noteq> []" using assms(11) by auto
  note i = init_online[OF w assms(8,9) ne assms(10,12-15)]
  have db: "\<exists>db. wd_node w' j = set_db db (wd_node w j) \<and> store_ok ?E A db
      \<and> led A db = (if j \<in> {0, 1, 2, 3} then fund (K j) initialBalance (led A (nd_db (wd_node w j))) else led A (nd_db (wd_node w j)))" for j
    using i(2) unfolding stores_to_def assms(11) by blast
  have same: "nd_kp (wd_node w' j) = nd_kp (wd_node w j)" "nd_peers (wd_node w' j) = nd_peers (wd_node w j)"
    "chan (wd_node w' j) m = chan (wd_node w j) m" "room n (wd_node w' j) = room n (wd_node w j)"
    "fwd n (wd_node w' j) h = fwd n (wd_node w j) h" for j m n h
    using db[of j] by (auto simp: fwd_def)
  have led: "led A (nd_db (wd_node w' j)) = fund (K j) initialBalance (led A (nd_db (wd_node w j)))" if "j \<in> {0, 1, 2, 3}" for j
    using db[of j] that by auto
  have act: "GetActiveSet (en_badger ?E) (en_wits ?E) (nd_db (wd_node w' j)) t = Ok ?S" if "j \<in> {0, 1, 2, 3}" for j t
    using that i(3) unfolding assms(11)[symmetric] by blast
  have inv: "net_inv ?NE A (net_of w')"
    unfolding net_inv_def
  proof
    fix j
    obtain d where d: "wd_node w' j = set_db d (wd_node w j)" "store_ok ?E A d" using db[of j] by blast
    have "node_ok ?E A (wd_node w j)" "no_edges (wd_node w j)" using assms(4) by (simp_all add: node_inv_def)
    from node_ok_db[OF this(1) d(2)] this(2) show "node_inv ?NE A (nw_node (net_of w') j)" by (simp add: node_inv_def d(1))
  qed
  have wit: "linked L (net_of w') (node_key (wd_node w' 0)) (p k) k (q k) \<and> chan (wd_node w' 0) (p k) = []
      \<and> ready ?NE A (cx_now cx) ?S tx (payerSnapshot A (wd_node w' 0) (cx_now cx)) (wd_node w' k)
      \<and> SignAsWitness (en_crypto ?E) (nd_kp (wd_node w' k)) (tx_Hash tx) 0 True = Ok (ws k)" if "k \<in> {1, 2, 3}" for k
  proof -
    have k4: "k \<in> {0, 1, 2, 3}" "0 \<in> {0, 1, 2, 3 :: nat}" "k \<noteq> 0" using that by auto
    note a = bspec[OF assms(16) that]
    have "K k \<noteq> K 0" using inj_onD[OF assms(6), of k 0] k4 by blast
    then have fresh: "lg_bal (led A (nd_db (wd_node w' k))) (K 0) = None" "lg_seq (led A (nd_db (wd_node w' k))) (K 0) = 0"
      using a led[OF k4(1)] by (simp_all add: fund_def)
    have sender: "tx_From tx = K 0"
      using SendTx_effect[OF _ assms(3) _ assms(21)] inv assms(7) same(1)[of 0] assms(5)
      by (auto simp: net_inv_def node_inv_def)
    have "K k \<in> ?S" using k4 unfolding assms(11) by blast
    with a fresh act[OF k4(1)] sender bspec[OF assms(7) k4(1)] k4(3) show ?thesis
      by (simp add: linked_def ready_def same assms(5))
  qed
  have k0: "node_key (wd_node w' 0) = K 0" by (simp add: same assms(5))
  have b0: "balance (led A (nd_db (wd_node w' 0))) (K 0) = initialBalance"
    "balance (led A (nd_db (wd_node w' 0))) to = balance (led A (nd_db (wd_node w 0))) to"
    using led[of 0] assms(22) by (simp_all add: fund_def balance_def)
  have "\<exists>es s'. runs (net_step ?NE L) (net_of w') (Local 0 (Pay cx rnd to amt) # es @ [Local 0 (Confirm cx tx [ws 1, ws 2, ws 3])]) s'
    \<and> list_all transport es
    \<and> unat (balance (led A (nd_db (nw_node s' 0))) (node_key (nw_node (net_of w') 0))) + cost tx
        = unat (balance (led A (nd_db (nw_node (net_of w') 0))) (node_key (nw_node (net_of w') 0)))
    \<and> unat (balance (led A (nd_db (nw_node s' 0))) to) = unat (balance (led A (nd_db (nw_node (net_of w') 0))) to) + unat amt"
  proof (rule payment_runs[OF inv assms(1,3) _ assms(20) _ _ refl _ assms(17), where q = q and S = ?S and nd = nd])
    show "kp_wf (en_crypto ?E) (nd_kp (nw_node (net_of w') 0))" using assms(7) same(1)[of 0] by simp
    show "inj_on (\<lambda>k. node_key (nw_node (net_of w') k)) {1, 2, 3}"
      using assms(5,6) same(1) by (auto simp: inj_on_def)
  qed (use wit assms(18,19,21-24) same(4,5) act[of 0] k0 b0(2) in \<open>simp_all\<close>)
  with i(1) k0 b0 show ?thesis by simp
qed

end
