(* ===== verification/CliRun.thy ===== *)
theory CliRun
  imports Bootstrap
begin

text \<open>
  The command line client against the nodes: what its commands do over HTTP to the node they reach, and
  what they print of it.
\<close>

section \<open>Requests of the client\<close>

abbreviation cdml :: "('db, 'txn) rig \<Rightarrow> 'db world client" where
  "cdml R \<equiv> cli_client (api_transport R)"

lemma cli_call:
  assumes "listens R n i"
  shows "cl_get (cdml R) w (base_of n @ CHR ''/'' # path) =
      (case call R w i \<lparr>rq_Method = ''GET'', rq_Path = splitSlash path, rq_Body = []\<rparr> of
         (Inl e, w') \<Rightarrow> (Inl e, w') | (Inr r, w') \<Rightarrow> (hr_Body r, w'))"
    and "cl_post (cdml R) w (base_of n @ CHR ''/'' # path) b =
      (case call R w i \<lparr>rq_Method = ''POST'', rq_Path = splitSlash path, rq_Body = b\<rparr> of
         (Inl e, w') \<Rightarrow> (Inl e, w') | (Inr r, w') \<Rightarrow> (hr_Body r, w'))"
  using fetch_call[OF assms] by (simp_all add: cli_client_def cli_get_def cli_post_def)

definition tx_resp :: "transaction \<Rightarrow> response" where
  "tx_resp tx = respond 202 (JObj [(''tx_hash'', JStr (hexkey (tx_Hash tx))), (''seq'', JNum (tx_Sequence tx)),
     (''nonce'', JNum (tx_Nonce tx))])"

text \<open>What the client needs of the JSON text; an error has none of the fields of a balance.\<close>

definition cli_json_ok :: "('db, 'txn) rig \<Rightarrow> cli_json \<Rightarrow> bool" where
  "cli_json_ok R CJ \<longleftrightarrow>
     (\<forall>nd :: 'db node. fst (cj_status CJ (rg_enc R (answered (Status nd)))) = hexkey (node_key nd))
     \<and> (\<forall>pk bal seq. cj_balance CJ (rg_enc R (answered (balance_resp pk bal seq))) = (bal, seq))
     \<and> (\<forall>st code msg. fst (cj_error CJ (rg_enc R (answered (httpErr st code msg)))) = code
          \<and> cj_balance CJ (rg_enc R (answered (httpErr st code msg))) = (0, 0))
     \<and> (\<forall>tx. fst (cj_error CJ (rg_enc R (answered (tx_resp tx)))) = []
          \<and> cj_sent CJ (rg_enc R (answered (tx_resp tx))) = (hexkey (tx_Hash tx), tx_Sequence tx))
     \<and> (\<forall>to amt. ae_sendReq (rg_AE R) (cj_sendBody CJ to amt) = Inr \<lparr>sr_To = to, sr_Amount = amt\<rparr>)"

section \<open>Balances\<close>

text \<open>The line of a key shows the balance and the sequence that the node's ledger has of it.\<close>

theorem cmdBalance_reports:
  assumes "world_ok R A K w" and "listens R n i" and "cli_json_ok R CJ"
    and "L = led A (nd_db (wd_node w i))"
  shows "\<exists>w'. cmdBalance (cdml R) CJ (base_of n) (hexkey pk) w
      = ([PBalance (hexkey pk) (balance L pk) (microToCDML (balance L pk)) (lg_seq L pk)], w') \<and> wd_node w' = wd_node w"
proof -
  have ok: "node_ok (ne_env (rg_NE R)) A (wd_node w i)" "reads_ok (ne_env (rg_NE R))" using assms(1) by (simp_all add: world_ok_def)
  have sp: "splitSlash (''v1/balance/'' @ hexkey pk) = [''v1'', ''balance'', hexkey pk]"
    using splitSlash_piece(2)[OF hex_no_slash] by simp
  show ?thesis
    using cli_call(1)[OF assms(2), of w "''v1/balance/'' @ hexkey pk"] serve_balance[OF ok] assms(3,4)
    unfolding sp by (simp add: cmdBalance_def call_def cli_json_ok_def)
qed

text \<open>For a text that is no key the node answers 400, and the client, which does not look at the status,
  shows a balance of 0.\<close>

theorem cmdBalance_hides_errors:
  assumes "listens R n i" and "cli_json_ok R CJ" and "PubKeyFromHex pk = Err e" and "pk \<noteq> []" and "CHR ''/'' \<notin> set pk"
  shows "\<exists>w'. cmdBalance (cdml R) CJ (base_of n) pk w = ([PBalance pk 0 ''0'' 0], w') \<and> wd_node w' = wd_node w"
proof -
  have sp: "splitSlash (''v1/balance/'' @ pk) = [''v1'', ''balance'', pk]"
    using splitSlash_piece(2)[OF assms(5)] by simp
  have "serve NE AE cx rnd nd \<lparr>rq_Method = ''GET'', rq_Path = [''v1'', ''balance'', pk], rq_Body = []\<rparr>
      = (Ok (answered (invalid_pubkey e)), nd)" for NE :: "('a, 'b) net_env" and AE cx rnd nd
    by (rule serve_found[OF _ mux_balance[OF assms(4)]])
      (simp_all add: dispatch_def mux_balance[OF assms(4)] Balance_def orElse_def assms(3))
  moreover have "microToCDML 0 = ''0''" by (simp add: microToCDML_def digits.simps[of 0] digit_char_def char_of_eq_iff)
  ultimately show ?thesis
    using cli_call(1)[OF assms(1), of w "''v1/balance/'' @ pk"] assms(2)
    unfolding sp by (simp add: cmdBalance_def call_def cli_json_ok_def)
qed

section \<open>Payments\<close>

text \<open>The command \<open>send\<close> is one call of \<open>SendTx\<close> on the node it reaches.\<close>

lemma cmdSend_call:
  assumes "listens R n i" and "cli_json_ok R CJ" and "c = Suc (wd_calls w)" and "PubKeyFromHex ts = Ok to"
    and "SendTx (rg_NE R) (rg_cx R c) (rg_rnd R c) (wd_node w i) to amt = (r, nd)"
    and "cmdSend (cdml R) CJ (base_of n) ts amt w = (out, w')"
  shows "wd_node w' = (wd_node w)(i := nd)
    \<and> (\<exists>msg. out = [PSending (hexkey (node_key (wd_node w i))) ts amt (microToCDML amt),
         case r of Ok tx \<Rightarrow> PSent (hexkey (tx_Hash tx)) (tx_Sequence tx) | Err e \<Rightarrow> PApiError ''TX_FAILED'' msg | _ \<Rightarrow> PFatal ''send''])"
proof -
  let ?w1 = "w\<lparr>wd_calls := c\<rparr>" and ?b = "cj_sendBody CJ ts amt"
  have sp: "splitSlash ''v1/status'' = [''v1'', ''status'']" "splitSlash ''v1/tx'' = [''v1'', ''tx'']" by simp_all
  have g: "cl_get (cdml R) w (base_of n @ ''/v1/status'') = (Inr (rg_enc R (answered (Status (wd_node w i)))), ?w1)"
    using cli_call(1)[OF assms(1), of w "''v1/status''"] unfolding sp by (simp add: call_def serve_status assms(3))
  have d: "dispatch (rg_NE R) (rg_AE R) (rg_cx R c) (rg_rnd R c) (wd_node w i) \<lparr>rq_Method = ''POST'', rq_Path = [''v1'', ''tx''], rq_Body = ?b\<rparr>
      = (case r of Ok tx \<Rightarrow> Ok (tx_resp tx) | Err e \<Rightarrow> Ok (httpErr 400 ''TX_FAILED'' (JErrText e)) | Panic \<Rightarrow> Panic | Blocked \<Rightarrow> Blocked, nd)"
    using assms(2,4,5) by (simp add: dispatch_def mux_post api_SendTx_def orElse_def cli_json_ok_def tx_resp_def split: outcome.split)
  have p: "cl_post (cdml R) ?w1 (base_of n @ ''/v1/tx'') ?b = (case r of Ok tx \<Rightarrow> Inr (rg_enc R (answered (tx_resp tx)))
      | Err e \<Rightarrow> Inr (rg_enc R (answered (httpErr 400 ''TX_FAILED'' (JErrText e)))) | _ \<Rightarrow> Inl (LibError ''EOF''),
      \<lparr>wd_node = (wd_node w)(i := nd), wd_calls = c + 1\<rparr>)"
    using cli_call(2)[OF assms(1), of ?w1 "''v1/tx''" ?b] d unfolding sp
    by (simp add: call_def serve_def answered_def split: outcome.split)
  from g p assms(2,6) show ?thesis
    by (cases r) (auto simp: cmdSend_def cli_json_ok_def case_prod_unfold Let_def)
qed

section \<open>A payment from the command line\<close>

text \<open>The client reads one field of the configuration files that \<^verbatim>\<open>init.go\<close> reads.\<close>

definition api_addr :: "(bytes \<Rightarrow> error + node_addrs) \<Rightarrow> bytes \<Rightarrow> error + string" where
  "api_addr J b = map_sum id na_APIAddr (J b)"

lemma first_node:
  assumes "nodes = init_loadAllNodes J dk" and "nodes \<noteq> []" and "na_APIAddr (hd nodes) \<noteq> []"
  shows "loadAPIAddr (api_addr J) dk ''testnet'' 1 = Ok (na_APIAddr (hd nodes))"
proof -
  have unfold: "loadNodes l i 20 = (case l i of Ok a \<Rightarrow> (i, a) # loadNodes l (Suc i) 19 | _ \<Rightarrow> [])" for l :: "nat \<Rightarrow> node_addrs result" and i
    using loadNodes.simps(2)[of l i 19] by simp
  obtain a where a: "loadNodeConfig J dk 1 = Ok a" "hd nodes = a"
    using assms(1,2) by (auto simp: init_loadAllNodes_def unfold split: outcome.splits)
  have "''testnet'' @ ''/node'' @ int_digits 1 @ ''/config.json'' = configPath 1"
    by (simp add: configPath_def nodeDir_def int_digits_def)
  with a assms(3) show ?thesis
    by (auto simp: loadAPIAddr_def loadNodeConfig_def api_addr_def split: sum.splits)
qed

lemma send_command:
  assumes "nodes = init_loadAllNodes J dk" and "nodes \<noteq> []" and "na_APIAddr (hd nodes) \<noteq> []"
  shows "cli_main cl CJ (api_addr J) atoi dk [''send'', to, digits (unat amt)] s = cmdSend cl CJ (base_of (hd nodes)) to amt s"
  using first_node[OF assms] by (simp add: cli_main_def runCommand_def defaultFlags_def base_of_def ParseUint_print)

lemma cmdSend_invalid:
  assumes "listens R n i" and "cli_json_ok R CJ" and "PubKeyFromHex to = Err e" and "cmdSend (cdml R) CJ (base_of n) to amt w = (out, w')"
  shows "wd_node w' = wd_node w
    \<and> (\<exists>msg. out = [PSending (hexkey (node_key (wd_node w i))) to amt (microToCDML amt), PApiError ''INVALID_PUBKEY'' msg])"
proof -
  let ?c = "Suc (wd_calls w)" and ?b = "cj_sendBody CJ to amt"
  let ?w1 = "w\<lparr>wd_calls := ?c\<rparr>"
  have sp: "splitSlash ''v1/status'' = [''v1'', ''status'']" "splitSlash ''v1/tx'' = [''v1'', ''tx'']" by simp_all
  have g: "cl_get (cdml R) w (base_of n @ ''/v1/status'') = (Inr (rg_enc R (answered (Status (wd_node w i)))), ?w1)"
    using cli_call(1)[OF assms(1), of w "''v1/status''"] unfolding sp by (simp add: call_def serve_status)
  have "serve (rg_NE R) (rg_AE R) (rg_cx R ?c) (rg_rnd R ?c) (wd_node w i) \<lparr>rq_Method = ''POST'', rq_Path = [''v1'', ''tx''], rq_Body = ?b\<rparr>
      = (Ok (answered (invalid_pubkey e)), wd_node w i)"
    by (rule serve_found[OF _ mux_post(3)])
      (use assms(2,3) in \<open>simp_all add: dispatch_def mux_post api_SendTx_def orElse_def cli_json_ok_def\<close>)
  then have p: "cl_post (cdml R) ?w1 (base_of n @ ''/v1/tx'') ?b
      = (Inr (rg_enc R (answered (invalid_pubkey e))), \<lparr>wd_node = wd_node w, wd_calls = ?c + 1\<rparr>)"
    using cli_call(2)[OF assms(1), of ?w1 "''v1/tx''" ?b] unfolding sp by (simp add: call_def)
  from g p assms(2,4) show ?thesis by (auto simp: cmdSend_def cli_json_ok_def case_prod_unfold Let_def)
qed

text \<open>C37. The command \<^verbatim>\<open>send\<close> of the client is one call of \<open>SendTx\<close> on the first node: it stops over an amount that
  is no 64-bit number before any request; a receiver that is no key in hex gives the error
  INVALID_PUBKEY and leaves the node as it is; otherwise the node is left as \<open>SendTx\<close> leaves it, and
  printed are the hash and the sequence of the transaction that it returns, or its failure.\<close>

theorem send_command_refines:
  assumes "nodes = init_loadAllNodes J dk" and "nodes \<noteq> []" and "na_APIAddr (hd nodes) \<noteq> []"
    and "listens R (hd nodes) i" and "cli_json_ok R CJ" and "c = Suc (wd_calls w)"
    and "cli_main (cdml R) CJ (api_addr J) atoi dk [''send'', to, amt] w = (out, w')"
    and "line = (\<lambda>v. PSending (hexkey (node_key (wd_node w i))) to v (microToCDML v))"
  shows "case ParseUint amt of
      (_, Some e) \<Rightarrow> out = [PFatal ''amount''] \<and> w' = w
    | (v, None) \<Rightarrow>
        (case PubKeyFromHex to of
           Ok pk \<Rightarrow>
             (case SendTx (rg_NE R) (rg_cx R c) (rg_rnd R c) (wd_node w i) pk v of
                (r, nd) \<Rightarrow> wd_node w' = (wd_node w)(i := nd)
                  \<and> (\<exists>msg. out = [line v, case r of Ok tx \<Rightarrow> PSent (hexkey (tx_Hash tx)) (tx_Sequence tx)
                       | Err e \<Rightarrow> PApiError ''TX_FAILED'' msg | _ \<Rightarrow> PFatal ''send'']))
         | Err e \<Rightarrow> wd_node w' = wd_node w \<and> (\<exists>msg. out = [line v, PApiError ''INVALID_PUBKEY'' msg])
         | _ \<Rightarrow> False)"
proof -
  obtain v e where p: "ParseUint amt = (v, e)" by (metis prod.collapse)
  have m: "cli_main (cdml R) CJ (api_addr J) atoi dk [''send'', to, amt] w
      = (case e of Some _ \<Rightarrow> ([PFatal ''amount''], w) | None \<Rightarrow> cmdSend (cdml R) CJ (base_of (hd nodes)) to v w)"
    using first_node[OF assms(1-3)] p by (simp add: cli_main_def runCommand_def defaultFlags_def base_of_def split: option.split)
  show ?thesis
  proof (cases e)
    case (Some e')
    with m assms(7) p show ?thesis by simp
  next
    case None
    with m assms(7) have s: "cmdSend (cdml R) CJ (base_of (hd nodes)) to v w = (out, w')" by simp
    show ?thesis
    proof (cases "PubKeyFromHex to")
      case (Ok pk)
      obtain r nd where t: "SendTx (rg_NE R) (rg_cx R c) (rg_rnd R c) (wd_node w i) pk v = (r, nd)" by (metis prod.collapse)
      from cmdSend_call[OF assms(4-6) Ok t s] Ok t None p show ?thesis by (simp add: assms(8))
    next
      case (Err e')
      from cmdSend_invalid[OF assms(4,5) Err s] Err None p show ?thesis by (simp add: assms(8))
    qed (simp_all add: PubKeyFromHex_def split: option.splits if_splits)
  qed
qed

text \<open>A step of a payment is determined by what \<open>SendTx\<close> returns.\<close>

lemma pay_step:
  assumes "runs (net_step NE L) s (Local n (Pay cx rnd to amt) # es) s'" and "SendTx NE cx rnd (nw_node s n) to amt = (r, nd)"
  shows "runs (net_step NE L) (put_node n nd s) es s'"
proof -
  obtain s1 where s1: "net_step NE L s (Local n (Pay cx rnd to amt)) s1" "runs (net_step NE L) s1 es s'"
    using assms(1) unfolding runs_Cons by blast
  from s1(1) assms(2) have "s1 = put_node n nd s" by (auto elim!: net_stepE node_stepE)
  with s1(2) show ?thesis by simp
qed


end
