(* ===== verification/LocalnetSamples.thy ===== *)
theory LocalnetSamples
  imports CliRun
begin

text \<open>
  Four nodes with empty databases, their configuration files, and \<^verbatim>\<open>init.go\<close> run on them: the properties of
  \<open>Bootstrap\<close> and \<open>CliRun\<close> applied to a concrete local network.
\<close>

section \<open>The files\<close>

definition four_nodes :: "node_addrs list" where
  "four_nodes = map (\<lambda>c. \<lparr>na_APIAddr = [c], na_P2PAddr = [c, CHR ''p'']\<rparr>) ''abcd''"

definition four_disk :: disk where
  "four_disk = \<lparr>dk_files = [configPath 1 \<mapsto> [0], configPath 2 \<mapsto> [1], configPath 3 \<mapsto> [2], configPath 4 \<mapsto> [3]],
     dk_readable = (\<lambda>_. True), dk_writable = (\<lambda>_. True)\<rparr>"

definition read_config :: "bytes \<Rightarrow> error + node_addrs" where
  "read_config b = Inr (four_nodes ! unat (hd b))"

lemma four_loaded: "init_loadAllNodes read_config four_disk = four_nodes"
proof -
  have load: "loadNodeConfig read_config four_disk 1 = Ok (four_nodes ! 0)" "loadNodeConfig read_config four_disk 2 = Ok (four_nodes ! 1)"
    "loadNodeConfig read_config four_disk 3 = Ok (four_nodes ! 2)" "loadNodeConfig read_config four_disk 4 = Ok (four_nodes ! 3)"
    "\<exists>e. loadNodeConfig read_config four_disk 5 = Err e"
    by (simp_all add: loadNodeConfig_def four_disk_def ReadFile_def read_config_def)
  have u: "loadNodes l i (Suc k) = (case l i of Ok a \<Rightarrow> (i, a) # loadNodes l (Suc i) k | _ \<Rightarrow> [])" for l :: "nat \<Rightarrow> node_addrs result" and i k
    by (simp split: outcome.split)
  have n: "20 = Suc (Suc (Suc (Suc (Suc 15))))" by simp
  have s: "Suc 1 = 2" "Suc 2 = 3" "Suc 3 = 4" "Suc 4 = 5" by simp_all
  have "loadNodes (loadNodeConfig read_config four_disk) 1 20
      = [(1, four_nodes ! 0), (2, four_nodes ! 1), (3, four_nodes ! 2), (4, four_nodes ! 3)]"
    unfolding n u load(1) outcome.case s load(2) load(3) load(4) using load(5) by auto
  then show ?thesis by (simp add: init_loadAllNodes_def four_nodes_def)
qed

section \<open>The nodes\<close>

definition four_raw :: "witness_req list" where
  "four_raw = map (\<lambda>(i, n). \<lparr>wr_PubKey = hexkey (kp_Public (net_kp i)), wr_Addr = na_P2PAddr n\<rparr>) (enumerate 0 four_nodes)"

definition four_wits :: "witness list" where
  "four_wits = map (\<lambda>(i, n). \<lparr>w_PubKey = kp_Public (net_kp i), w_Addr = na_P2PAddr n, w_AddedAt = 0\<rparr>) (enumerate 0 four_nodes)"

definition four_env :: "(mem, mem \<times> gtime) env" where
  "four_env = sample_env\<lparr>en_wits := \<lparr>marshal = (\<lambda>_. Inr [1]), unmarshal = (\<lambda>_. Inr four_wits)\<rparr>\<rparr>"

definition four_net :: "transaction \<Rightarrow> snapshot \<Rightarrow> (nat \<Rightarrow> witness_signature) \<Rightarrow> (mem, mem \<times> gtime) net_env" where
  "four_net tx sn ws = (pay_net tx sn ws)\<lparr>ne_env := four_env\<rparr>"

lemma four_env_sel [simp]:
  "en_badger four_env = mem_badger" "en_crypto four_env = sample_crypto" "ne_env (four_net tx sn ws) = four_env"
  by (simp_all add: four_env_def four_net_def)

lemma four_reliable: "reliable four_env"
  using mem_reliable[of no_sigs] by (simp add: reliable_def reads_ok_def four_env_def sample_net_def)

lemma four_sets: "sets_ok four_env"
  by (simp add: sets_ok_def DB_Set_def) (simp add: mem_badger_def)

lemma four_faithful: "faithful (four_net tx sn ws) tx sn (ws ` {1, 2, 3})"
  using pay_net_faithful[of tx sn ws]
  by (simp add: faithful_def readable_def four_net_def lockPacket_def verifyPacket_def sigPacket_def)

text \<open>The fields of the JSON texts that the scripts read: the kind of the object, two numbers and the text
  of the first field.\<close>

definition num_field :: "(string \<times> json) list \<Rightarrow> string \<Rightarrow> u64" where
  "num_field fs k = (case map_of fs k of Some (JNum n) \<Rightarrow> n | _ \<Rightarrow> 0)"

definition first_text :: "(string \<times> json) list \<Rightarrow> string" where
  "first_text fs = (case fs of (_, JStr s) # _ \<Rightarrow> s | _ \<Rightarrow> [])"

definition four_enc :: "response \<Rightarrow> bytes" where
  "four_enc r = (case rs_Body r of
     Some (JObj fs) \<Rightarrow> (if map_of fs ''code'' = None then 0 else 1)
       # PutUint64 (num_field fs ''balance'') @ PutUint64 (num_field fs ''seq'') @ str_bytes (first_text fs)
   | _ \<Rightarrow> [])"

definition bytes_str :: "bytes \<Rightarrow> string" where
  "bytes_str b = map (char_of \<circ> unat) b"

lemma bytes_str_inverse [simp]: "bytes_str (str_bytes s) = s"
proof -
  have "char_of (unat (of_char c :: 8 word)) = c" for c
  proof -
    have "unat (of_char c :: 8 word) = of_char c"
      using unat_of_nat[of "of_char c", where 'a = 8] by (simp add: of_nat_of_char)
    then show ?thesis by simp
  qed
  then show ?thesis by (simp add: bytes_str_def str_bytes_def map_idI)
qed

definition balance_of :: "bytes \<Rightarrow> u64" where
  "balance_of b = be_word (take 8 (tl b))"

definition seq_of :: "bytes \<Rightarrow> u64" where
  "seq_of b = be_word (take 8 (drop 9 b))"

definition text_of :: "bytes \<Rightarrow> string" where
  "text_of b = bytes_str (drop 17 b)"

definition four_json :: init_json where
  "four_json = \<lparr>ij_pubkey = text_of, ij_balance = balance_of, ij_faucet = (\<lambda>pk _. str_bytes pk), ij_register = (\<lambda>_. [2])\<rparr>"

definition four_cli :: cli_json where
  "four_cli = \<lparr>cj_status = (\<lambda>b. (text_of b, 0)), cj_balance = (\<lambda>b. (balance_of b, seq_of b)),
     cj_error = (\<lambda>b. (if hd b = 1 then text_of b else [], [])), cj_sent = (\<lambda>b. (text_of b, seq_of b)),
     cj_peers = (\<lambda>_. (0, [])), cj_faucet = (\<lambda>b. (balance_of b, 0)),
     cj_sendBody = (\<lambda>to amt. PutUint64 amt @ str_bytes to), cj_faucetBody = (\<lambda>pk _. str_bytes pk)\<rparr>"

definition four_rig :: "(mem, mem \<times> gtime) net_env \<Rightarrow> (mem, mem \<times> gtime) rig" where
  "four_rig NE = \<lparr>rg_NE = NE,
     rg_AE = \<lparr>ae_sendReq = (\<lambda>b. Inr \<lparr>sr_To = bytes_str (drop 8 b), sr_Amount = be_word (take 8 b)\<rparr>),
       ae_faucetReq = (\<lambda>b. Inr \<lparr>fr_PubKey = bytes_str b, fr_Amount = initialBalance\<rparr>), ae_witnessReq = (\<lambda>_. Inr four_raw)\<rparr>,
     rg_enc = four_enc, rg_dns = map_of (zip (map na_APIAddr four_nodes) [0, 1, 2, 3]),
     rg_cx = (\<lambda>_. sample_cx), rg_rnd = (\<lambda>_. Inr (PutUint64 42))\<rparr>"

definition four_world :: "mem world" where
  "four_world = \<lparr>wd_node = node_over [], wd_calls = 0\<rparr>"

lemma four_rig_sel [simp]: "rg_NE (four_rig NE) = NE" "rg_cx (four_rig NE) c = sample_cx" "rg_rnd (four_rig NE) c = Inr (PutUint64 42)"
  by (simp_all add: four_rig_def)

lemma four_enc_obj:
  assumes "rs_Body r = Some (JObj fs)"
  shows "balance_of (four_enc (answered r)) = num_field fs ''balance''" and "seq_of (four_enc (answered r)) = num_field fs ''seq''"
    and "text_of (four_enc (answered r)) = first_text fs"
    and "hd (four_enc (answered r)) = 1 \<longleftrightarrow> map_of fs ''code'' \<noteq> None"
  using assms by (auto simp: four_enc_def answered_def balance_of_def seq_of_def text_of_def)

lemma four_json_ok: "json_ok (four_rig NE) four_json"
  by (simp add: json_ok_def four_rig_def four_json_def)
    (simp add: four_enc_obj Status_def balance_resp_def respond_def first_text_def num_field_def)

lemma four_cli_ok: "cli_json_ok (four_rig NE) four_cli"
  by (simp add: cli_json_ok_def four_rig_def four_cli_def)
    (simp add: four_enc_obj Status_def balance_resp_def respond_def httpErr_def tx_resp_def first_text_def num_field_def)

lemma four_at: "map (at (four_rig NE)) four_nodes = [0, 1, 2, 3]"
  by (simp add: at_def four_rig_def four_nodes_def)

lemma four_online: "online (four_rig NE) four_nodes"
  by (simp add: listens_def at_def four_rig_def four_nodes_def)

lemma four_lists:
  assumes "K = (\<lambda>i. kp_Public (net_kp i))"
  shows "four_raw = map (\<lambda>n. \<lparr>wr_PubKey = hexkey (K (at (four_rig NE) n)), wr_Addr = na_P2PAddr n\<rparr>) four_nodes"
    and "four_wits = map (\<lambda>n. \<lparr>w_PubKey = K (at (four_rig NE) n), w_Addr = na_P2PAddr n, w_AddedAt = 0\<rparr>) four_nodes"
  by (simp_all add: assms four_raw_def four_wits_def at_def four_rig_def four_nodes_def numeral_2_eq_2 numeral_3_eq_3)

lemma empty_store: "store_ok four_env mem_abs []"
  using mem_badger_ok by (simp add: mem_abs_def chain_wf_def cell_ok_def)

lemma four_inv: "ne_env NE = four_env \<Longrightarrow> node_inv NE mem_abs (wd_node four_world i)"
  using node_over_inv[of NE "[]" i] empty_store by (simp add: four_world_def)

lemma empty_led: "lg_bal (led mem_abs []) pk = None" "lg_seq (led mem_abs []) pk = 0"
  by (simp_all add: ledger_of_def mem_abs_def cell_def)

abbreviation four_keys :: "nat \<Rightarrow> pubkey" where
  "four_keys \<equiv> \<lambda>i. kp_Public (net_kp i)"

lemma four_world_ok: "ne_env NE = four_env \<Longrightarrow> world_ok (four_rig NE) mem_abs four_keys four_world"
  using four_inv[of NE] four_reliable four_sets
  by (simp add: world_ok_def node_inv_def reliable_reads) (simp add: four_world_def)

lemma four_registered:
  "ae_witnessReq (rg_AE (four_rig NE)) b = Inr four_raw"
  "codes (en_wits four_env) four_wits"
  by (simp_all add: four_rig_def codes_def four_env_def)

lemma four_coded:
  assumes "ne_env NE = four_env"
  shows "\<forall>c. codes (en_wits (ne_env (rg_NE (four_rig NE))))
    (map (\<lambda>n. \<lparr>w_PubKey = four_keys (at (four_rig NE) n), w_Addr = na_P2PAddr n, w_AddedAt = cx_now (rg_cx (four_rig NE) c)\<rparr>) four_nodes)"
  unfolding four_rig_sel assms step_ctx.select_convs four_lists(2)[OF refl, of NE, symmetric] using four_registered(2) by simp

lemma four_at_set: "at (four_rig NE) ` set four_nodes = {0, 1, 2, 3}"
  using arg_cong[OF four_at[of NE], of set] by simp


lemma four_lines:
  "map (\<lambda>n. (hexkey (four_keys (at (four_rig NE) n)), v)) four_nodes = map (\<lambda>i. (hexkey (four_keys i), v)) [0, 1, 2, 3]"
  unfolding four_at[of NE, symmetric] map_map comp_def ..

lemma four_keys_inj: "inj_on four_keys {0, 1, 2, 3}"
proof -
  have "four_keys 0 = kp_Public (sample_kp 7)" by (simp add: net_kp_def sample_key_def sample_kp_def)
  then show ?thesis by (simp add: net_kp_def sample_kp_public be_word_def)
qed

section \<open>The script\<close>


section \<open>A command without the script\<close>

text \<open>Without \<^verbatim>\<open>init.go\<close> the first node has no balance, and \<open>send\<close> prints why it failed.\<close>

theorem send_command_refines_witness:
  "\<exists>msg w'. cli_main (cdml (four_rig ((sample_net no_sigs)\<lparr>ne_env := four_env\<rparr>))) four_cli (api_addr read_config) (\<lambda>_. None)
      four_disk [''send'', hexkey 5, digits 1000] four_world
      = ([PSending (hexkey payer_key) (hexkey 5) 1000 (microToCDML 1000), PApiError ''TX_FAILED'' msg], w')
    \<and> wd_node w' = wd_node four_world"
proof -
  let ?NE = "(sample_net no_sigs)\<lparr>ne_env := four_env\<rparr>"
  let ?R = "four_rig ?NE" and ?nd = "node_over [] 0"
  obtain out w' where c: "cli_main (cdml ?R) four_cli (api_addr read_config) (\<lambda>_. None) four_disk [''send'', hexkey 5, digits 1000] four_world
      = (out, w')" by (metis prod.collapse)
  have ne: "four_nodes \<noteq> []" and addr: "na_APIAddr (hd four_nodes) \<noteq> []" by (simp_all add: four_nodes_def)
  have "hd four_nodes \<in> set four_nodes" "at ?R (hd four_nodes) = 0"
    using four_at[of ?NE] by (simp_all add: four_nodes_def)
  with four_online[of ?NE] have l: "listens ?R (hd four_nodes) 0" by metis
  have "balance (led mem_abs (nd_db ?nd)) payer_key = 0" by (simp add: balance_def empty_led)
  then have "GetBalance mem_badger (nd_db ?nd) 0 payer_key = Ok 0"
    using reads_balance(1)[OF reliable_reads[OF four_reliable], of mem_abs "[]" 0 payer_key] empty_store by simp
  then have "BuildTx four_env (nd_tp ?nd) 0 (Inr (PutUint64 42)) sample_key 5 1000 = Err ErrTxInsufficientBal"
    by (simp add: BuildTx_def ValidateAmount_def SafeAdd_def BondAmount_def calcBond_def bondDivisor_def MaxAmount_def)
  then have t: "SendTx ?NE sample_cx (Inr (PutUint64 42)) ?nd 5 1000 = (Err ErrTxInsufficientBal, ?nd)"
    by (simp add: SendTx_def net_kp_def)
  have p: "ParseUint (digits 1000) = (1000, None)" using ParseUint_print[of 1000] by simp
  have n: "wd_node four_world 0 = ?nd" "node_key ?nd = payer_key" by (simp_all add: four_world_def net_kps(2))
  from send_command_refines[OF four_loaded[symmetric] ne addr l four_cli_ok refl c refl]
  obtain msg where "wd_node w' = (wd_node four_world)(0 := ?nd)"
    "out = [PSending (hexkey payer_key) (hexkey 5) 1000 (microToCDML 1000), PApiError ''TX_FAILED'' msg]"
    unfolding p PubKeyFromHex_hex four_rig_sel n by (auto simp: t n)
  with c show ?thesis by (auto simp: n(1)[symmetric])
qed

section \<open>The first payment\<close>

definition first_tx :: transaction where
  "first_tx = \<lparr>tx_Hash = 0, tx_Sequence = 1, tx_Nonce = 42, tx_From = payer_key, tx_To = 5, tx_Amount = 1000, tx_SenderSig = 0,
     tx_ParentHashes = [], tx_WitnessSigs = [], tx_CreatedAt = 0, tx_Status = TxPending\<rparr>"

definition first_snapshot :: snapshot where
  "first_snapshot = \<lparr>sn_PubKey = payer_key, sn_Sequence = 0, sn_Balance = initialBalance, sn_DAGTips = [], sn_CreatedAt = 0,
     sn_ExpiresAt = snapshotTTL\<rparr>"

text \<open>The payer's node after the script: its key has the initial balance, and no nonce is locked.\<close>

lemma funded_payer:
  assumes "store_ok four_env mem_abs db" and "led mem_abs db = fund payer_key initialBalance (led mem_abs [])"
    and "nonce_locks mem_abs db = nonce_locks mem_abs []" and "nd = set_db db (node_over [] 0)"
  shows "BuildTx four_env (nd_tp nd) 0 (Inr (PutUint64 42)) sample_key 5 1000 = SignTx sample_crypto sample_key first_tx"
    and "payerSnapshot mem_abs nd 0 = first_snapshot"
    and "\<exists>db'. Lock mem_badger (nd_db nd) 0 pk nonce = (None, db')"
proof -
  have dag: "tp_dag (nd_tp nd) = NewDAGManager" "nd_db nd = db" "nd_kp nd = sample_key"
    by (simp_all add: assms(4) net_kp_def)
  have led: "balance (led mem_abs db) payer_key = initialBalance" "lg_seq (led mem_abs db) payer_key = 0"
    by (simp_all add: assms(2) fund_def balance_def empty_led)
  note g = reads_balance[OF reliable_reads[OF four_reliable] assms(1), where now = 0 and pk = payer_key, unfolded led four_env_sel]
  show "BuildTx four_env (nd_tp nd) 0 (Inr (PutUint64 42)) sample_key 5 1000 = SignTx sample_crypto sample_key first_tx"
    using g dag by (simp add: BuildTx_def ValidateAmount_def SafeAdd_def BondAmount_def calcBond_def bondDivisor_def MaxAmount_def
        initialBalance_def CurrentTips_empty NewDAGManager_def first_tx_def)
  show "payerSnapshot mem_abs nd 0 = first_snapshot"
    using led dag by (simp add: payerSnapshot_def first_snapshot_def CurrentTips_empty NewDAGManager_def)
  have "ab_db mem_abs db (nonceLockKey pk nonce) = None"
    using fun_cong[OF fun_cong[OF assms(3)], of pk nonce] by (simp add: nonce_locks_def mem_abs_def)
  then have "visible 0 (map_of db) (nonceLockKey pk nonce) = None" by (simp add: mem_abs_def visible_def)
  from mem_Lock[OF this] dag(2) show "\<exists>db'. Lock mem_badger (nd_db nd) 0 pk nonce = (None, db')" by simp
qed


end
