(* ===== verification/Spec2Isabelle.thy ===== *)
theory Spec2Isabelle
  imports TxSamples Dag_Depth KeyOrder Process Concurrency ReadLoop Custody LocalnetSamples
begin

text \<open>
  A model of cdml, a payment network without blocks, written in Go: accounts are Ed25519 keys, a
  transaction is confirmed when three active witnesses signed it, and every node keeps its own
  ledger of balances in BadgerDB.

  \<^bold>\<open>The program and how its parts interact.\<close> A node (\<^verbatim>\<open>node/node.go\<close>) owns a database with the
  stores over it (\<^verbatim>\<open>internal/storage\<close>), a transaction graph and a transaction processor
  (\<^verbatim>\<open>internal/protocol\<close>), a cache of seen messages and its peers (\<^verbatim>\<open>internal/network\<close>). A payment
  starts with \<^verbatim>\<open>SendTx\<close>: the processor builds and signs the transaction, the node locks its nonce and
  gossips a lock request and a verification request. A node that is an active witness verifies the
  transaction and answers with a signature; the sender collects the signatures, and the third one
  starts \<^verbatim>\<open>confirmTx\<close>, which checks the quorum, writes the new balances and the record in one batch
  and gossips the confirmation, which the other nodes apply to their ledgers. The HTTP API
  (\<^verbatim>\<open>api\<close>) calls the node; \<^verbatim>\<open>cmd/cdml/main.go\<close> starts both; \<^verbatim>\<open>scripts\<close> set up a local network and
  are its client.

  \<^bold>\<open>Theories and sources.\<close>

  \<^item> \<open>Prelude\<close>: the outcome of a Go call (\<open>Ok\<close>, \<open>Err\<close>, \<open>Panic\<close>, \<open>Blocked\<close>), bytes and the big-endian
    layout of integers. \<open>Hex\<close>, \<open>Strconv\<close>, \<open>Files\<close>: what the program uses of Go's library for
    hexadecimal, decimal numbers and whole files. \<open>Machine\<close>: runs of a step relation, the contracts
    \<open>machine\<close> and \<open>safe_machine\<close> of an inductive invariant, and \<open>simulation\<close> of an abstract machine by a
    concrete one.
  \<^item> \<open>Core\<close>: \<^verbatim>\<open>internal/core\<close> (types, errors, constants, checked amounts). \<open>Crypto\<close>: \<^verbatim>\<open>internal/crypto\<close>
    (hash.go, keypair.go, sign.go), with the contract \<open>signer\<close>.
  \<^item> \<open>Db\<close>: db.go, the wrapper over BadgerDB, with the contract \<open>kv_store\<close>. \<open>Keys\<close>: the key layout.
    \<open>KeyOrder\<close>: the order in which scans meet the keys. \<open>Chain\<close>: chain.go, the abstract ledger and the
    contract \<open>ledger_store\<close>. \<open>Stores\<close>: snapshot.go (snapshots, active witnesses, nonce locks).
  \<^item> \<open>Dag\<close>, \<open>Dag_Depth\<close>: dag.go. \<open>TxProc\<close>, \<open>TxVerify\<close>: transaction.go; \<open>TxSamples\<close> runs them on a concrete
    processor. \<open>Concurrency\<close>: confirmations whose reads and writes interleave.
  \<^item> \<open>Gossip\<close>: gossip.go. \<open>Packet\<close>, \<open>Peer\<close>: packet.go (framing; the life of a peer with the halves of
    \<^verbatim>\<open>Send\<close> and \<^verbatim>\<open>Close\<close> interleaved).
  \<^item> \<open>Node\<close>, \<open>Handlers\<close>: node.go, its state, peers, packet handlers, payments and connections.
    \<open>NodeInv\<close>, \<open>NodeRun\<close>: what every call keeps and returns. \<open>NodeProps\<close>: the node as a machine whose steps
    are whole calls, and its runs. \<open>Payments\<close>, \<open>Forgeries\<close>, \<open>Trust\<close>: what starts, completes, spoils and
    forges payments, the answer of a witness, and what a node believes. \<open>ReadLoop\<close>: the packet loop of
    a connection. \<open>NodeSamples\<close>: concrete nodes.
  \<^item> \<open>Network\<close>: nodes joined by connections, a machine whose steps are calls of one node, frames
    put on a connection and packets taken off it. \<open>Delivery\<close>: what each call of a payment does when the
    database does not fail and the channels have room. \<open>Settlement\<close>: a payment from \<^verbatim>\<open>SendTx\<close> to its
    confirmation across connections. \<open>Custody\<close>: what may change the ledger of a node, and the abstract
    machine of accounts. \<open>NetSamples\<close>: a network of four nodes.
  \<^item> \<open>Api\<close>, \<open>ApiProps\<close>, \<open>ApiEffects\<close>: handler.go and server.go, the node with its API as a machine, and
    what requests do to the ledger. \<open>Startup\<close>: config.go, \<^verbatim>\<open>New\<close> and \<^verbatim>\<open>Start\<close> of node.go and the way of
    main.go to a running node. \<open>Process\<close>: the process from there to the signal that ends it.
  \<^item> \<open>Localnet\<close>, \<open>LocalnetInit\<close>, \<open>Cli\<close>: \<^verbatim>\<open>scripts/localnet/setup.go\<close>, \<^verbatim>\<open>scripts/localnet/init.go\<close>,
    \<^verbatim>\<open>scripts/cli/main.go\<close>. \<open>Bootstrap\<close> and \<open>CliRun\<close> put the scripts' HTTP requests, the API
    and the nodes together; \<open>LocalnetSamples\<close> runs the scripts on four nodes.

  \<^bold>\<open>State and operations.\<close> Every operation has the name of its Go function (a prefix tells apart
  methods with one name, as \<open>TxProcessor_VerifyTx\<close> and \<open>api_SendTx\<close>) and takes and returns the state
  it works on. Amounts, sequences and nonces are 64-bit words, keys and hashes 256-bit words, byte
  slices lists of 8-bit words. A Go map that the program ranges over is an association list in the
  order of the visit, other maps are functions; peers are objects in a heap of references, since the
  table and the goroutines share them. Time and random draws come with each call. Mutexes
  are not state: a call that holds one for its whole body is one step, a call that lets go of it in
  between is modelled in two halves (\<open>Peer\<close>, \<open>Concurrency\<close>), and a goroutine that takes a lock it
  holds is the outcome \<open>Blocked\<close>.

  \<^bold>\<open>What the lemmas show.\<close> Arithmetic and encodings: exactness of the checked amounts, the round trips
  of bytes, hexadecimal, decimals, packets and records, and that different transactions are signed
  as different byte streams. Stores: each operation implements its abstract one on the map from keys
  to values, and the chain store a ledger, in which a confirmation moves amount and bond in one batch
  or changes nothing. Crypto: a quorum is accepted exactly when enough different active witnesses
  gave valid signatures. Graph: an accepted edge closes no cycle within the search depth, tips do not
  depend on the order of Go's map. Processor: what a built, verified, confirmed and applied
  transaction satisfies, errors included. Node and API: invariants over every run (well-formed
  store, bounded hop counts, a table of live peers, an empty graph), that handlers return and which
  packet makes one panic, that a payment with three signatures of active witnesses goes through. Network:
  every connection carries the packets written at one end to the other in order and once; a payment
  with three connected witnesses settles; every change of a ledger is a credit from a confirmation or
  the completion of a payment of the node itself, so that the ledgers refine an abstract machine of
  accounts in which foreign accounts are only credited. Scripts: \<^verbatim>\<open>init.go\<close> against the APIs of the nodes
  leaves every key with its balance and every node with the set of all keys; the client's \<open>send\<close> is then
  one \<^verbatim>\<open>SendTx\<close> of the node it reaches, and the payment settles. The
  findings are theorems as well: lost updates, forged confirmations, double spends that verify, unbacked
  snapshots, junk signatures, shared hop counts, self-payments that mint, deadlocks of the peer table and of the shutdown.

  \<^bold>\<open>Bounds and termination.\<close> Nothing in the model runs on fuel of its own. The cycle search of dag.go has
  the program's depth \<open>dagCycleCheckDepth\<close> and the depth search a visited set; the packet loop of a
  connection is a recursion on the bytes still to come, of which every packet takes at least four;
  the scripts' loops have the program's bounds (five nodes, twenty configuration files, ten tries).

  \<^bold>\<open>Assumed of code outside the repository.\<close> BadgerDB is the record \<open>badger\<close> with \<open>badger_ok\<close>, its documented
  transactions over a map with expiry; any of its calls may fail. Ed25519 and Blake2b are
  \<open>crypto_ops\<close> with \<open>ed25519_ok\<close> (a signature made with a key verifies under its public half;
  lengths); no theorem assumes that forging is impossible or that hashes do not collide. JSON
  codings are \<open>codec\<close> parameters, with the round trip as a hypothesis of the theorem that needs it.
  Each is instantiated (\<open>mem_badger\<close>, \<open>sample_crypto\<close>, the codecs of \<open>NodeSamples\<close>) where theorems are
  run on concrete inputs.

  \<^bold>\<open>Not modelled.\<close> The text of log lines and of what the scripts print; deadlines, timeouts and sleeps;
  the connections of HTTP (a request is one step of a \<open>transport\<close> that the scripts' \<^verbatim>\<open>get\<close> and \<^verbatim>\<open>post\<close>
  call; \<open>Bootstrap\<close> gives one that reads a URL as documented and calls the API of the node there) and
  the JSON text of bodies; directories (\<^verbatim>\<open>os.MkdirAll\<close>) and file
  modes; the closing of the listener and of the database in \<^verbatim>\<open>Stop\<close>, and goroutines that go on while
  the shutdown waits; interleavings inside node calls other than those of \<open>Peer\<close> and \<open>Concurrency\<close>.
\<close>

end
